theory Spec2Isabelle
  imports Complex_Main "HOL-Library.AList" "HOL-Library.Sublist"
begin

section \<open>The WebSocket connection manager of Arx-Wallet-Tracker\<close>

text \<open>
  A shallow embedding of \<^verbatim>\<open>packages/core/src/services/websocket-manager.ts\<close> and of the
  types of \<^verbatim>\<open>packages/core/types/websocket.types.ts\<close> it uses. The class
  \<^verbatim>\<open>WebSocketManager\<close> becomes a record of its fields, every method a function that takes
  the record and returns the updated one. The record also holds what the platform keeps
  for the manager: the table of live timers, the subscription objects (an explicit store,
  since the registry holds references to objects that are mutated in place), and a
  \<open>trace\<close> of what the class does in order: console lines, calls on the transport, calls
  of handlers and callbacks. The clock (\<^verbatim>\<open>Date.now()\<close>) and the random draws
  (\<^verbatim>\<open>Math.random()\<close>) are arguments of the functions that read them; one
  run-to-completion step reads one clock value. Configuration values, timestamps and
  counters are \<open>int\<close> or \<open>nat\<close>; the reconnect delay is a JavaScript number with its
  infinities and NaN (\<open>jsnum\<close>).
\<close>

subsection \<open>Types of websocket.types.ts\<close>

datatype MessageType =
  SUBSCRIBE | UNSUBSCRIBE | DATA | ERROR | PING | PONG | ACK | BROADCAST | COMMAND | STATUS

datatype ConnectionStatus =
  CONNECTING | CONNECTED | DISCONNECTED | RECONNECTING | ERROR_status | CLOSED

record WebSocketConfig =
  url :: string
  reconnectInterval :: int
  maxReconnectAttempts :: int
  heartbeatInterval :: int
  messageQueueSize :: int

text \<open>
  A subscription request. The manager reads the channel and copies the rest into the
  payload, so \<^verbatim>\<open>params\<close>, \<^verbatim>\<open>filters\<close> and \<^verbatim>\<open>options\<close> are kept as opaque texts; the
  value of a filter has type \<^verbatim>\<open>any\<close>.
\<close>

record SubscriptionRequest =
  channel :: string
  params :: string
  filters :: "string option"
  options :: "string option"

text \<open>
  The payload of a message is \<^verbatim>\<open>any\<close> in the source. The record has the properties the
  manager writes or reads: \<^verbatim>\<open>subscriptionId\<close>, the spread request of a SUBSCRIBE, the
  \<^verbatim>\<open>timestamp\<close> of a PING or PONG, and \<^verbatim>\<open>data\<close> (opaque).
\<close>

record Payload =
  subscriptionId :: "string option"
  request :: "SubscriptionRequest option"
  ping_timestamp :: "int option"
  data :: "string option"

record WebSocketMessage =
  msg_id :: string
  msg_type :: MessageType
  msg_timestamp :: int
  payload :: "Payload option"

record SubscriptionState =
  sub_id :: string
  sub_channel :: string
  active :: bool
  createdAt :: int
  lastMessage :: "int option"
  messageCount :: int
  errorCount :: int

record ConnectionStats =
  connectedAt :: "int option"
  disconnectedAt :: "int option"
  reconnectCount :: int
  messagesSent :: int
  messagesReceived :: int
  bytesReceived :: int
  bytesSent :: int
  latency :: int
  uptime :: int

text \<open>
  \<^verbatim>\<open>lastError\<close> is either the descriptor built by \<^verbatim>\<open>handleError\<close> (code 1006, recoverable,
  with its timestamp) or the payload of a server ERROR message cast to \<^verbatim>\<open>WebSocketError\<close>.
\<close>

datatype WebSocketError =
  TransportError int
| ServerError Payload

subsection \<open>JavaScript numbers\<close>

text \<open>
  The reconnect delay is computed with \<^verbatim>\<open>Math.pow\<close>, \<^verbatim>\<open>*\<close>, \<^verbatim>\<open>+\<close> and \<^verbatim>\<open>Math.min\<close> on
  doubles. A \<open>jsnum\<close> is a finite number, one of the two infinities, or NaN. An operation
  on finite numbers gives the exact result, or an infinity when the exact result is
  beyond the largest double (from \<open>2^1024 - 2^970\<close> on, where rounding to nearest gives
  infinity); the rounding of a finite result to the nearest double is not modelled.
\<close>

datatype jsnum = Num real | Infinity | NegInfinity | NaN

definition overflow_bound :: real where
  "overflow_bound = 2 ^ 1024 - 2 ^ 970"

definition js_number :: "real \<Rightarrow> jsnum" where
  "js_number x =
     (if overflow_bound \<le> x then Infinity
      else if x \<le> - overflow_bound then NegInfinity
      else Num x)"

definition infinity_times :: "real \<Rightarrow> jsnum" where
  "infinity_times x = (if 0 < x then Infinity else if x < 0 then NegInfinity else NaN)"

fun js_mult :: "jsnum \<Rightarrow> jsnum \<Rightarrow> jsnum" where
  "js_mult (Num x) (Num y) = js_number (x * y)"
| "js_mult (Num x) Infinity = infinity_times x"
| "js_mult (Num x) NegInfinity = infinity_times (- x)"
| "js_mult Infinity (Num y) = infinity_times y"
| "js_mult NegInfinity (Num y) = infinity_times (- y)"
| "js_mult Infinity Infinity = Infinity"
| "js_mult NegInfinity NegInfinity = Infinity"
| "js_mult Infinity NegInfinity = NegInfinity"
| "js_mult NegInfinity Infinity = NegInfinity"
| "js_mult NaN b = NaN"
| "js_mult a NaN = NaN"

fun js_add :: "jsnum \<Rightarrow> jsnum \<Rightarrow> jsnum" where
  "js_add (Num x) (Num y) = js_number (x + y)"
| "js_add (Num x) Infinity = Infinity"
| "js_add (Num x) NegInfinity = NegInfinity"
| "js_add Infinity (Num y) = Infinity"
| "js_add NegInfinity (Num y) = NegInfinity"
| "js_add Infinity Infinity = Infinity"
| "js_add NegInfinity NegInfinity = NegInfinity"
| "js_add Infinity NegInfinity = NaN"
| "js_add NegInfinity Infinity = NaN"
| "js_add NaN b = NaN"
| "js_add a NaN = NaN"

text \<open>\<^verbatim>\<open>Math.min\<close> of two numbers: NaN when one of them is NaN.\<close>

fun js_min :: "jsnum \<Rightarrow> jsnum \<Rightarrow> jsnum" where
  "js_min NaN b = NaN"
| "js_min a NaN = NaN"
| "js_min NegInfinity b = NegInfinity"
| "js_min a NegInfinity = NegInfinity"
| "js_min Infinity b = b"
| "js_min a Infinity = a"
| "js_min (Num x) (Num y) = Num (min x y)"

text \<open>
  \<^verbatim>\<open>Math.pow(2, n)\<close> for a counter \<open>n\<close>: the exact power up to \<open>2^1023\<close>, infinity from
  1024 on.
\<close>

definition js_pow2 :: "nat \<Rightarrow> jsnum" where
  "js_pow2 n = (if n < 1024 then Num (2 ^ n) else Infinity)"

subsection \<open>The platform: transport, JSON, timers, handlers\<close>

datatype ReadyState = RS_CONNECTING | RS_OPEN | RS_CLOSING | RS_CLOSED

text \<open>The platform's \<^verbatim>\<open>WebSocket\<close> object: an identity and its \<^verbatim>\<open>readyState\<close>.\<close>

record Transport =
  tid :: nat
  readyState :: ReadyState

text \<open>
  The value of \<^verbatim>\<open>this.ws\<close>. The class neither declares nor initialises the property, so
  it is \<^verbatim>\<open>undefined\<close> until the first \<^verbatim>\<open>connect\<close> assigns a transport; \<^verbatim>\<open>disconnect\<close>
  assigns \<^verbatim>\<open>null\<close>.
\<close>

datatype ws_ref = Ws_undefined | Ws_null | Ws_object Transport

text \<open>What \<^verbatim>\<open>JSON.parse\<close> does on the data of a message event.\<close>

datatype Parsed = ParseThrows | ParsedNull | ParsedMessage WebSocketMessage

text \<open>
  The library functions the manager calls, as parameters: \<^verbatim>\<open>JSON.stringify\<close> (\<open>None\<close> when
  it throws, as it does on a value holding a BigInt or a cycle), \<^verbatim>\<open>JSON.parse\<close>, and
  whether \<^verbatim>\<open>WebSocket.send\<close> of a transport throws on a given text.
\<close>

record Platform =
  JSON_stringify :: "WebSocketMessage \<Rightarrow> string option"
  JSON_parse :: "string \<Rightarrow> Parsed"
  send_throws :: "nat \<Rightarrow> string \<Rightarrow> bool"

datatype error =
  NotFound string
| TypeError
| SendFailed
| ConstructFailed
| HandlerThrew nat

text \<open>
  A timer of the platform: what \<^verbatim>\<open>setTimeout\<close> or \<^verbatim>\<open>setInterval\<close> was called with. The
  platform keeps the live timers under their handles; a handle is truthy.
\<close>

datatype timer = Timeout jsnum | Interval int

text \<open>
  A message handler is a closure in the source. The closures the manager itself creates
  are the three default handlers of \<^verbatim>\<open>setupDefaultHandlers\<close> and the latency handler of
  \<^verbatim>\<open>sendPing\<close>, which captures \<^verbatim>\<open>pingTime\<close>. A handler of a consumer is \<open>External n thr\<close>: a
  name and whether it throws on a message. Every call of a handler is recorded in the
  trace under the handler's name.
\<close>

datatype MessageHandler =
  SendPongHandler
| ErrorMessageHandler
| AcknowledgmentHandler
| LatencyHandler int
| External nat "WebSocketMessage \<Rightarrow> bool"

datatype handler_name = H_sendPong | H_errorMessage | H_acknowledgment | H_latency int | H_external nat

fun name_of :: "MessageHandler \<Rightarrow> handler_name" where
  "name_of SendPongHandler = H_sendPong"
| "name_of ErrorMessageHandler = H_errorMessage"
| "name_of AcknowledgmentHandler = H_acknowledgment"
| "name_of (LatencyHandler pingTime) = H_latency pingTime"
| "name_of (External n thr) = H_external n"

datatype SubscriptionCallback =
  Callback nat "string option \<Rightarrow> bool"

datatype effect =
  Log_connected
| Log_closed int
| Log_reconnecting jsnum nat
| Log_resubscribing string
| Log_acknowledged string
| Error_handling_message
| Error_websocket
| Error_server "Payload option"
| Ws_send nat string
| Ws_close nat int
| Handler_invoked handler_name WebSocketMessage
| Callback_invoked nat "string option"
| Unhandled_rejection
| Uncaught_exception

subsection \<open>The class WebSocketManager\<close>

text \<open>
  The fields of the class, with those of \<^verbatim>\<open>this.state\<close> inlined (\<open>status\<close>, \<open>connected\<close>,
  \<open>subscriptions\<close>, \<open>stats\<close>, \<open>lastError\<close>).

  The subscription registry is a JavaScript \<^verbatim>\<open>Map\<close> from identifiers to objects. The
  objects are in the store \<open>heap\<close> (a new one at \<open>next_ref\<close>); the registry holds their
  references and keeps insertion order: an association list with \<open>AList.update\<close> (replace
  in place, or append), \<open>AList.delete\<close> and \<open>map_of\<close>. A consumer that read an object from
  \<^verbatim>\<open>getState()\<close> holds the same reference.

  \<open>reconnectTimer\<close> and \<open>heartbeatTimer\<close> hold timer handles. \<open>timers\<close> is the platform's
  table of live timers, a timer staying in it until it is cleared (or, for a timeout,
  until it fires); \<open>next_handle\<close> is the handle the platform gives out next.

  \<^verbatim>\<open>this.state.messageQueue\<close> is never written after its initialisation and is left out;
  so are \<^verbatim>\<open>connectionPool\<close>, \<^verbatim>\<open>performanceMetrics\<close> and \<^verbatim>\<open>circuitBreaker\<close>, which no method
  touches.
\<close>

record WebSocketManager =
  config :: WebSocketConfig
  status :: ConnectionStatus
  connected :: bool
  subscriptions :: "(string \<times> nat) list"
  heap :: "nat \<Rightarrow> SubscriptionState option"
  next_ref :: nat
  stats :: ConnectionStats
  lastError :: "WebSocketError option"
  ws :: ws_ref
  reconnectTimer :: "nat option"
  heartbeatTimer :: "nat option"
  timers :: "(nat \<times> timer) list"
  next_handle :: nat
  messageHandlers :: "MessageType \<Rightarrow> MessageHandler list option"
  subscriptionCallbacks :: "string \<Rightarrow> SubscriptionCallback option"
  messageQueue :: "WebSocketMessage list"
  reconnectAttempts :: nat
  trace :: "effect list"

definition emit :: "effect \<Rightarrow> WebSocketManager \<Rightarrow> WebSocketManager" where
  "emit e s = s\<lparr>trace := trace s @ [e]\<rparr>"

subsubsection \<open>Timers and objects\<close>

text \<open>\<^verbatim>\<open>setTimeout\<close> and \<^verbatim>\<open>setInterval\<close>: a new live timer, and its handle.\<close>

definition setTimer :: "timer \<Rightarrow> WebSocketManager \<Rightarrow> nat \<times> WebSocketManager" where
  "setTimer tm s =
     (next_handle s,
      s\<lparr>timers := timers s @ [(next_handle s, tm)], next_handle := next_handle s + 1\<rparr>)"

text \<open>\<^verbatim>\<open>clearTimeout\<close> and \<^verbatim>\<open>clearInterval\<close>: the timer of that handle, if live, is dropped.\<close>

definition clearTimer :: "nat \<Rightarrow> WebSocketManager \<Rightarrow> WebSocketManager" where
  "clearTimer h s = s\<lparr>timers := filter (\<lambda>(k, tm). k \<noteq> h) (timers s)\<rparr>"

text \<open>An assignment to properties of the object behind a reference.\<close>

definition update_object ::
  "nat \<Rightarrow> (SubscriptionState \<Rightarrow> SubscriptionState) \<Rightarrow> WebSocketManager \<Rightarrow> WebSocketManager" where
  "update_object r f s = s\<lparr>heap := (heap s)(r := map_option f (heap s r))\<rparr>"

subsubsection \<open>Identifiers\<close>

definition digit_char :: "nat \<Rightarrow> char" where
  "digit_char d = ''0123456789'' ! d"

fun digits :: "nat \<Rightarrow> string" where
  "digits n = (if n < 10 then [digit_char n] else digits (n div 10) @ [digit_char (n mod 10)])"

declare digits.simps [simp del]

definition show_int :: "int \<Rightarrow> string" where
  "show_int i = (if i < 0 then CHR ''-'' # digits (nat (- i)) else digits (nat i))"

text \<open>
  \<^verbatim>\<open>`msg_${Date.now()}_${Math.random().toString(36).substr(2, 9)}`\<close>: the second argument
  is the text the random draw gives.
\<close>

definition generateMessageId :: "int \<Rightarrow> string \<Rightarrow> string" where
  "generateMessageId now rnd = ''msg_'' @ show_int now @ ''_'' @ rnd"

definition generateSubscriptionId :: "int \<Rightarrow> string \<Rightarrow> string" where
  "generateSubscriptionId now rnd = ''sub_'' @ show_int now @ ''_'' @ rnd"

subsubsection \<open>State and status\<close>

definition initialStats :: ConnectionStats where
  "initialStats = \<lparr>connectedAt = None, disconnectedAt = None, reconnectCount = 0,
     messagesSent = 0, messagesReceived = 0, bytesReceived = 0, bytesSent = 0,
     latency = 0, uptime = 0\<rparr>"

text \<open>
  \<^verbatim>\<open>this.ws !== null && this.ws.readyState === WebSocket.OPEN\<close>: \<^verbatim>\<open>undefined\<close> passes the
  first test, and reading \<^verbatim>\<open>readyState\<close> of \<^verbatim>\<open>undefined\<close> throws a TypeError.
\<close>

definition isConnected :: "WebSocketManager \<Rightarrow> error + bool" where
  "isConnected s =
     (case ws s of
        Ws_undefined \<Rightarrow> Inl TypeError
      | Ws_null \<Rightarrow> Inr False
      | Ws_object t \<Rightarrow> Inr (readyState t = RS_OPEN))"

definition updateStatus :: "int \<Rightarrow> ConnectionStatus \<Rightarrow> WebSocketManager \<Rightarrow> WebSocketManager" where
  "updateStatus now st s =
     (let s1 = s\<lparr>status := st\<rparr> in
      case connectedAt (stats s1) of
        None \<Rightarrow> s1
      | Some c \<Rightarrow> s1\<lparr>stats := (stats s1)\<lparr>uptime := now - c\<rparr>\<rparr>)"

definition onMessage :: "MessageType \<Rightarrow> MessageHandler \<Rightarrow> WebSocketManager \<Rightarrow> WebSocketManager" where
  "onMessage ty handler s =
     (let handlers = (case messageHandlers s ty of None \<Rightarrow> [] | Some hs \<Rightarrow> hs) in
      s\<lparr>messageHandlers := (messageHandlers s)(ty \<mapsto> handlers @ [handler])\<rparr>)"

definition onSubscription :: "string \<Rightarrow> SubscriptionCallback \<Rightarrow> WebSocketManager \<Rightarrow> WebSocketManager" where
  "onSubscription sid callback s = s\<lparr>subscriptionCallbacks := (subscriptionCallbacks s)(sid \<mapsto> callback)\<rparr>"

definition setupDefaultHandlers :: "WebSocketManager \<Rightarrow> WebSocketManager" where
  "setupDefaultHandlers s =
     onMessage ACK AcknowledgmentHandler
       (onMessage ERROR ErrorMessageHandler
         (onMessage PING SendPongHandler s))"

text \<open>
  The field initialisers and the constructor. \<^verbatim>\<open>ws\<close> gets no value. The platform has no
  timer of this manager yet, and numbers its handles from 1.
\<close>

definition constructor :: "WebSocketConfig \<Rightarrow> WebSocketManager" where
  "constructor cfg =
     setupDefaultHandlers
       \<lparr>config = cfg, status = DISCONNECTED, connected = False, subscriptions = [],
        heap = Map.empty, next_ref = 0,
        stats = initialStats, lastError = None, ws = Ws_undefined, reconnectTimer = None,
        heartbeatTimer = None, timers = [], next_handle = 1,
        messageHandlers = Map.empty, subscriptionCallbacks = Map.empty,
        messageQueue = [], reconnectAttempts = 0, trace = []\<rparr>"

subsubsection \<open>The outbound queue and the send path\<close>

text \<open>
  \<^verbatim>\<open>Array.shift\<close> on an empty array removes nothing, which is what \<open>tl\<close> does on \<open>[]\<close>.
\<close>

definition queueMessage :: "WebSocketMessage \<Rightarrow> WebSocketManager \<Rightarrow> WebSocketManager" where
  "queueMessage message s =
     (let s1 = (if int (length (messageQueue s)) \<ge> messageQueueSize (config s)
                then s\<lparr>messageQueue := tl (messageQueue s)\<rparr> else s)
      in s1\<lparr>messageQueue := messageQueue s1 @ [message]\<rparr>)"

text \<open>
  \<^verbatim>\<open>sendMessage\<close> is an \<^verbatim>\<open>async\<close> function: \<open>Inr\<close> is the state after its promise
  resolved, \<open>Inl\<close> that it rejected, which leaves the state as it was (the counters are
  bumped after the send). An exception of \<^verbatim>\<open>isConnected\<close> rejects the promise too.
\<close>

definition sendMessage :: "Platform \<Rightarrow> WebSocketMessage \<Rightarrow> WebSocketManager \<Rightarrow> error + WebSocketManager" where
  "sendMessage pf message s =
     (case isConnected s of
        Inl e \<Rightarrow> Inl e
      | Inr c \<Rightarrow>
          if \<not> c then Inr (queueMessage message s)
          else case ws s of
            Ws_object t \<Rightarrow>
              (case JSON_stringify pf message of
                 None \<Rightarrow> Inl SendFailed
               | Some d \<Rightarrow>
                   if send_throws pf (tid t) d then Inl SendFailed
                   else Inr ((emit (Ws_send (tid t) d) s)
                          \<lparr>stats := (stats s)\<lparr>messagesSent := messagesSent (stats s) + 1,
                                               bytesSent := bytesSent (stats s) + int (length d)\<rparr>\<rparr>))
          | Ws_null \<Rightarrow> Inl TypeError
          | Ws_undefined \<Rightarrow> Inl TypeError)"

text \<open>A promise nobody awaits: a rejection changes nothing but is reported by the runtime.\<close>

definition fire_and_forget :: "error + WebSocketManager \<Rightarrow> WebSocketManager \<Rightarrow> WebSocketManager" where
  "fire_and_forget r s = (case r of Inl e \<Rightarrow> emit Unhandled_rejection s | Inr s' \<Rightarrow> s')"

text \<open>
  The loop of \<^verbatim>\<open>flushMessageQueue\<close> runs while the queue is not empty. A message taken
  from the queue while the manager is not connected is queued again by \<^verbatim>\<open>sendMessage\<close>,
  so the loop need not end: \<open>None\<close> is that it does not return.
\<close>

partial_function (option) flushMessageQueue :: "Platform \<Rightarrow> WebSocketManager \<Rightarrow> WebSocketManager option" where
  "flushMessageQueue pf s =
     (case messageQueue s of
        [] \<Rightarrow> Some s
      | message # rest \<Rightarrow>
          (let s1 = s\<lparr>messageQueue := rest\<rparr> in
           flushMessageQueue pf (fire_and_forget (sendMessage pf message s1) s1)))"

subsubsection \<open>Subscriptions\<close>

text \<open>
  The envelope \<^verbatim>\<open>subscribe\<close> builds, with payload \<^verbatim>\<open>{ subscriptionId, ...request }\<close>, and
  the object it stores in the registry.
\<close>

definition subscribe_message :: "string \<Rightarrow> int \<Rightarrow> string \<Rightarrow> SubscriptionRequest \<Rightarrow> WebSocketMessage" where
  "subscribe_message sid now rnd req =
     \<lparr>msg_id = generateMessageId now rnd, msg_type = SUBSCRIBE, msg_timestamp = now,
      payload = Some \<lparr>subscriptionId = Some sid, request = Some req,
                      ping_timestamp = None, data = None\<rparr>\<rparr>"

definition new_subscription :: "string \<Rightarrow> int \<Rightarrow> SubscriptionRequest \<Rightarrow> SubscriptionState" where
  "new_subscription sid now req =
     \<lparr>sub_id = sid, sub_channel = channel req, active = True, createdAt = now,
      lastMessage = None, messageCount = 0, errorCount = 0\<rparr>"

text \<open>\<^verbatim>\<open>this.state.subscriptions.set(id, { ... })\<close>: a new object, and the key bound to it.\<close>

definition register_subscription ::
  "string \<Rightarrow> SubscriptionState \<Rightarrow> WebSocketManager \<Rightarrow> WebSocketManager" where
  "register_subscription sid obj s =
     s\<lparr>heap := (heap s)(next_ref s \<mapsto> obj), next_ref := next_ref s + 1,
       subscriptions := AList.update sid (next_ref s) (subscriptions s)\<rparr>"

text \<open>
  \<^verbatim>\<open>subscribe\<close> awaits \<^verbatim>\<open>sendMessage\<close> before it writes the registry: a rejected send
  rejects \<^verbatim>\<open>subscribe\<close> at the \<^verbatim>\<open>await\<close>.
\<close>

definition subscribe ::
  "Platform \<Rightarrow> int \<Rightarrow> string \<Rightarrow> string \<Rightarrow> SubscriptionRequest \<Rightarrow> WebSocketManager
     \<Rightarrow> error + (string \<times> WebSocketManager)" where
  "subscribe pf now rnd1 rnd2 req s =
     (let sid = generateSubscriptionId now rnd1;
          message = subscribe_message sid now rnd2 req
      in case sendMessage pf message s of
           Inl e \<Rightarrow> Inl e
         | Inr s1 \<Rightarrow> Inr (sid, register_subscription sid (new_subscription sid now req) s1))"

text \<open>\<^verbatim>\<open>subscription.active = false\<close>, on the object that was read from the registry.\<close>

definition markInactive :: "nat \<Rightarrow> WebSocketManager \<Rightarrow> WebSocketManager" where
  "markInactive r s = update_object r (\<lambda>sub. sub\<lparr>active := False\<rparr>) s"

definition deleteSubscription :: "string \<Rightarrow> WebSocketManager \<Rightarrow> WebSocketManager" where
  "deleteSubscription sid s = s\<lparr>subscriptions := AList.delete sid (subscriptions s)\<rparr>"

definition unsubscribe_message :: "string \<Rightarrow> int \<Rightarrow> string \<Rightarrow> WebSocketMessage" where
  "unsubscribe_message sid now rnd =
     \<lparr>msg_id = generateMessageId now rnd, msg_type = UNSUBSCRIBE, msg_timestamp = now,
      payload = Some \<lparr>subscriptionId = Some sid, request = None,
                      ping_timestamp = None, data = None\<rparr>\<rparr>"

definition unsubscribe ::
  "Platform \<Rightarrow> int \<Rightarrow> string \<Rightarrow> string \<Rightarrow> WebSocketManager \<Rightarrow> error + WebSocketManager" where
  "unsubscribe pf now rnd sid s =
     (case map_of (subscriptions s) sid of
        None \<Rightarrow> Inl (NotFound sid)
      | Some subscription \<Rightarrow>
          (let message = unsubscribe_message sid now rnd
           in case sendMessage pf message s of
                Inl e \<Rightarrow> Inl e
              | Inr s1 \<Rightarrow> Inr (deleteSubscription sid (markInactive subscription s1))))"

subsubsection \<open>Heartbeat\<close>

definition ping_message :: "int \<Rightarrow> string \<Rightarrow> WebSocketMessage" where
  "ping_message pingTime rnd =
     \<lparr>msg_id = generateMessageId pingTime rnd, msg_type = PING, msg_timestamp = pingTime,
      payload = Some \<lparr>subscriptionId = None, request = None,
                      ping_timestamp = Some pingTime, data = None\<rparr>\<rparr>"

text \<open>
  The \<^verbatim>\<open>then\<close> callback of \<^verbatim>\<open>sendPing\<close> runs when the send resolved, also when the
  message was only queued; it runs before any other event, so the step is one.
\<close>

definition sendPing :: "Platform \<Rightarrow> int \<Rightarrow> string \<Rightarrow> WebSocketManager \<Rightarrow> WebSocketManager" where
  "sendPing pf now rnd s =
     (let pingTime = now;
          message = ping_message pingTime rnd
      in case sendMessage pf message s of
           Inl e \<Rightarrow> emit Unhandled_rejection s
         | Inr s1 \<Rightarrow> onMessage PONG (LatencyHandler pingTime) s1)"

definition sendPong :: "Platform \<Rightarrow> int \<Rightarrow> string \<Rightarrow> WebSocketManager \<Rightarrow> WebSocketManager" where
  "sendPong pf now rnd s =
     (let message = \<lparr>msg_id = generateMessageId now rnd, msg_type = PONG, msg_timestamp = now,
                     payload = Some \<lparr>subscriptionId = None, request = None,
                                     ping_timestamp = Some now, data = None\<rparr>\<rparr>
      in fire_and_forget (sendMessage pf message s) s)"

text \<open>
  \<^verbatim>\<open>startHeartbeat\<close> assigns the handle of a new interval to \<^verbatim>\<open>heartbeatTimer\<close> without
  clearing the interval whose handle the field held: that one stays live, and no field
  holds its handle any more.
\<close>

definition startHeartbeat :: "WebSocketManager \<Rightarrow> WebSocketManager" where
  "startHeartbeat s =
     (case setTimer (Interval (heartbeatInterval (config s))) s of
        (h, s1) \<Rightarrow> s1\<lparr>heartbeatTimer := Some h\<rparr>)"

text \<open>
  The callback given to \<^verbatim>\<open>setInterval\<close>. An exception of \<^verbatim>\<open>isConnected\<close> leaves the
  callback uncaught.
\<close>

definition heartbeat_tick :: "Platform \<Rightarrow> int \<Rightarrow> string \<Rightarrow> WebSocketManager \<Rightarrow> WebSocketManager" where
  "heartbeat_tick pf now rnd s =
     (case isConnected s of
        Inl e \<Rightarrow> emit Uncaught_exception s
      | Inr c \<Rightarrow> if c then sendPing pf now rnd s else s)"

subsubsection \<open>Dispatch of inbound messages\<close>

text \<open>
  \<^verbatim>\<open>message.payload?.subscriptionId\<close> inside an \<^verbatim>\<open>if\<close>: an absent payload, an absent
  property and the empty string are all falsy.
\<close>

definition truthy_subscriptionId :: "WebSocketMessage \<Rightarrow> string option" where
  "truthy_subscriptionId message =
     (case payload message of
        None \<Rightarrow> None
      | Some p \<Rightarrow> (case subscriptionId p of
                     None \<Rightarrow> None
                   | Some sid \<Rightarrow> if sid = [] then None else Some sid))"

definition handleErrorMessage :: "WebSocketMessage \<Rightarrow> WebSocketManager \<Rightarrow> WebSocketManager" where
  "handleErrorMessage message s =
     (let s1 = emit (Error_server (payload message)) s;
          s2 = s1\<lparr>lastError := map_option ServerError (payload message)\<rparr>
      in case truthy_subscriptionId message of
           None \<Rightarrow> s2
         | Some sid \<Rightarrow>
             (case map_of (subscriptions s2) sid of
                None \<Rightarrow> s2
              | Some subscription \<Rightarrow>
                  update_object subscription (\<lambda>sub. sub\<lparr>errorCount := errorCount sub + 1\<rparr>) s2))"

definition handleAcknowledgment :: "WebSocketMessage \<Rightarrow> WebSocketManager \<Rightarrow> WebSocketManager" where
  "handleAcknowledgment message s = emit (Log_acknowledged (msg_id message)) s"

text \<open>
  The body of each handler. Only a consumer's handler can throw: \<^verbatim>\<open>sendPong\<close> does not
  await its promise, and the other closures of the manager assign and log.
\<close>

fun handler_body ::
  "Platform \<Rightarrow> int \<Rightarrow> string \<Rightarrow> MessageHandler \<Rightarrow> WebSocketMessage \<Rightarrow> WebSocketManager
     \<Rightarrow> error option \<times> WebSocketManager" where
  "handler_body pf now rnd SendPongHandler message s = (None, sendPong pf now rnd s)"
| "handler_body pf now rnd ErrorMessageHandler message s = (None, handleErrorMessage message s)"
| "handler_body pf now rnd AcknowledgmentHandler message s = (None, handleAcknowledgment message s)"
| "handler_body pf now rnd (LatencyHandler pingTime) message s =
     (None, s\<lparr>stats := (stats s)\<lparr>latency := now - pingTime\<rparr>\<rparr>)"
| "handler_body pf now rnd (External n thr) message s =
     (if thr message then (Some (HandlerThrew n), s) else (None, s))"

text \<open>
  One call \<^verbatim>\<open>handler(message)\<close>: the call is recorded, then the body runs; the result is
  the exception it throws, if any, and the state it leaves.
\<close>

definition invoke ::
  "Platform \<Rightarrow> int \<Rightarrow> string \<Rightarrow> MessageHandler \<Rightarrow> WebSocketMessage \<Rightarrow> WebSocketManager
     \<Rightarrow> error option \<times> WebSocketManager" where
  "invoke pf now rnd handler message s =
     handler_body pf now rnd handler message (emit (Handler_invoked (name_of handler) message) s)"

text \<open>\<^verbatim>\<open>handlers.forEach(handler => handler(message))\<close>: an exception ends the iteration.\<close>

fun forEach_handlers ::
  "Platform \<Rightarrow> int \<Rightarrow> string \<Rightarrow> MessageHandler list \<Rightarrow> WebSocketMessage \<Rightarrow> WebSocketManager
     \<Rightarrow> error option \<times> WebSocketManager" where
  "forEach_handlers pf now rnd [] message s = (None, s)"
| "forEach_handlers pf now rnd (handler # handlers) message s =
     (case invoke pf now rnd handler message s of
        (Some e, s1) \<Rightarrow> (Some e, s1)
      | (None, s1) \<Rightarrow> forEach_handlers pf now rnd handlers message s1)"

definition invoke_callback ::
  "SubscriptionCallback \<Rightarrow> string option \<Rightarrow> WebSocketManager \<Rightarrow> error option \<times> WebSocketManager" where
  "invoke_callback cb d s =
     (case cb of Callback n thr \<Rightarrow>
        (let s1 = emit (Callback_invoked n d) s
         in if thr d then (Some (HandlerThrew n), s1) else (None, s1)))"

text \<open>
  The body of the \<^verbatim>\<open>try\<close> block of \<^verbatim>\<open>handleMessage\<close>, after the message was parsed:
  first the counters (\<open>count_message\<close>: the two connection counters, and the last-message
  time and message count of the subscription object the payload names, if registered),
  then the handlers of the type, then the callback of the subscription. \<open>dispatch\<close> gives
  the exception that leaves the block, if any, and the state at that point.
\<close>

definition count_message :: "int \<Rightarrow> nat \<Rightarrow> WebSocketMessage \<Rightarrow> WebSocketManager \<Rightarrow> WebSocketManager" where
  "count_message now len message s =
     (let s1 = s\<lparr>stats := (stats s)\<lparr>messagesReceived := messagesReceived (stats s) + 1,
                                     bytesReceived := bytesReceived (stats s) + int len\<rparr>\<rparr>
      in case truthy_subscriptionId message of
           None \<Rightarrow> s1
         | Some sid \<Rightarrow>
             (case map_of (subscriptions s1) sid of
                None \<Rightarrow> s1
              | Some subscription \<Rightarrow>
                  update_object subscription
                    (\<lambda>sub. sub\<lparr>lastMessage := Some now, messageCount := messageCount sub + 1\<rparr>) s1))"

definition dispatch ::
  "Platform \<Rightarrow> int \<Rightarrow> string \<Rightarrow> nat \<Rightarrow> WebSocketMessage \<Rightarrow> WebSocketManager
     \<Rightarrow> error option \<times> WebSocketManager" where
  "dispatch pf now rnd len message s =
     (let s2 = count_message now len message s
      in case forEach_handlers pf now rnd
                (case messageHandlers s2 (msg_type message) of None \<Rightarrow> [] | Some hs \<Rightarrow> hs)
                message s2 of
           (Some e, s3) \<Rightarrow> (Some e, s3)
         | (None, s3) \<Rightarrow>
             (if msg_type message = DATA then
                (case truthy_subscriptionId message of
                   None \<Rightarrow> (None, s3)
                 | Some sid \<Rightarrow>
                     (case subscriptionCallbacks s3 sid of
                        None \<Rightarrow> (None, s3)
                      | Some cb \<Rightarrow>
                          invoke_callback cb
                            (case payload message of None \<Rightarrow> None | Some p \<Rightarrow> data p) s3))
              else (None, s3)))"

text \<open>
  \<^verbatim>\<open>handleMessage\<close>: one \<^verbatim>\<open>try\<close> around parsing, statistics and dispatch; the \<^verbatim>\<open>catch\<close>
  logs and returns. The argument is \<^verbatim>\<open>event.data\<close>. A parsed \<^verbatim>\<open>null\<close> throws at
  \<^verbatim>\<open>message.payload\<close>, after the two counters were bumped.
\<close>

definition handleMessage ::
  "Platform \<Rightarrow> int \<Rightarrow> string \<Rightarrow> string \<Rightarrow> WebSocketManager \<Rightarrow> WebSocketManager" where
  "handleMessage pf now rnd event_data s =
     (case JSON_parse pf event_data of
        ParseThrows \<Rightarrow> emit Error_handling_message s
      | ParsedNull \<Rightarrow>
          emit Error_handling_message
            (s\<lparr>stats := (stats s)\<lparr>messagesReceived := messagesReceived (stats s) + 1,
                                   bytesReceived := bytesReceived (stats s) + int (length event_data)\<rparr>\<rparr>)
      | ParsedMessage message \<Rightarrow>
          (case dispatch pf now rnd (length event_data) message s of
             (Some e, s1) \<Rightarrow> emit Error_handling_message s1
           | (None, s1) \<Rightarrow> s1))"

subsubsection \<open>Connection life cycle\<close>

definition handleError :: "int \<Rightarrow> WebSocketManager \<Rightarrow> WebSocketManager" where
  "handleError now s =
     updateStatus now ERROR_status
       ((emit Error_websocket s)\<lparr>lastError := Some (TransportError now)\<rparr>)"

text \<open>\<^verbatim>\<open>clearTimers\<close> clears the two timers whose handles the fields hold.\<close>

definition clearTimers :: "WebSocketManager \<Rightarrow> WebSocketManager" where
  "clearTimers s =
     (let s1 = (case reconnectTimer s of
                  None \<Rightarrow> s
                | Some h \<Rightarrow> (clearTimer h s)\<lparr>reconnectTimer := None\<rparr>)
      in case heartbeatTimer s1 of
           None \<Rightarrow> s1
         | Some h \<Rightarrow> (clearTimer h s1)\<lparr>heartbeatTimer := None\<rparr>)"

definition shouldReconnect :: "WebSocketManager \<Rightarrow> bool" where
  "shouldReconnect s = (int (reconnectAttempts s) < maxReconnectAttempts (config s))"

text \<open>The argument \<open>random\<close> is the value of \<^verbatim>\<open>Math.random()\<close>, in \<open>[0, 1)\<close>.\<close>

definition calculateReconnectDelay :: "real \<Rightarrow> WebSocketManager \<Rightarrow> jsnum" where
  "calculateReconnectDelay random s =
     (let baseDelay = Num (real_of_int (reconnectInterval (config s)));
          exponentialDelay = js_mult baseDelay (js_pow2 (reconnectAttempts s));
          jitter = js_mult (Num random) (Num 1000);
          maxDelay = Num 30000
      in js_min (js_add exponentialDelay jitter) maxDelay)"

definition scheduleReconnect :: "int \<Rightarrow> real \<Rightarrow> WebSocketManager \<Rightarrow> WebSocketManager" where
  "scheduleReconnect now random s =
     (let s1 = updateStatus now RECONNECTING s;
          delay = calculateReconnectDelay random s1;
          s2 = emit (Log_reconnecting delay (reconnectAttempts s1 + 1)) s1
      in case setTimer (Timeout delay) s2 of
           (h, s3) \<Rightarrow> s3\<lparr>reconnectTimer := Some h\<rparr>)"

definition handleClose :: "int \<Rightarrow> real \<Rightarrow> int \<Rightarrow> WebSocketManager \<Rightarrow> WebSocketManager" where
  "handleClose now random code s =
     (let s1 = updateStatus now DISCONNECTED (emit (Log_closed code) s);
          s2 = s1\<lparr>connected := False\<rparr>;
          s3 = s2\<lparr>stats := (stats s2)\<lparr>disconnectedAt := Some now\<rparr>\<rparr>;
          s4 = clearTimers s3
      in if code \<noteq> 1000 \<and> shouldReconnect s4 then scheduleReconnect now random s4 else s4)"

text \<open>
  \<^verbatim>\<open>connect\<close> returns a promise that only the open event of the transport it creates
  resolves, so at the return of the call it is pending, or rejected when building the URL
  or constructing the transport threw. \<open>new_ws\<close> is the identity of the transport the
  platform constructs, \<open>None\<close> when that throws; a new transport is in state CONNECTING.
\<close>

datatype ConnectOutcome = Pending | Rejected error

definition connect :: "int \<Rightarrow> nat option \<Rightarrow> WebSocketManager \<Rightarrow> ConnectOutcome \<times> WebSocketManager" where
  "connect now new_ws s =
     (let s1 = updateStatus now CONNECTING s
      in case new_ws of
           Some n \<Rightarrow> (Pending, s1\<lparr>ws := Ws_object \<lparr>tid = n, readyState = RS_CONNECTING\<rparr>\<rparr>)
         | None \<Rightarrow> (Rejected ConstructFailed, updateStatus now ERROR_status s1))"

text \<open>\<^verbatim>\<open>if (this.ws)\<close>: \<^verbatim>\<open>undefined\<close> and \<^verbatim>\<open>null\<close> are falsy.\<close>

definition disconnect :: "int \<Rightarrow> WebSocketManager \<Rightarrow> WebSocketManager" where
  "disconnect now s =
     (let s1 = clearTimers s;
          s2 = (case ws s1 of
                  Ws_object t \<Rightarrow> (emit (Ws_close (tid t) 1000) s1)\<lparr>ws := Ws_null\<rparr>
                | Ws_null \<Rightarrow> s1
                | Ws_undefined \<Rightarrow> s1)
      in updateStatus now DISCONNECTED s2)"

text \<open>The callback given to \<^verbatim>\<open>setTimeout\<close> by \<^verbatim>\<open>scheduleReconnect\<close>; its promise is dropped.\<close>

definition reconnect_fires :: "int \<Rightarrow> nat option \<Rightarrow> WebSocketManager \<Rightarrow> WebSocketManager" where
  "reconnect_fires now new_ws s =
     (let s1 = s\<lparr>reconnectAttempts := reconnectAttempts s + 1\<rparr>;
          s2 = s1\<lparr>stats := (stats s1)\<lparr>reconnectCount := reconnectCount (stats s1) + 1\<rparr>\<rparr>
      in case connect now new_ws s2 of
           (Pending, s3) \<Rightarrow> s3
         | (Rejected e, s3) \<Rightarrow> emit Unhandled_rejection s3)"

text \<open>\<^verbatim>\<open>resubscribeAll\<close> walks the registry and writes one console line per active entry.\<close>

definition resubscribeAll :: "WebSocketManager \<Rightarrow> WebSocketManager" where
  "resubscribeAll s =
     fold (\<lambda>(sid, subscription) acc.
             case heap acc subscription of
               None \<Rightarrow> acc
             | Some sub \<Rightarrow>
                 if active sub then emit (Log_resubscribing (sub_channel sub)) acc else acc)
          (subscriptions s) s"

definition handleOpen :: "Platform \<Rightarrow> int \<Rightarrow> WebSocketManager \<Rightarrow> WebSocketManager option" where
  "handleOpen pf now s =
     (let s1 = updateStatus now CONNECTED (emit Log_connected s);
          s2 = s1\<lparr>connected := True\<rparr>;
          s3 = s2\<lparr>stats := (stats s2)\<lparr>connectedAt := Some now\<rparr>\<rparr>;
          s4 = s3\<lparr>reconnectAttempts := 0\<rparr>;
          s5 = startHeartbeat s4
      in case flushMessageQueue pf s5 of
           None \<Rightarrow> None
         | Some s6 \<Rightarrow> Some (resubscribeAll s6))"

subsection \<open>Views of the state\<close>

text \<open>The handlers registered for a type: \<^verbatim>\<open>this.messageHandlers.get(type) || []\<close>.\<close>

definition handlers_for :: "WebSocketManager \<Rightarrow> MessageType \<Rightarrow> MessageHandler list" where
  "handlers_for s ty = (case messageHandlers s ty of None \<Rightarrow> [] | Some hs \<Rightarrow> hs)"

text \<open>The registry as a reader of \<^verbatim>\<open>getState().subscriptions\<close> sees it: identifiers with their objects.\<close>

definition registry :: "WebSocketManager \<Rightarrow> (string \<times> SubscriptionState) list" where
  "registry s = List.map_filter (\<lambda>(sid, r). map_option (Pair sid) (heap s r)) (subscriptions s)"

text \<open>The object registered under an identifier, if any.\<close>

definition lookup :: "WebSocketManager \<Rightarrow> string \<Rightarrow> SubscriptionState option" where
  "lookup s sid = (case map_of (subscriptions s) sid of None \<Rightarrow> None | Some r \<Rightarrow> heap s r)"

text \<open>The live timers whose handle neither timer field of the manager holds.\<close>

definition unheld_timers :: "WebSocketManager \<Rightarrow> (nat \<times> timer) list" where
  "unheld_timers s =
     filter (\<lambda>(h, tm). Some h \<noteq> reconnectTimer s \<and> Some h \<noteq> heartbeatTimer s) (timers s)"

text \<open>Whether a handler throws on a message, and the ping times the latency handlers of a list captured.\<close>

fun throws :: "MessageHandler \<Rightarrow> WebSocketMessage \<Rightarrow> bool" where
  "throws (External n thr) message = thr message"
| "throws handler message = False"

fun latency_times :: "MessageHandler list \<Rightarrow> int list" where
  "latency_times [] = []"
| "latency_times (LatencyHandler pingTime # handlers) = pingTime # latency_times handlers"
| "latency_times (handler # handlers) = latency_times handlers"

text \<open>The handlers that can be on the list of PONG: latency handlers and handlers of consumers.\<close>

fun latency_or_consumer :: "MessageHandler \<Rightarrow> bool" where
  "latency_or_consumer (LatencyHandler pingTime) = True"
| "latency_or_consumer (External n thr) = True"
| "latency_or_consumer handler = False"

text \<open>
  What one step of the flush loop does to the outside world when the manager is connected
  to the transport \<open>t\<close>: the send, or the rejection nobody handles.
\<close>

definition flush_effect :: "Platform \<Rightarrow> Transport \<Rightarrow> WebSocketMessage \<Rightarrow> effect list" where
  "flush_effect pf t m =
     (case JSON_stringify pf m of
        None \<Rightarrow> [Unhandled_rejection]
      | Some d \<Rightarrow> if send_throws pf (tid t) d then [Unhandled_rejection] else [Ws_send (tid t) d])"

text \<open>The fields that neither sending nor queueing a message changes.\<close>

definition same_control :: "WebSocketManager \<Rightarrow> WebSocketManager \<Rightarrow> bool" where
  "same_control s s' =
     (config s' = config s \<and> status s' = status s \<and> connected s' = connected s \<and>
      subscriptions s' = subscriptions s \<and> heap s' = heap s \<and> next_ref s' = next_ref s \<and>
      ws s' = ws s \<and> reconnectTimer s' = reconnectTimer s \<and>
      heartbeatTimer s' = heartbeatTimer s \<and> timers s' = timers s \<and>
      next_handle s' = next_handle s \<and> messageHandlers s' = messageHandlers s \<and>
      subscriptionCallbacks s' = subscriptionCallbacks s \<and>
      reconnectAttempts s' = reconnectAttempts s \<and> lastError s' = lastError s \<and>
      connectedAt (stats s') = connectedAt (stats s))"

text \<open>
  What no handler of the manager and no send changes: the two receive counters, the
  registrations, and the message count and last-message time of every subscription
  object.
\<close>

definition same_counters :: "WebSocketManager \<Rightarrow> WebSocketManager \<Rightarrow> bool" where
  "same_counters s s' =
     (messagesReceived (stats s') = messagesReceived (stats s) \<and>
      bytesReceived (stats s') = bytesReceived (stats s) \<and>
      messageHandlers s' = messageHandlers s \<and>
      subscriptionCallbacks s' = subscriptionCallbacks s \<and>
      subscriptions s' = subscriptions s \<and>
      (\<lambda>r. map_option messageCount (heap s' r)) = (\<lambda>r. map_option messageCount (heap s r)) \<and>
      (\<lambda>r. map_option lastMessage (heap s' r)) = (\<lambda>r. map_option lastMessage (heap s r)))"

text \<open>That a manager has the configuration \<open>cfg\<close> and a queue within its capacity.\<close>

definition within_capacity :: "WebSocketConfig \<Rightarrow> WebSocketManager \<Rightarrow> bool" where
  "within_capacity cfg s =
     (config s = cfg \<and> int (length (messageQueue s)) \<le> messageQueueSize cfg)"

subsection \<open>Runs of the manager\<close>

text \<open>Several sends in a row, as a caller that awaits each one: the first rejection ends it.\<close>

fun send_all :: "Platform \<Rightarrow> WebSocketMessage list \<Rightarrow> WebSocketManager \<Rightarrow> error + WebSocketManager" where
  "send_all pf [] s = Inr s"
| "send_all pf (message # messages) s =
     (case sendMessage pf message s of Inl e \<Rightarrow> Inl e | Inr s1 \<Rightarrow> send_all pf messages s1)"

text \<open>Close events in a row, each with its clock value, random draw and close code.\<close>

fun close_all :: "(int \<times> real \<times> int) list \<Rightarrow> WebSocketManager \<Rightarrow> WebSocketManager" where
  "close_all [] s = s"
| "close_all ((now, random, code) # cs) s = close_all cs (handleClose now random code s)"

text \<open>
  Everything that can happen to a manager: the calls of its public methods by a consumer
  (who can register handlers of its own only), the events of a transport, the two timer
  callbacks, and the platform changing the \<^verbatim>\<open>readyState\<close> of the transport the manager
  holds. A call that rejects leaves the state it had reached. A timer callback runs only
  for a live timer of its kind, named by its handle; a timeout that fires is no longer
  live.
\<close>

datatype event =
  Ev_connect int "nat option"
| Ev_disconnect int
| Ev_subscribe int string string SubscriptionRequest
| Ev_unsubscribe int string string
| Ev_sendMessage WebSocketMessage
| Ev_onMessage MessageType nat "WebSocketMessage \<Rightarrow> bool"
| Ev_onSubscription string SubscriptionCallback
| Ev_open int
| Ev_message int string string
| Ev_error int
| Ev_close int real int
| Ev_heartbeat nat int string
| Ev_reconnect nat int "nat option"
| Ev_readyState ReadyState

definition set_readyState :: "ReadyState \<Rightarrow> WebSocketManager \<Rightarrow> WebSocketManager" where
  "set_readyState r s =
     (case ws s of
        Ws_object t \<Rightarrow> s\<lparr>ws := Ws_object (t\<lparr>readyState := r\<rparr>)\<rparr>
      | Ws_null \<Rightarrow> s
      | Ws_undefined \<Rightarrow> s)"

fun step :: "Platform \<Rightarrow> event \<Rightarrow> WebSocketManager \<Rightarrow> WebSocketManager option" where
  "step pf (Ev_connect now new_ws) s = Some (snd (connect now new_ws s))"
| "step pf (Ev_disconnect now) s = Some (disconnect now s)"
| "step pf (Ev_subscribe now rnd1 rnd2 req) s =
     (case subscribe pf now rnd1 rnd2 req s of Inl e \<Rightarrow> Some s | Inr (sid, s1) \<Rightarrow> Some s1)"
| "step pf (Ev_unsubscribe now rnd sid) s =
     (case unsubscribe pf now rnd sid s of Inl e \<Rightarrow> Some s | Inr s1 \<Rightarrow> Some s1)"
| "step pf (Ev_sendMessage message) s =
     (case sendMessage pf message s of Inl e \<Rightarrow> Some s | Inr s1 \<Rightarrow> Some s1)"
| "step pf (Ev_onMessage ty n thr) s = Some (onMessage ty (External n thr) s)"
| "step pf (Ev_onSubscription sid cb) s = Some (onSubscription sid cb s)"
| "step pf (Ev_open now) s = handleOpen pf now s"
| "step pf (Ev_message now rnd event_data) s = Some (handleMessage pf now rnd event_data s)"
| "step pf (Ev_error now) s = Some (handleError now s)"
| "step pf (Ev_close now random code) s = Some (handleClose now random code s)"
| "step pf (Ev_heartbeat h now rnd) s =
     (case map_of (timers s) h of
        None \<Rightarrow> Some s
      | Some tm \<Rightarrow> (case tm of
                     Interval i \<Rightarrow> Some (heartbeat_tick pf now rnd s)
                   | Timeout d \<Rightarrow> Some s))"
| "step pf (Ev_reconnect h now new_ws) s =
     (case map_of (timers s) h of
        None \<Rightarrow> Some s
      | Some tm \<Rightarrow> (case tm of
                     Timeout d \<Rightarrow> Some (reconnect_fires now new_ws (clearTimer h s))
                   | Interval i \<Rightarrow> Some s))"
| "step pf (Ev_readyState r) s = Some (set_readyState r s)"

fun run :: "Platform \<Rightarrow> event list \<Rightarrow> WebSocketManager \<Rightarrow> WebSocketManager option" where
  "run pf [] s = Some s"
| "run pf (e # es) s = (case step pf e s of None \<Rightarrow> None | Some s1 \<Rightarrow> run pf es s1)"

text \<open>
  The heartbeat pings of a run that were sent successfully, by their send times: an
  event is one when it is the callback of a live interval, the manager is connected, and
  the promise of the ping's \<^verbatim>\<open>sendMessage\<close> resolves.
\<close>

definition ping_sent :: "Platform \<Rightarrow> event \<Rightarrow> WebSocketManager \<Rightarrow> int list" where
  "ping_sent pf e s =
     (case e of
        Ev_heartbeat h now rnd \<Rightarrow>
          (case map_of (timers s) h of
             None \<Rightarrow> []
           | Some tm \<Rightarrow>
               (case tm of
                  Timeout d \<Rightarrow> []
                | Interval i \<Rightarrow>
                    if isConnected s = Inr True
                    then (case sendMessage pf (ping_message now rnd) s of
                            Inl err \<Rightarrow> []
                          | Inr s1 \<Rightarrow> [now])
                    else []))
      | _ \<Rightarrow> [])"

fun pings_sent :: "Platform \<Rightarrow> event list \<Rightarrow> WebSocketManager \<Rightarrow> int list" where
  "pings_sent pf [] s = []"
| "pings_sent pf (e # es) s =
     (case step pf e s of
        None \<Rightarrow> []
      | Some s1 \<Rightarrow> ping_sent pf e s @ pings_sent pf es s1)"

subsection \<open>A concrete configuration\<close>

definition example_config :: WebSocketConfig where
  "example_config = \<lparr>url = ''wss://stream.example'', reconnectInterval = 100,
     maxReconnectAttempts = 3, heartbeatInterval = 30000, messageQueueSize = 3\<rparr>"

definition example_message :: "string \<Rightarrow> MessageType \<Rightarrow> WebSocketMessage" where
  "example_message i ty = \<lparr>msg_id = i, msg_type = ty, msg_timestamp = 0, payload = None\<rparr>"

text \<open>A DATA message for the subscription \<^verbatim>\<open>sub_7_a\<close>.\<close>

definition example_data :: WebSocketMessage where
  "example_data = \<lparr>msg_id = ''d2'', msg_type = DATA, msg_timestamp = 0,
     payload = Some \<lparr>subscriptionId = Some ''sub_7_a'', request = None,
                     ping_timestamp = None, data = Some ''tx''\<rparr>\<rparr>"

text \<open>
  A platform that serialises a message to its identifier, never fails to send, and parses
  three texts.
\<close>

definition example_platform :: Platform where
  "example_platform =
     \<lparr>JSON_stringify = (\<lambda>m. Some (msg_id m)),
      JSON_parse = (\<lambda>d. if d = ''pong'' then ParsedMessage (example_message ''p1'' PONG)
                         else if d = ''data'' then ParsedMessage (example_message ''d1'' DATA)
                         else if d = ''sub-data'' then ParsedMessage example_data
                         else ParseThrows),
      send_throws = (\<lambda>n d. False)\<rparr>"

text \<open>
  A request with a filter whose value is a BigInt (the value of a filter is \<^verbatim>\<open>any\<close>), and
  a platform whose \<^verbatim>\<open>JSON.stringify\<close> throws on a message that carries it, as the
  JavaScript one does.
\<close>

definition bigint_request :: SubscriptionRequest where
  "bigint_request = \<lparr>channel = ''wallet'', params = ''{}'',
     filters = Some ''[{ field: amount, operator: GREATER_THAN, value: 10n }]'',
     options = None\<rparr>"

definition bigint_platform :: Platform where
  "bigint_platform =
     example_platform\<lparr>JSON_stringify :=
       (\<lambda>m. case payload m of
               None \<Rightarrow> Some (msg_id m)
             | Some p \<Rightarrow> if request p = Some bigint_request then None else Some (msg_id m))\<rparr>"

text \<open>A platform on which \<^verbatim>\<open>send\<close> of every transport throws.\<close>

definition failing_platform :: Platform where
  "failing_platform = example_platform\<lparr>send_throws := (\<lambda>n d. True)\<rparr>"

definition wallet_request :: SubscriptionRequest where
  "wallet_request = \<lparr>channel = ''wallet'', params = ''{}'', filters = None, options = None\<rparr>"

text \<open>A new manager on which \<^verbatim>\<open>connect\<close> was called at time 0: its transport 1 is not open yet.\<close>

definition example_connecting :: WebSocketManager where
  "example_connecting = the (run example_platform [Ev_connect 0 (Some 1)] (constructor example_config))"

text \<open>The same with a queue capacity of 0.\<close>

definition example_no_capacity :: WebSocketManager where
  "example_no_capacity =
     the (run example_platform [Ev_connect 0 (Some 1)]
            (constructor (example_config\<lparr>messageQueueSize := 0\<rparr>)))"

text \<open>A manager whose transport 1 is open: constructed, connected at time 0, opened at time 5.\<close>

definition example_connected :: WebSocketManager where
  "example_connected =
     the (run example_platform [Ev_connect 0 (Some 1), Ev_readyState RS_OPEN, Ev_open 5]
            (constructor example_config))"

text \<open>The connected example manager after a subscription to the channel wallet at time 7.\<close>

definition example_subscribed :: WebSocketManager where
  "example_subscribed =
     the (run example_platform [Ev_subscribe 7 ''a'' ''b'' wallet_request] example_connected)"


text \<open>
  The events that make the connected example manager, followed by two heartbeat ticks, at
  times 10 and 40; and the same with a consumer registering a PONG handler that throws
  between the two ticks.
\<close>

definition two_pings :: "event list" where
  "two_pings =
     [Ev_connect 0 (Some 1), Ev_readyState RS_OPEN, Ev_open 5,
      Ev_heartbeat 1 10 ''x'', Ev_heartbeat 1 40 ''y'']"

definition example_two_pings :: WebSocketManager where
  "example_two_pings = the (run example_platform two_pings (constructor example_config))"

definition pings_and_consumer :: "event list" where
  "pings_and_consumer =
     [Ev_connect 0 (Some 1), Ev_readyState RS_OPEN, Ev_open 5,
      Ev_heartbeat 1 10 ''x'', Ev_onMessage PONG 101 (\<lambda>m. True), Ev_heartbeat 1 40 ''y'']"

definition example_pings_and_consumer :: WebSocketManager where
  "example_pings_and_consumer =
     the (run example_platform pings_and_consumer (constructor example_config))"

text \<open>The subscribed example manager once its transport has started to close.\<close>

definition example_closing :: WebSocketManager where
  "example_closing =
     the (run example_platform [Ev_readyState RS_CLOSING] example_subscribed)"

text \<open>
  The subscribed example manager after an abnormal close at time 20, the reconnect timer
  (handle 2) firing at time 21 and the platform opening the new transport 2: the state in
  which the open event of transport 2 arrives.
\<close>

definition example_before_reopen :: WebSocketManager where
  "example_before_reopen =
     the (run example_platform
            [Ev_readyState RS_CLOSED, Ev_close 20 (1/2) 1006, Ev_reconnect 2 21 (Some 2),
             Ev_readyState RS_OPEN]
            example_subscribed)"

text \<open>
  The connected example manager after a second \<^verbatim>\<open>connect\<close> at time 6 whose transport 2
  opened at time 8: two open events with no close event between them.
\<close>

definition example_opened_twice :: WebSocketManager where
  "example_opened_twice =
     the (run example_platform [Ev_connect 6 (Some 2), Ev_readyState RS_OPEN, Ev_open 8]
            example_connected)"

text \<open>
  The connected example manager (at most 3 reconnect attempts) after three rounds of an
  abnormal close and the reconnect timer firing, with no open event: its attempts are
  used up.
\<close>

definition example_attempts_used :: WebSocketManager where
  "example_attempts_used =
     the (run example_platform
            [Ev_close 20 (1/2) 1006, Ev_reconnect 2 21 (Some 2),
             Ev_close 22 0 1006, Ev_reconnect 3 23 (Some 3),
             Ev_close 24 0 1006, Ev_reconnect 4 25 (Some 4)]
            example_connected)"



section \<open>Properties\<close>

subsection \<open>Fields that operations leave alone\<close>

lemma constructor_fields:
  "ws (constructor cfg) = Ws_undefined" "messageQueue (constructor cfg) = []"
  "config (constructor cfg) = cfg" "subscriptions (constructor cfg) = []"
  "trace (constructor cfg) = []" "stats (constructor cfg) = initialStats"
  "status (constructor cfg) = DISCONNECTED"
  "reconnectTimer (constructor cfg) = None" "heartbeatTimer (constructor cfg) = None"
  "reconnectAttempts (constructor cfg) = 0" "timers (constructor cfg) = []"
  "next_handle (constructor cfg) = 1" "heap (constructor cfg) = Map.empty"
  "next_ref (constructor cfg) = 0" "connected (constructor cfg) = False"
  by (simp_all add: constructor_def setupDefaultHandlers_def onMessage_def)

lemma queueMessage_fields:
  "ws (queueMessage m s) = ws s" "config (queueMessage m s) = config s"
  "status (queueMessage m s) = status s" "connected (queueMessage m s) = connected s"
  "subscriptions (queueMessage m s) = subscriptions s" "heap (queueMessage m s) = heap s"
  "next_ref (queueMessage m s) = next_ref s" "stats (queueMessage m s) = stats s"
  "lastError (queueMessage m s) = lastError s"
  "reconnectTimer (queueMessage m s) = reconnectTimer s"
  "heartbeatTimer (queueMessage m s) = heartbeatTimer s"
  "timers (queueMessage m s) = timers s" "next_handle (queueMessage m s) = next_handle s"
  "messageHandlers (queueMessage m s) = messageHandlers s"
  "subscriptionCallbacks (queueMessage m s) = subscriptionCallbacks s"
  "reconnectAttempts (queueMessage m s) = reconnectAttempts s"
  "trace (queueMessage m s) = trace s"
  by (simp_all add: queueMessage_def Let_def)

lemma isConnected_queueMessage: "isConnected (queueMessage m s) = isConnected s"
  by (simp add: isConnected_def queueMessage_fields)

lemma isConnected_cases:
  "isConnected s = Inl e \<longleftrightarrow> ws s = Ws_undefined \<and> e = TypeError"
  "isConnected s = Inr False \<longleftrightarrow> ws s = Ws_null \<or> (\<exists>t. ws s = Ws_object t \<and> readyState t \<noteq> RS_OPEN)"
  "isConnected s = Inr True \<longleftrightarrow> (\<exists>t. ws s = Ws_object t \<and> readyState t = RS_OPEN)"
  by (auto simp add: isConnected_def split: ws_ref.splits)

lemma flush_Nil: "messageQueue s = [] \<Longrightarrow> flushMessageQueue pf s = Some s"
  by (subst flushMessageQueue.simps) simp

lemma example_connecting_eq:
  "example_connecting =
     (constructor example_config)
       \<lparr>status := CONNECTING, ws := Ws_object \<lparr>tid = 1, readyState = RS_CONNECTING\<rparr>\<rparr>"
  by (simp add: example_connecting_def connect_def updateStatus_def constructor_def
      setupDefaultHandlers_def onMessage_def initialStats_def Let_def)

lemma example_connected_eq:
  "example_connected =
     (constructor example_config)
       \<lparr>status := CONNECTED, connected := True,
        stats := initialStats\<lparr>connectedAt := Some 5\<rparr>,
        ws := Ws_object \<lparr>tid = 1, readyState = RS_OPEN\<rparr>,
        heartbeatTimer := Some 1, timers := [(1, Interval 30000)], next_handle := 2,
        trace := [Log_connected]\<rparr>"
  by (simp add: example_connected_def handleOpen_def connect_def set_readyState_def
      updateStatus_def constructor_def setupDefaultHandlers_def onMessage_def
      initialStats_def Let_def emit_def startHeartbeat_def setTimer_def flush_Nil
      resubscribeAll_def example_config_def)

subsection \<open>The outbound queue\<close>

lemma queueMessage_queue:
  assumes "1 \<le> messageQueueSize (config s)"
    and "int (length (messageQueue s)) \<le> messageQueueSize (config s)"
  shows "messageQueue (queueMessage m s) =
     drop (Suc (length (messageQueue s)) - nat (messageQueueSize (config s))) (messageQueue s @ [m])"
proof (cases "int (length (messageQueue s)) \<ge> messageQueueSize (config s)")
  case True
  with assms have len: "length (messageQueue s) = nat (messageQueueSize (config s))" by simp
  with assms have ne: "messageQueue s \<noteq> []" by auto
  then obtain x xs where q: "messageQueue s = x # xs" by (cases "messageQueue s") auto
  have k: "Suc (length (messageQueue s)) - nat (messageQueueSize (config s)) = Suc 0"
    using len by simp
  have "messageQueue (queueMessage m s) = tl (messageQueue s) @ [m]"
    using True by (simp add: queueMessage_def Let_def)
  then show ?thesis unfolding k by (simp add: q)
next
  case False
  then have "Suc (length (messageQueue s)) - nat (messageQueueSize (config s)) = 0" by simp
  moreover have "messageQueue (queueMessage m s) = messageQueue s @ [m]"
    using False by (simp add: queueMessage_def Let_def)
  ultimately show ?thesis by simp
qed

lemma drop_last_window:
  fixes q :: "'a list"
  assumes "0 < c" "length q \<le> c"
  shows "drop (length (drop (Suc (length q) - c) (q @ [m]) @ ms) - c) (drop (Suc (length q) - c) (q @ [m]) @ ms)
       = drop (length (q @ m # ms) - c) (q @ m # ms)"
proof (cases "Suc (length q) \<le> c")
  case True
  then have "Suc (length q) - c = 0" by simp
  then show ?thesis by simp
next
  case False
  with assms have len: "length q = c" by simp
  with assms obtain x xs where q: "q = x # xs" by (cases q) auto
  have k: "Suc (length q) - c = Suc 0" using len by simp
  have c: "c = Suc (length xs)" using len q by simp
  show ?thesis unfolding k by (simp add: q c)
qed

lemma queueMessage_length:
  assumes "1 \<le> messageQueueSize (config s)"
    and "int (length (messageQueue s)) \<le> messageQueueSize (config s)"
  shows "int (length (messageQueue (queueMessage m s))) \<le> messageQueueSize (config s)"
  using assms by (auto simp add: queueMessage_def Let_def)

lemma send_all_disconnected:
  assumes "isConnected s = Inr False" "1 \<le> messageQueueSize (config s)"
    and "int (length (messageQueue s)) \<le> messageQueueSize (config s)"
  shows "\<exists>s'. send_all pf ms s = Inr s' \<and> isConnected s' = Inr False \<and> config s' = config s \<and>
           int (length (messageQueue s')) \<le> messageQueueSize (config s) \<and>
           messageQueue s' =
             drop (length (messageQueue s @ ms) - nat (messageQueueSize (config s))) (messageQueue s @ ms)"
  using assms
proof (induction ms arbitrary: s)
  case Nil
  then show ?case by simp
next
  case (Cons m ms)
  let ?s1 = "queueMessage m s"
  have step: "sendMessage pf m s = Inr ?s1" using Cons.prems(1) by (simp add: sendMessage_def)
  have c1: "isConnected ?s1 = Inr False" using Cons.prems(1) by (simp add: isConnected_queueMessage)
  have c2: "1 \<le> messageQueueSize (config ?s1)" using Cons.prems(2) by (simp add: queueMessage_fields)
  have c3: "int (length (messageQueue ?s1)) \<le> messageQueueSize (config ?s1)"
    using queueMessage_length[OF Cons.prems(2,3)] by (simp add: queueMessage_fields)
  have cfg: "config ?s1 = config s" by (simp add: queueMessage_fields)
  from Cons.IH[OF c1 c2 c3] obtain s' where s': "send_all pf ms ?s1 = Inr s'" "isConnected s' = Inr False"
    "config s' = config ?s1" "int (length (messageQueue s')) \<le> messageQueueSize (config ?s1)"
    "messageQueue s' = drop (length (messageQueue ?s1 @ ms) - nat (messageQueueSize (config ?s1))) (messageQueue ?s1 @ ms)"
    by blast
  let ?c = "nat (messageQueueSize (config s))"
  let ?q = "messageQueue s"
  have q1: "messageQueue ?s1 = drop (Suc (length ?q) - ?c) (?q @ [m])"
    by (rule queueMessage_queue[OF Cons.prems(2,3)])
  have cpos: "0 < ?c" "length ?q \<le> ?c" using Cons.prems(2,3) by auto
  have win: "drop (length (messageQueue ?s1 @ ms) - ?c) (messageQueue ?s1 @ ms)
      = drop (length (?q @ m # ms) - ?c) (?q @ m # ms)"
    unfolding q1 by (rule drop_last_window[OF cpos])
  have r1: "send_all pf (m # ms) s = Inr s'" using step s'(1) by simp
  have r2: "config s' = config s" using s'(3) cfg by simp
  have r3: "int (length (messageQueue s')) \<le> messageQueueSize (config s)"
    using s'(4) cfg by simp
  have r4: "messageQueue s' = drop (length (?q @ m # ms) - ?c) (?q @ m # ms)"
    using s'(5) win cfg by simp
  from r1 s'(2) r2 r3 r4 show ?case by blast
qed


subsection \<open>The queue stays within its capacity\<close>

lemma wc_frame:
  "config s' = config s \<Longrightarrow> messageQueue s' = messageQueue s \<Longrightarrow>
   within_capacity cfg s \<Longrightarrow> within_capacity cfg s'"
  by (simp add: within_capacity_def)

lemma wc_queueMessage:
  "1 \<le> messageQueueSize cfg \<Longrightarrow> within_capacity cfg s \<Longrightarrow> within_capacity cfg (queueMessage m s)"
  using queueMessage_length[of s m] by (auto simp add: within_capacity_def queueMessage_fields)

lemma wc_sendMessage:
  assumes "1 \<le> messageQueueSize cfg" "within_capacity cfg s" "sendMessage pf m s = Inr s1"
  shows "within_capacity cfg s1"
  using assms wc_queueMessage[OF assms(1,2), of m]
  by (auto simp add: sendMessage_def emit_def within_capacity_def
      split: sum.splits if_splits ws_ref.splits option.splits)

lemma wc_fire_and_forget:
  assumes "1 \<le> messageQueueSize cfg" "within_capacity cfg s"
  shows "within_capacity cfg (fire_and_forget (sendMessage pf m s) s)"
proof (cases "sendMessage pf m s")
  case (Inl e)
  with assms(2) show ?thesis by (simp add: fire_and_forget_def emit_def within_capacity_def)
next
  case (Inr s1)
  with wc_sendMessage[OF assms this] show ?thesis by (simp add: fire_and_forget_def)
qed

lemma wc_sendPing:
  assumes "1 \<le> messageQueueSize cfg" "within_capacity cfg s"
  shows "within_capacity cfg (sendPing pf now rnd s)"
proof (cases "sendMessage pf (ping_message now rnd) s")
  case (Inl e)
  with assms(2) show ?thesis by (simp add: sendPing_def emit_def within_capacity_def)
next
  case (Inr s1)
  with wc_sendMessage[OF assms this] show ?thesis
    by (simp add: sendPing_def onMessage_def within_capacity_def)
qed

lemma update_object_fields:
  "config (update_object r f s) = config s" "messageQueue (update_object r f s) = messageQueue s"
  "messageHandlers (update_object r f s) = messageHandlers s"
  "ws (update_object r f s) = ws s" "status (update_object r f s) = status s"
  "trace (update_object r f s) = trace s" "stats (update_object r f s) = stats s"
  "reconnectTimer (update_object r f s) = reconnectTimer s"
  "heartbeatTimer (update_object r f s) = heartbeatTimer s"
  "timers (update_object r f s) = timers s"
  "next_handle (update_object r f s) = next_handle s"
  "reconnectAttempts (update_object r f s) = reconnectAttempts s"
  "subscriptions (update_object r f s) = subscriptions s"
  "connected (update_object r f s) = connected s" "lastError (update_object r f s) = lastError s"
  "subscriptionCallbacks (update_object r f s) = subscriptionCallbacks s"
  "next_ref (update_object r f s) = next_ref s"
  by (simp_all add: update_object_def)

lemma wc_update_object: "within_capacity cfg (update_object r f s) = within_capacity cfg s"
  by (simp add: update_object_def within_capacity_def)

lemma wc_emit: "within_capacity cfg (emit e s) = within_capacity cfg s"
  by (simp add: emit_def within_capacity_def)

lemma wc_invoke:
  assumes "1 \<le> messageQueueSize cfg" "within_capacity cfg s"
  shows "within_capacity cfg (snd (invoke pf now rnd h m s))"
proof -
  have e: "within_capacity cfg (emit (Handler_invoked (name_of h) m) s)"
    using assms(2) by (simp add: wc_emit)
  show ?thesis
  proof (cases h)
    case SendPongHandler
    then show ?thesis
      using wc_fire_and_forget[OF assms(1) e] by (simp add: invoke_def sendPong_def Let_def)
  next
    case ErrorMessageHandler
    then show ?thesis using e
      by (simp add: invoke_def handleErrorMessage_def Let_def update_object_fields
          within_capacity_def emit_def split: option.splits)
  next
    case AcknowledgmentHandler
    then show ?thesis using e by (simp add: invoke_def handleAcknowledgment_def wc_emit)
  next
    case (LatencyHandler t)
    then show ?thesis using e by (simp add: invoke_def within_capacity_def)
  next
    case (External n thr)
    then show ?thesis using e by (simp add: invoke_def)
  qed
qed

lemma wc_forEach:
  assumes "1 \<le> messageQueueSize cfg"
  shows "within_capacity cfg s \<Longrightarrow> within_capacity cfg (snd (forEach_handlers pf now rnd hs m s))"
proof (induction hs arbitrary: s)
  case Nil
  then show ?case by simp
next
  case (Cons h hs)
  obtain r0 s0 where i: "invoke pf now rnd h m s = (r0, s0)" by (cases "invoke pf now rnd h m s")
  from wc_invoke[OF assms Cons.prems, of pf now rnd h m] i have a: "within_capacity cfg s0" by simp
  show ?case
  proof (cases r0)
    case None
    with i Cons.IH[OF a] show ?thesis by simp
  next
    case (Some e)
    with i a show ?thesis by simp
  qed
qed

lemma wc_count_message:
  "within_capacity cfg (count_message now len m s) = within_capacity cfg s"
  by (simp add: count_message_def Let_def update_object_fields within_capacity_def split: option.splits)

lemma wc_dispatch:
  assumes "1 \<le> messageQueueSize cfg" "within_capacity cfg s"
  shows "within_capacity cfg (snd (dispatch pf now rnd len m s))"
proof -
  let ?c = "count_message now len m s"
  let ?hs = "case messageHandlers ?c (msg_type m) of None \<Rightarrow> [] | Some hs \<Rightarrow> hs"
  obtain r s3 where f: "forEach_handlers pf now rnd ?hs m ?c = (r, s3)"
    by (cases "forEach_handlers pf now rnd ?hs m ?c")
  have "within_capacity cfg ?c" using assms(2) by (simp add: wc_count_message)
  from wc_forEach[OF assms(1) this, of pf now rnd ?hs m] f
  have a: "within_capacity cfg s3" by simp
  have cb: "within_capacity cfg (snd (invoke_callback cb d s3))" for cb d
    using a by (cases cb) (simp add: invoke_callback_def wc_emit Let_def)
  show ?thesis
    using f a cb
    by (cases r) (auto simp add: dispatch_def Let_def split: option.splits)
qed

lemma wc_handleMessage:
  assumes "1 \<le> messageQueueSize cfg" "within_capacity cfg s"
  shows "within_capacity cfg (handleMessage pf now rnd d s)"
proof (cases "JSON_parse pf d")
  case ParseThrows
  then show ?thesis using assms(2) by (simp add: handleMessage_def wc_emit)
next
  case ParsedNull
  then show ?thesis using assms(2) by (simp add: handleMessage_def emit_def within_capacity_def)
next
  case (ParsedMessage m)
  obtain r s1 where di: "dispatch pf now rnd (length d) m s = (r, s1)"
    by (cases "dispatch pf now rnd (length d) m s")
  from wc_dispatch[OF assms, of pf now rnd "length d" m] di
  have "within_capacity cfg s1" by simp
  with ParsedMessage di show ?thesis
    by (cases r) (simp_all add: handleMessage_def wc_emit)
qed

lemma wc_flush:
  assumes "flushMessageQueue pf s = Some s'" "1 \<le> messageQueueSize cfg" "within_capacity cfg s"
  shows "within_capacity cfg s'"
  using assms
proof (induction rule: flushMessageQueue.raw_induct[rotated 1, consumes 1, case_names step])
  case (step flush pf s s')
  show ?case
  proof (cases "messageQueue s")
    case Nil
    with step(2,4) show ?thesis by simp
  next
    case (Cons m rest)
    let ?s1 = "s\<lparr>messageQueue := rest\<rparr>"
    have f: "flush pf (fire_and_forget (sendMessage pf m ?s1) ?s1) = Some s'"
      using step(2) Cons by (simp add: Let_def)
    have "within_capacity cfg ?s1" using step(4) Cons by (simp add: within_capacity_def)
    from step(1)[OF f step(3) wc_fire_and_forget[OF step(3) this]] show ?thesis .
  qed
qed

lemma resubscribe_fold:
  "fold (\<lambda>(sid, subscription) acc.
             case heap acc subscription of
               None \<Rightarrow> acc
             | Some sub \<Rightarrow>
                 if active sub then emit (Log_resubscribing (sub_channel sub)) acc else acc) xs s
   = s\<lparr>trace := trace s @
         map (\<lambda>(sid, sub). Log_resubscribing (sub_channel sub))
           (filter (\<lambda>(sid, sub). active sub)
              (List.map_filter (\<lambda>(sid, r). map_option (Pair sid) (heap s r)) xs))\<rparr>"
proof (induction xs arbitrary: s)
  case Nil
  then show ?case by (simp add: List.map_filter_simps)
next
  case (Cons x xs)
  obtain sid r where x: "x = (sid, r)" by (cases x)
  show ?case
  proof (cases "heap s r")
    case None
    then show ?thesis using Cons.IH[of s] by (simp add: x)
  next
    case (Some sub)
    then show ?thesis using Cons.IH[of s] Cons.IH[of "emit (Log_resubscribing (sub_channel sub)) s"]
      by (simp add: x emit_def)
  qed
qed

lemma resubscribeAll_eq:
  "resubscribeAll s =
     s\<lparr>trace := trace s @ map (\<lambda>(sid, sub). Log_resubscribing (sub_channel sub))
                           (filter (\<lambda>(sid, sub). active sub) (registry s))\<rparr>"
  by (simp add: resubscribeAll_def registry_def resubscribe_fold)

lemma clearTimer_fields:
  "config (clearTimer h s) = config s" "messageQueue (clearTimer h s) = messageQueue s"
  "messageHandlers (clearTimer h s) = messageHandlers s"
  "ws (clearTimer h s) = ws s" "status (clearTimer h s) = status s"
  "trace (clearTimer h s) = trace s" "stats (clearTimer h s) = stats s"
  "reconnectTimer (clearTimer h s) = reconnectTimer s"
  "heartbeatTimer (clearTimer h s) = heartbeatTimer s"
  "next_handle (clearTimer h s) = next_handle s"
  "reconnectAttempts (clearTimer h s) = reconnectAttempts s"
  "subscriptions (clearTimer h s) = subscriptions s" "heap (clearTimer h s) = heap s"
  "connected (clearTimer h s) = connected s" "lastError (clearTimer h s) = lastError s"
  "subscriptionCallbacks (clearTimer h s) = subscriptionCallbacks s"
  "next_ref (clearTimer h s) = next_ref s"
  by (simp_all add: clearTimer_def)

lemma clearTimers_fields:
  "config (clearTimers s) = config s" "messageQueue (clearTimers s) = messageQueue s"
  "messageHandlers (clearTimers s) = messageHandlers s"
  "ws (clearTimers s) = ws s" "status (clearTimers s) = status s"
  "trace (clearTimers s) = trace s" "stats (clearTimers s) = stats s"
  "reconnectTimer (clearTimers s) = None" "heartbeatTimer (clearTimers s) = None"
  "next_handle (clearTimers s) = next_handle s"
  "reconnectAttempts (clearTimers s) = reconnectAttempts s"
  "subscriptions (clearTimers s) = subscriptions s" "heap (clearTimers s) = heap s"
  "connected (clearTimers s) = connected s" "lastError (clearTimers s) = lastError s"
  "subscriptionCallbacks (clearTimers s) = subscriptionCallbacks s"
  "next_ref (clearTimers s) = next_ref s"
  by (simp_all add: clearTimers_def clearTimer_def Let_def split: option.splits)

lemma clearTimers_timers: "timers (clearTimers s) = unheld_timers s"
  by (auto simp add: clearTimers_def clearTimer_def unheld_timers_def Let_def
      split: option.splits intro!: filter_cong)

lemma updateStatus_fields:
  "config (updateStatus now st s) = config s" "messageQueue (updateStatus now st s) = messageQueue s"
  "messageHandlers (updateStatus now st s) = messageHandlers s"
  "ws (updateStatus now st s) = ws s" "status (updateStatus now st s) = st"
  "trace (updateStatus now st s) = trace s"
  "reconnectTimer (updateStatus now st s) = reconnectTimer s"
  "heartbeatTimer (updateStatus now st s) = heartbeatTimer s"
  "timers (updateStatus now st s) = timers s"
  "next_handle (updateStatus now st s) = next_handle s"
  "reconnectAttempts (updateStatus now st s) = reconnectAttempts s"
  "subscriptions (updateStatus now st s) = subscriptions s" "heap (updateStatus now st s) = heap s"
  "connected (updateStatus now st s) = connected s" "lastError (updateStatus now st s) = lastError s"
  "subscriptionCallbacks (updateStatus now st s) = subscriptionCallbacks s"
  "next_ref (updateStatus now st s) = next_ref s"
  "connectedAt (stats (updateStatus now st s)) = connectedAt (stats s)"
  "disconnectedAt (stats (updateStatus now st s)) = disconnectedAt (stats s)"
  "reconnectCount (stats (updateStatus now st s)) = reconnectCount (stats s)"
  "messagesSent (stats (updateStatus now st s)) = messagesSent (stats s)"
  "messagesReceived (stats (updateStatus now st s)) = messagesReceived (stats s)"
  "bytesReceived (stats (updateStatus now st s)) = bytesReceived (stats s)"
  "bytesSent (stats (updateStatus now st s)) = bytesSent (stats s)"
  "latency (stats (updateStatus now st s)) = latency (stats s)"
  by (simp_all add: updateStatus_def Let_def split: option.splits)

lemma wc_handleOpen:
  assumes "handleOpen pf now s = Some s'" "1 \<le> messageQueueSize cfg" "within_capacity cfg s"
  shows "within_capacity cfg s'"
proof -
  define s5 where "s5 = startHeartbeat
        (let s1 = updateStatus now CONNECTED (emit Log_connected s);
             s2 = s1\<lparr>connected := True\<rparr>;
             s3 = s2\<lparr>stats := (stats s2)\<lparr>connectedAt := Some now\<rparr>\<rparr>
         in s3\<lparr>reconnectAttempts := 0\<rparr>)"
  from assms(1) obtain s6 where f: "flushMessageQueue pf s5 = Some s6" and s': "s' = resubscribeAll s6"
    unfolding s5_def by (auto simp add: handleOpen_def Let_def split: option.splits)
  have "within_capacity cfg s5" using assms(3)
    by (simp add: s5_def within_capacity_def startHeartbeat_def setTimer_def updateStatus_fields
        emit_def Let_def)
  from wc_flush[OF f assms(2) this] show ?thesis
    by (simp add: s' resubscribeAll_eq within_capacity_def)
qed

lemma wc_step:
  assumes "step pf e s = Some s'" "1 \<le> messageQueueSize cfg" "within_capacity cfg s"
  shows "within_capacity cfg s'"
proof (cases e)
  case (Ev_connect now new_ws)
  with assms show ?thesis
    by (auto simp add: connect_def Let_def updateStatus_fields within_capacity_def split: option.splits)
next
  case (Ev_disconnect now)
  with assms show ?thesis
    by (auto simp add: disconnect_def clearTimers_fields updateStatus_fields emit_def Let_def
        within_capacity_def split: ws_ref.splits)
next
  case (Ev_subscribe now r1 r2 req)
  with assms show ?thesis
    using wc_sendMessage[OF assms(2,3)]
    by (auto simp add: subscribe_def Let_def register_subscription_def within_capacity_def
        split: sum.splits)
next
  case (Ev_unsubscribe now rnd sid)
  with assms show ?thesis
    using wc_sendMessage[OF assms(2,3)]
    by (auto simp add: unsubscribe_def Let_def deleteSubscription_def markInactive_def
        update_object_def within_capacity_def split: sum.splits option.splits)
next
  case (Ev_sendMessage m)
  with assms show ?thesis
    using wc_sendMessage[OF assms(2,3)] by (auto split: sum.splits)
next
  case (Ev_onMessage ty' n thr)
  with assms show ?thesis by (auto simp add: onMessage_def within_capacity_def Let_def)
next
  case (Ev_onSubscription sid cb)
  with assms show ?thesis by (auto simp add: onSubscription_def within_capacity_def)
next
  case (Ev_open now)
  with assms show ?thesis using wc_handleOpen by simp
next
  case (Ev_message now rnd d)
  with assms show ?thesis using wc_handleMessage by auto
next
  case (Ev_error now)
  with assms show ?thesis
    by (auto simp add: handleError_def updateStatus_fields emit_def within_capacity_def)
next
  case (Ev_close now random code)
  with assms show ?thesis
    by (auto simp add: handleClose_def scheduleReconnect_def setTimer_def clearTimers_fields
        updateStatus_fields emit_def Let_def within_capacity_def)
next
  case (Ev_heartbeat h now rnd)
  with assms show ?thesis
    using wc_sendPing[OF assms(2,3)]
    by (auto simp add: heartbeat_tick_def wc_emit split: sum.splits option.splits timer.splits)
next
  case (Ev_reconnect h now new_ws)
  with assms show ?thesis
    by (auto simp add: reconnect_fires_def connect_def Let_def updateStatus_fields emit_def
        clearTimer_fields within_capacity_def split: option.splits timer.splits)
next
  case (Ev_readyState r)
  with assms show ?thesis
    by (auto simp add: set_readyState_def within_capacity_def split: ws_ref.splits)
qed

lemma wc_run:
  "run pf es s = Some s' \<Longrightarrow> 1 \<le> messageQueueSize cfg \<Longrightarrow> within_capacity cfg s \<Longrightarrow>
   within_capacity cfg s'"
proof (induction es arbitrary: s)
  case Nil
  then show ?case by simp
next
  case (Cons e es)
  from Cons.prems(1) obtain s1 where s1: "step pf e s = Some s1" and r: "run pf es s1 = Some s'"
    by (auto split: option.splits)
  from Cons.IH[OF r Cons.prems(2) wc_step[OF s1 Cons.prems(2,3)]] show ?case .
qed

lemma wc_constructor: "0 \<le> messageQueueSize cfg \<Longrightarrow> within_capacity cfg (constructor cfg)"
  by (simp add: within_capacity_def constructor_fields)

text \<open>
  Claim C4, amended. A manager reached from a new one by any events, with a capacity
  \<open>messageQueueSize\<close> of at least 1 and a connection that is not open, is sent capacity + k
  messages. Every send is accepted; after every prefix of the sends the queue holds at
  most capacity messages; at the end it holds exactly capacity messages, the last
  capacity ones in the order they were sent.
\<close>

theorem queue_bounded_keeps_newest:
  assumes "run pf es (constructor cfg) = Some s" and "isConnected s = Inr False"
    and "1 \<le> messageQueueSize cfg"
    and "length ms = nat (messageQueueSize cfg) + k"
  shows "(\<exists>s'. send_all pf ms s = Inr s' \<and> messageQueue s' = drop k ms \<and>
               int (length (messageQueue s')) = messageQueueSize cfg) \<and>
         (\<forall>n. \<exists>sn. send_all pf (take n ms) s = Inr sn \<and>
               int (length (messageQueue sn)) \<le> messageQueueSize cfg)"
proof
  have "within_capacity cfg (constructor cfg)" using assms(3) by (simp add: wc_constructor)
  from wc_run[OF assms(1,3) this] have cfg: "config s = cfg"
    and le: "int (length (messageQueue s)) \<le> messageQueueSize (config s)"
    by (simp_all add: within_capacity_def)
  have c1: "1 \<le> messageQueueSize (config s)" using assms(3) cfg by simp
  from send_all_disconnected[OF assms(2) c1 le, of pf ms]
  obtain s' where s': "send_all pf ms s = Inr s'"
    "messageQueue s' = drop (length (messageQueue s @ ms) - nat (messageQueueSize (config s))) (messageQueue s @ ms)"
    by blast
  have q: "messageQueue s' = drop k ms" using s'(2) assms(4) cfg by simp
  have "length (drop k ms) = nat (messageQueueSize cfg)" using assms(4) by simp
  then have "int (length (messageQueue s')) = messageQueueSize cfg"
    using q assms(3) by simp
  with s'(1) q
  show "\<exists>s'. send_all pf ms s = Inr s' \<and> messageQueue s' = drop k ms \<and>
               int (length (messageQueue s')) = messageQueueSize cfg" by blast
  show "\<forall>n. \<exists>sn. send_all pf (take n ms) s = Inr sn \<and>
               int (length (messageQueue sn)) \<le> messageQueueSize cfg"
  proof
    fix n
    from send_all_disconnected[OF assms(2) c1 le, of pf "take n ms"] cfg
    show "\<exists>sn. send_all pf (take n ms) s = Inr sn \<and>
               int (length (messageQueue sn)) \<le> messageQueueSize cfg" by auto
  qed
qed

text \<open>
  Capacity 3 and five messages sent after \<^verbatim>\<open>connect\<close> was called and before the transport
  opened: the queue ends as messages 3, 4, 5.
\<close>

theorem queue_bounded_keeps_newest_witness:
  "run example_platform [Ev_connect 0 (Some 1)] (constructor example_config) = Some example_connecting \<and>
   isConnected example_connecting = Inr False \<and>
   1 \<le> messageQueueSize example_config \<and>
   (\<exists>s'. send_all example_platform
            [example_message ''1'' DATA, example_message ''2'' DATA, example_message ''3'' DATA,
             example_message ''4'' DATA, example_message ''5'' DATA]
            example_connecting = Inr s' \<and>
         messageQueue s' =
            [example_message ''3'' DATA, example_message ''4'' DATA, example_message ''5'' DATA])"
proof -
  let ?ms = "[example_message ''1'' DATA, example_message ''2'' DATA, example_message ''3'' DATA,
             example_message ''4'' DATA, example_message ''5'' DATA]"
  have h1: "run example_platform [Ev_connect 0 (Some 1)] (constructor example_config) = Some example_connecting"
    by (simp add: example_connecting_def)
  have h2: "isConnected example_connecting = Inr False"
    by (simp add: isConnected_def example_connecting_eq)
  have h3: "1 \<le> messageQueueSize example_config" by (simp add: example_config_def)
  have h4: "length ?ms = nat (messageQueueSize example_config) + 2"
    by (simp add: example_config_def)
  from queue_bounded_keeps_newest[OF h1 h2 h3 h4]
  obtain s' where "send_all example_platform ?ms example_connecting = Inr s'" "messageQueue s' = drop 2 ?ms"
    by blast
  then have "send_all example_platform ?ms example_connecting = Inr s' \<and>
     messageQueue s' = [example_message ''3'' DATA, example_message ''4'' DATA, example_message ''5'' DATA]"
    by simp
  with h1 h2 h3 show ?thesis by blast
qed

text \<open>
  Claim C4 as it is stated, for every capacity, fails at capacity 0: one message sent
  after \<^verbatim>\<open>connect\<close> was called and before the transport opened stays in the queue, whose
  length 1 exceeds the capacity. \<^verbatim>\<open>queueMessage\<close> removes at most one message and always
  appends. And on a new manager, whose connection is not open either, a message that is
  sent is not queued: the send is rejected.
\<close>

theorem queue_capacity_zero_counterexample:
  "isConnected example_no_capacity = Inr False \<and>
   messageQueue example_no_capacity = [] \<and>
   messageQueueSize (config example_no_capacity) = 0 \<and>
   send_all example_platform [example_message ''1'' DATA] example_no_capacity
     = Inr (queueMessage (example_message ''1'' DATA) example_no_capacity) \<and>
   messageQueue (queueMessage (example_message ''1'' DATA) example_no_capacity)
     = [example_message ''1'' DATA] \<and>
   int (length (messageQueue (queueMessage (example_message ''1'' DATA) example_no_capacity)))
     > messageQueueSize (config example_no_capacity) \<and>
   send_all example_platform [example_message ''1'' DATA] (constructor example_config)
     = Inl TypeError \<and>
   step example_platform (Ev_sendMessage (example_message ''1'' DATA)) (constructor example_config)
     = Some (constructor example_config) \<and>
   messageQueue (constructor example_config) = []"
  by (simp add: example_no_capacity_def isConnected_def connect_def updateStatus_fields
      constructor_fields sendMessage_def queueMessage_def Let_def)

subsection \<open>Reconnection backoff\<close>

lemma overflow_bound_large: "31000 < overflow_bound"
proof -
  have "(2::real) ^ 1024 = 2 ^ 970 * 2 ^ 54" by (simp add: power_add[symmetric])
  then have "overflow_bound = 2 ^ 970 * (2 ^ 54 - 1)" by (simp add: overflow_bound_def algebra_simps)
  moreover have "(1::real) \<le> 2 ^ 54 - 1" by simp
  ultimately have "(2::real) ^ 970 \<le> overflow_bound"
    by (metis mult.right_neutral mult_left_mono zero_le_numeral zero_le_power)
  moreover have "(2::real) ^ 15 \<le> 2 ^ 970" by (rule power_increasing) simp_all
  ultimately show ?thesis by simp
qed

lemma js_number_small: "\<bar>x\<bar> \<le> 31000 \<Longrightarrow> js_number x = Num x"
  using overflow_bound_large by (auto simp add: js_number_def)






lemmas life_cycle_defs =
  connect_def disconnect_def handleClose_def handleError_def scheduleReconnect_def
  clearTimers_def clearTimer_def updateStatus_def shouldReconnect_def setTimer_def
  reconnect_fires_def emit_def Let_def constructor_def setupDefaultHandlers_def onMessage_def
  initialStats_def set_readyState_def handleOpen_def startHeartbeat_def resubscribeAll_def



subsection \<open>Teardown\<close>

lemma unheld_timers_clearTimers: "unheld_timers (clearTimers s) = unheld_timers s"
proof -
  have "unheld_timers (clearTimers s) = timers (clearTimers s)"
    by (simp add: unheld_timers_def clearTimers_fields)
  then show ?thesis by (simp add: clearTimers_timers)
qed

lemma unheld_timers_none:
  "reconnectTimer s = None \<Longrightarrow> heartbeatTimer s = None \<Longrightarrow> unheld_timers s = timers s"
  by (simp add: unheld_timers_def)

lemma example_opened_twice_fields:
  "timers example_opened_twice = [(1, Interval 30000), (2, Interval 30000)]"
  "heartbeatTimer example_opened_twice = Some 2"
  "reconnectTimer example_opened_twice = None"
  "ws example_opened_twice = Ws_object \<lparr>tid = 2, readyState = RS_OPEN\<rparr>"
  "status example_opened_twice = CONNECTED"
  "config example_opened_twice = example_config"
  "reconnectAttempts example_opened_twice = 0"
  "trace example_opened_twice = [Log_connected, Log_connected]"
  "next_handle example_opened_twice = 3"
  by (simp_all add: example_opened_twice_def example_connected_eq life_cycle_defs flush_Nil
      example_config_def)

text \<open>
  Claim C7 on the code. From any state, \<^verbatim>\<open>disconnect\<close> empties the two timer fields and
  clears the timers whose handles they held, and no other: the live timers afterwards are
  those that no field held. It closes the transport the manager holds, if it holds one,
  with code 1000 (one \<open>Ws_close\<close> in the trace) and drops it, and sets the status to
  DISCONNECTED. A second call changes nothing but the moment at which the uptime is
  computed: it closes nothing and leaves the same timers live.
\<close>

theorem disconnect_clears_held_timers:
  "reconnectTimer (disconnect now s) = None \<and>
   heartbeatTimer (disconnect now s) = None \<and>
   timers (disconnect now s) = unheld_timers s \<and>
   ws (disconnect now s) = (case ws s of Ws_undefined \<Rightarrow> Ws_undefined | Ws_null \<Rightarrow> Ws_null
                            | Ws_object t \<Rightarrow> Ws_null) \<and>
   status (disconnect now s) = DISCONNECTED \<and>
   trace (disconnect now s) =
     trace s @ (case ws s of Ws_undefined \<Rightarrow> [] | Ws_null \<Rightarrow> [] | Ws_object t \<Rightarrow> [Ws_close (tid t) 1000]) \<and>
   disconnect now' (disconnect now s) = updateStatus now' DISCONNECTED (disconnect now s) \<and>
   timers (disconnect now' (disconnect now s)) = unheld_timers s \<and>
   trace (disconnect now' (disconnect now s)) = trace (disconnect now s) \<and>
   disconnect now (disconnect now s) = disconnect now s"
proof -
  have f: "reconnectTimer (disconnect now s) = None" "heartbeatTimer (disconnect now s) = None"
    "timers (disconnect now s) = unheld_timers s"
    "ws (disconnect now s) = (case ws s of Ws_undefined \<Rightarrow> Ws_undefined | Ws_null \<Rightarrow> Ws_null
                            | Ws_object t \<Rightarrow> Ws_null)"
    "status (disconnect now s) = DISCONNECTED"
    "trace (disconnect now s) =
     trace s @ (case ws s of Ws_undefined \<Rightarrow> [] | Ws_null \<Rightarrow> [] | Ws_object t \<Rightarrow> [Ws_close (tid t) 1000])"
    by (simp_all add: disconnect_def clearTimers_fields clearTimers_timers updateStatus_fields
        emit_def Let_def split: ws_ref.splits)
  have c: "clearTimers (disconnect now s) = disconnect now s"
    using f(1,2) by (simp add: clearTimers_def)
  have w: "ws (disconnect now s) \<noteq> Ws_object t" for t
    using f(4) by (simp split: ws_ref.splits)
  have twice: "disconnect now' (disconnect now s) = updateStatus now' DISCONNECTED (disconnect now s)"
    using w by (simp add: disconnect_def[of now' "disconnect now s"] c Let_def split: ws_ref.splits)
  have same: "updateStatus now DISCONNECTED (disconnect now s) = disconnect now s"
    by (simp add: disconnect_def updateStatus_def Let_def split: option.splits)
  have twice_now: "disconnect now (disconnect now s) = disconnect now s"
    using w same by (simp add: disconnect_def[of now "disconnect now s"] c Let_def split: ws_ref.splits)
  have t2: "timers (disconnect now' (disconnect now s)) = unheld_timers s"
    "trace (disconnect now' (disconnect now s)) = trace (disconnect now s)"
    using f(3) by (simp_all add: twice updateStatus_fields)
  from f twice t2 twice_now show ?thesis by simp
qed


text \<open>
  Two open events with no close event between them, then \<^verbatim>\<open>disconnect\<close> at time 9 and again
  at time 12: the heartbeat interval of the first open event (handle 1) is still live
  after both calls.
\<close>

theorem disconnect_clears_held_timers_witness:
  "timers example_opened_twice = [(1, Interval 30000), (2, Interval 30000)] \<and>
   heartbeatTimer example_opened_twice = Some 2 \<and>
   reconnectTimer (disconnect 9 example_opened_twice) = None \<and>
   heartbeatTimer (disconnect 9 example_opened_twice) = None \<and>
   status (disconnect 9 example_opened_twice) = DISCONNECTED \<and>
   ws (disconnect 9 example_opened_twice) = Ws_null \<and>
   trace (disconnect 9 example_opened_twice) = [Log_connected, Log_connected, Ws_close 2 1000] \<and>
   timers (disconnect 9 example_opened_twice) = [(1, Interval 30000)] \<and>
   timers (disconnect 12 (disconnect 9 example_opened_twice)) = [(1, Interval 30000)]"
  using disconnect_clears_held_timers [of 9 example_opened_twice 12]
  by (simp add: example_opened_twice_fields unheld_timers_def updateStatus_fields)

subsection \<open>Close events\<close>

lemma calculateReconnectDelay_cong:
  "config s' = config s \<Longrightarrow> reconnectAttempts s' = reconnectAttempts s \<Longrightarrow>
   calculateReconnectDelay random s' = calculateReconnectDelay random s"
  by (simp add: calculateReconnectDelay_def)

lemma handleClose_result:
  "connected (handleClose now random code s) = False"
  "disconnectedAt (stats (handleClose now random code s)) = Some now"
  "reconnectAttempts (handleClose now random code s) = reconnectAttempts s"
  "config (handleClose now random code s) = config s"
  "heartbeatTimer (handleClose now random code s) = None"
  "code \<noteq> 1000 \<and> int (reconnectAttempts s) < maxReconnectAttempts (config s) \<Longrightarrow>
     status (handleClose now random code s) = RECONNECTING \<and>
     reconnectTimer (handleClose now random code s) = Some (next_handle s) \<and>
     timers (handleClose now random code s) =
       unheld_timers s @ [(next_handle s, Timeout (calculateReconnectDelay random s))] \<and>
     trace (handleClose now random code s) =
       trace s @ [Log_closed code,
                  Log_reconnecting (calculateReconnectDelay random s) (reconnectAttempts s + 1)]"
  "code = 1000 \<or> maxReconnectAttempts (config s) \<le> int (reconnectAttempts s) \<Longrightarrow>
     status (handleClose now random code s) = DISCONNECTED \<and>
     reconnectTimer (handleClose now random code s) = None \<and>
     timers (handleClose now random code s) = unheld_timers s \<and>
     trace (handleClose now random code s) = trace s @ [Log_closed code]"
proof -
  define s4 where "s4 = clearTimers
     ((updateStatus now DISCONNECTED (emit (Log_closed code) s))
        \<lparr>connected := False,
         stats := (stats (updateStatus now DISCONNECTED (emit (Log_closed code) s)))
                    \<lparr>disconnectedAt := Some now\<rparr>\<rparr>)"
  have hc: "handleClose now random code s =
      (if code \<noteq> 1000 \<and> shouldReconnect s4 then scheduleReconnect now random s4 else s4)"
    unfolding s4_def by (simp add: handleClose_def Let_def)
  have f4: "config s4 = config s" "reconnectAttempts s4 = reconnectAttempts s"
    "status s4 = DISCONNECTED" "reconnectTimer s4 = None" "heartbeatTimer s4 = None"
    "connected s4 = False" "disconnectedAt (stats s4) = Some now"
    "trace s4 = trace s @ [Log_closed code]" "next_handle s4 = next_handle s"
    unfolding s4_def by (simp_all add: clearTimers_fields updateStatus_fields emit_def)
  have t4: "timers s4 = unheld_timers s"
    unfolding s4_def
    by (simp add: clearTimers_timers unheld_timers_def updateStatus_fields emit_def)
  have sh: "shouldReconnect s4 \<longleftrightarrow> int (reconnectAttempts s) < maxReconnectAttempts (config s)"
    by (simp add: shouldReconnect_def f4)
  have d: "calculateReconnectDelay random (updateStatus now RECONNECTING s4) =
      calculateReconnectDelay random s"
    by (rule calculateReconnectDelay_cong) (simp_all add: updateStatus_fields f4)
  have sr: "status (scheduleReconnect now random s4) = RECONNECTING"
    "reconnectTimer (scheduleReconnect now random s4) = Some (next_handle s)"
    "timers (scheduleReconnect now random s4) =
       unheld_timers s @ [(next_handle s, Timeout (calculateReconnectDelay random s))]"
    "trace (scheduleReconnect now random s4) =
       trace s @ [Log_closed code,
                  Log_reconnecting (calculateReconnectDelay random s) (reconnectAttempts s + 1)]"
    "connected (scheduleReconnect now random s4) = False"
    "disconnectedAt (stats (scheduleReconnect now random s4)) = Some now"
    "reconnectAttempts (scheduleReconnect now random s4) = reconnectAttempts s"
    "config (scheduleReconnect now random s4) = config s"
    "heartbeatTimer (scheduleReconnect now random s4) = None"
    by (simp_all add: scheduleReconnect_def setTimer_def Let_def d updateStatus_fields
        emit_def f4 t4)
  show "connected (handleClose now random code s) = False"
    "disconnectedAt (stats (handleClose now random code s)) = Some now"
    "reconnectAttempts (handleClose now random code s) = reconnectAttempts s"
    "config (handleClose now random code s) = config s"
    "heartbeatTimer (handleClose now random code s) = None"
    unfolding hc by (simp_all add: sr f4)
  show "code \<noteq> 1000 \<and> int (reconnectAttempts s) < maxReconnectAttempts (config s) \<Longrightarrow>
     status (handleClose now random code s) = RECONNECTING \<and>
     reconnectTimer (handleClose now random code s) = Some (next_handle s) \<and>
     timers (handleClose now random code s) =
       unheld_timers s @ [(next_handle s, Timeout (calculateReconnectDelay random s))] \<and>
     trace (handleClose now random code s) =
       trace s @ [Log_closed code,
                  Log_reconnecting (calculateReconnectDelay random s) (reconnectAttempts s + 1)]"
    unfolding hc by (simp add: sr sh)
  show "code = 1000 \<or> maxReconnectAttempts (config s) \<le> int (reconnectAttempts s) \<Longrightarrow>
     status (handleClose now random code s) = DISCONNECTED \<and>
     reconnectTimer (handleClose now random code s) = None \<and>
     timers (handleClose now random code s) = unheld_timers s \<and>
     trace (handleClose now random code s) = trace s @ [Log_closed code]"
    unfolding hc by (auto simp add: f4 t4 sh)
qed

lemma close_all_quiet:
  assumes "cs \<noteq> []"
    and "maxReconnectAttempts (config s) \<le> int (reconnectAttempts s) \<or> (\<forall>c \<in> set cs. snd (snd c) = 1000)"
  shows "status (close_all cs s) = DISCONNECTED \<and> reconnectTimer (close_all cs s) = None \<and>
         heartbeatTimer (close_all cs s) = None \<and> timers (close_all cs s) = unheld_timers s"
  using assms
proof (induction cs arbitrary: s)
  case Nil
  then show ?case by simp
next
  case (Cons c cs)
  obtain now random code where c: "c = (now, random, code)" by (cases c)
  let ?s1 = "handleClose now random code s"
  have q: "code = 1000 \<or> maxReconnectAttempts (config s) \<le> int (reconnectAttempts s)"
    using Cons.prems(2) c by auto
  note h = handleClose_result(7)[of code s now random, OF q]
    handleClose_result(3,4,5)[of now random code s]
  have quiet: "status ?s1 = DISCONNECTED" "reconnectTimer ?s1 = None" "heartbeatTimer ?s1 = None"
    "timers ?s1 = unheld_timers s"
    using h by simp_all
  have keep: "maxReconnectAttempts (config ?s1) \<le> int (reconnectAttempts ?s1) \<or>
      (\<forall>c \<in> set cs. snd (snd c) = 1000)"
    using h Cons.prems(2) by auto
  show ?case
  proof (cases "cs = []")
    case True
    with quiet c show ?thesis by simp
  next
    case False
    have "unheld_timers ?s1 = unheld_timers s"
      using quiet by (simp add: unheld_timers_none)
    with Cons.IH[OF False keep] c show ?thesis by simp
  qed
qed

text \<open>
  Claim C5 on the code. What \<^verbatim>\<open>handleClose\<close> leaves, for every close event. With the
  normal-closure code 1000: status DISCONNECTED, both timer fields empty, nothing
  scheduled. With any other code and fewer reconnect attempts than
  \<open>maxReconnectAttempts\<close>: status RECONNECTING and one new timeout with the computed
  delay, its handle in the reconnect field. With any other code once the attempts have
  reached \<open>maxReconnectAttempts\<close>: status DISCONNECTED and nothing scheduled. In every
  case \<open>connected\<close> is false, the time of the disconnect is recorded, the attempt counter
  is left as it was, and the timers that were cleared are those whose handles the two
  fields held, and no other: a live timer that no field held is still live. So after any
  row of close events that all carry the code 1000, or that reach a manager whose
  attempts are used up, the status is DISCONNECTED and no reconnect is scheduled.
\<close>

theorem handleClose_reconnect_policy:
  "(code = 1000 \<longrightarrow>
      status (handleClose now random code s) = DISCONNECTED \<and>
      reconnectTimer (handleClose now random code s) = None \<and>
      heartbeatTimer (handleClose now random code s) = None \<and>
      timers (handleClose now random code s) = unheld_timers s) \<and>
   (code \<noteq> 1000 \<and> int (reconnectAttempts s) < maxReconnectAttempts (config s) \<longrightarrow>
      status (handleClose now random code s) = RECONNECTING \<and>
      reconnectTimer (handleClose now random code s) = Some (next_handle s) \<and>
      heartbeatTimer (handleClose now random code s) = None \<and>
      timers (handleClose now random code s) =
        unheld_timers s @ [(next_handle s, Timeout (calculateReconnectDelay random s))]) \<and>
   (code \<noteq> 1000 \<and> maxReconnectAttempts (config s) \<le> int (reconnectAttempts s) \<longrightarrow>
      status (handleClose now random code s) = DISCONNECTED \<and>
      reconnectTimer (handleClose now random code s) = None \<and>
      heartbeatTimer (handleClose now random code s) = None \<and>
      timers (handleClose now random code s) = unheld_timers s) \<and>
   connected (handleClose now random code s) = False \<and>
   disconnectedAt (stats (handleClose now random code s)) = Some now \<and>
   reconnectAttempts (handleClose now random code s) = reconnectAttempts s \<and>
   (cs \<noteq> [] \<and>
    (maxReconnectAttempts (config s) \<le> int (reconnectAttempts s) \<or>
     (\<forall>c \<in> set cs. snd (snd c) = 1000)) \<longrightarrow>
      status (close_all cs s) = DISCONNECTED \<and> reconnectTimer (close_all cs s) = None \<and>
      timers (close_all cs s) = unheld_timers s)"
proof -
  note h = handleClose_result(1-5)[of now random code s]
    handleClose_result(6-7)[of code s now random]
  have q: "cs \<noteq> [] \<and>
    (maxReconnectAttempts (config s) \<le> int (reconnectAttempts s) \<or>
     (\<forall>c \<in> set cs. snd (snd c) = 1000)) \<longrightarrow>
      status (close_all cs s) = DISCONNECTED \<and> reconnectTimer (close_all cs s) = None \<and>
      timers (close_all cs s) = unheld_timers s"
    using close_all_quiet[of cs s] by blast
  have c1: "code = 1000 \<longrightarrow>
      status (handleClose now random code s) = DISCONNECTED \<and>
      reconnectTimer (handleClose now random code s) = None \<and>
      heartbeatTimer (handleClose now random code s) = None \<and>
      timers (handleClose now random code s) = unheld_timers s"
  proof
    assume "code = 1000"
    then have "code = 1000 \<or> maxReconnectAttempts (config s) \<le> int (reconnectAttempts s)" by simp
    from h(7)[OF this] h(5) show "status (handleClose now random code s) = DISCONNECTED \<and>
      reconnectTimer (handleClose now random code s) = None \<and>
      heartbeatTimer (handleClose now random code s) = None \<and>
      timers (handleClose now random code s) = unheld_timers s" by simp
  qed
  have c2: "code \<noteq> 1000 \<and> int (reconnectAttempts s) < maxReconnectAttempts (config s) \<longrightarrow>
      status (handleClose now random code s) = RECONNECTING \<and>
      reconnectTimer (handleClose now random code s) = Some (next_handle s) \<and>
      heartbeatTimer (handleClose now random code s) = None \<and>
      timers (handleClose now random code s) =
        unheld_timers s @ [(next_handle s, Timeout (calculateReconnectDelay random s))]"
  proof
    assume a: "code \<noteq> 1000 \<and> int (reconnectAttempts s) < maxReconnectAttempts (config s)"
    from h(6)[OF a] h(5) show "status (handleClose now random code s) = RECONNECTING \<and>
      reconnectTimer (handleClose now random code s) = Some (next_handle s) \<and>
      heartbeatTimer (handleClose now random code s) = None \<and>
      timers (handleClose now random code s) =
        unheld_timers s @ [(next_handle s, Timeout (calculateReconnectDelay random s))]" by simp
  qed
  have c3: "code \<noteq> 1000 \<and> maxReconnectAttempts (config s) \<le> int (reconnectAttempts s) \<longrightarrow>
      status (handleClose now random code s) = DISCONNECTED \<and>
      reconnectTimer (handleClose now random code s) = None \<and>
      heartbeatTimer (handleClose now random code s) = None \<and>
      timers (handleClose now random code s) = unheld_timers s"
  proof
    assume "code \<noteq> 1000 \<and> maxReconnectAttempts (config s) \<le> int (reconnectAttempts s)"
    then have "code = 1000 \<or> maxReconnectAttempts (config s) \<le> int (reconnectAttempts s)" by simp
    from h(7)[OF this] h(5) show "status (handleClose now random code s) = DISCONNECTED \<and>
      reconnectTimer (handleClose now random code s) = None \<and>
      heartbeatTimer (handleClose now random code s) = None \<and>
      timers (handleClose now random code s) = unheld_timers s" by simp
  qed
  from c1 c2 c3 h(1,2,3) q show ?thesis by blast
qed


lemma example_connected_fields:
  "timers example_connected = [(1, Interval 30000)]"
  "heartbeatTimer example_connected = Some 1"
  "reconnectTimer example_connected = None"
  "ws example_connected = Ws_object \<lparr>tid = 1, readyState = RS_OPEN\<rparr>"
  "status example_connected = CONNECTED"
  "config example_connected = example_config"
  "reconnectAttempts example_connected = 0"
  "trace example_connected = [Log_connected]"
  "next_handle example_connected = 2"
  "messageQueue example_connected = []"
  "subscriptions example_connected = []"
  "heap example_connected = Map.empty"
  "next_ref example_connected = 0"
  "stats example_connected = initialStats\<lparr>connectedAt := Some 5\<rparr>"
  by (simp_all add: example_connected_eq constructor_fields)

lemma example_attempts_used_fields:
  "reconnectAttempts example_attempts_used = 3"
  "config example_attempts_used = example_config"
  "reconnectTimer example_attempts_used = Some 4"
  "heartbeatTimer example_attempts_used = None"
  "timers example_attempts_used = []"
  by (simp_all add: example_attempts_used_def example_connected_eq life_cycle_defs
      example_config_def)

text \<open>
  The connected example manager (at most 3 attempts, base interval 100): a normal close;
  an abnormal close at attempt 0 (delay 100 + 500); an abnormal close after the attempts
  are used up, which schedules nothing. And the manager that saw two open events with no
  close event between them: after a close with code 1000, and after a second one, the
  heartbeat interval of the first open event (handle 1) is still live.
\<close>

theorem handleClose_reconnect_policy_witness:
  "status (handleClose 20 (1/2) 1000 example_connected) = DISCONNECTED \<and>
   reconnectTimer (handleClose 20 (1/2) 1000 example_connected) = None \<and>
   heartbeatTimer (handleClose 20 (1/2) 1000 example_connected) = None \<and>
   timers (handleClose 20 (1/2) 1000 example_connected) = [] \<and>
   status (handleClose 20 (1/2) 1006 example_connected) = RECONNECTING \<and>
   reconnectTimer (handleClose 20 (1/2) 1006 example_connected) = Some 2 \<and>
   timers (handleClose 20 (1/2) 1006 example_connected) = [(2, Timeout (Num 600))] \<and>
   reconnectAttempts example_attempts_used = 3 \<and>
   status (handleClose 26 0 1006 example_attempts_used) = DISCONNECTED \<and>
   reconnectTimer (handleClose 26 0 1006 example_attempts_used) = None \<and>
   timers (handleClose 26 0 1006 example_attempts_used) = [] \<and>
   timers example_opened_twice = [(1, Interval 30000), (2, Interval 30000)] \<and>
   status (handleClose 20 (1/2) 1000 example_opened_twice) = DISCONNECTED \<and>
   heartbeatTimer (handleClose 20 (1/2) 1000 example_opened_twice) = None \<and>
   timers (handleClose 20 (1/2) 1000 example_opened_twice) = [(1, Interval 30000)] \<and>
   status (close_all [(20, 1/2, 1000), (21, 0, 1000)] example_opened_twice) = DISCONNECTED \<and>
   timers (close_all [(20, 1/2, 1000), (21, 0, 1000)] example_opened_twice) = [(1, Interval 30000)]"
proof -
  have d: "calculateReconnectDelay (1/2) example_connected = Num 600"
    by (simp add: calculateReconnectDelay_def Let_def example_connected_fields
        example_config_def js_pow2_def js_number_small)
  have m: "maxReconnectAttempts example_config = 3" by (simp add: example_config_def)
  note t1 = handleClose_reconnect_policy[of 1000 20 "1/2" example_connected "[]"]
  note t2 = handleClose_reconnect_policy[of 1006 20 "1/2" example_connected "[]"]
  note t3 = handleClose_reconnect_policy[of 1006 26 0 example_attempts_used "[]"]
  note t4 = handleClose_reconnect_policy[of 1000 20 "1/2" example_opened_twice
      "[(20, 1/2, 1000), (21, 0, 1000)]"]
  from t1 have r1: "status (handleClose 20 (1/2) 1000 example_connected) = DISCONNECTED"
    "reconnectTimer (handleClose 20 (1/2) 1000 example_connected) = None"
    "heartbeatTimer (handleClose 20 (1/2) 1000 example_connected) = None"
    "timers (handleClose 20 (1/2) 1000 example_connected) = []"
    by (simp_all add: unheld_timers_def example_connected_fields)
  from t2 have r2: "status (handleClose 20 (1/2) 1006 example_connected) = RECONNECTING"
    "reconnectTimer (handleClose 20 (1/2) 1006 example_connected) = Some 2"
    "timers (handleClose 20 (1/2) 1006 example_connected) = [(2, Timeout (Num 600))]"
    by (simp_all add: unheld_timers_def example_connected_fields m d)
  from t3 have r3: "status (handleClose 26 0 1006 example_attempts_used) = DISCONNECTED"
    "reconnectTimer (handleClose 26 0 1006 example_attempts_used) = None"
    "timers (handleClose 26 0 1006 example_attempts_used) = []"
    by (simp_all add: unheld_timers_def example_attempts_used_fields m)
  from t4 have r4: "status (handleClose 20 (1/2) 1000 example_opened_twice) = DISCONNECTED"
    "heartbeatTimer (handleClose 20 (1/2) 1000 example_opened_twice) = None"
    "timers (handleClose 20 (1/2) 1000 example_opened_twice) = [(1, Interval 30000)]"
    "status (close_all [(20, 1/2, 1000), (21, 0, 1000)] example_opened_twice) = DISCONNECTED"
    "timers (close_all [(20, 1/2, 1000), (21, 0, 1000)] example_opened_twice) = [(1, Interval 30000)]"
    by (simp_all add: unheld_timers_def example_opened_twice_fields)
  from r1 r2 r3 r4 example_attempts_used_fields(1) example_opened_twice_fields(1)
  show ?thesis by blast
qed

subsection \<open>Connecting\<close>

text \<open>
  Claim C2, amended. \<^verbatim>\<open>connect\<close> has no guard for a manager that is already connected.
  In every state, also with status CONNECTED and an open transport, it sets the status to
  CONNECTING and replaces the transport the manager holds by the newly constructed one,
  which is not open yet, so that \<^verbatim>\<open>isConnected\<close> is false; the earlier transport is not
  closed (the trace is unchanged), and the registry, the queue, the handlers, the timers
  and the attempt counter stay as they were. The promise is pending when the call
  returns. When constructing the transport throws, the promise is rejected, the status
  is ERROR and the transport held is kept.
\<close>

theorem connect_replaces_transport:
  "fst (connect now (Some n) s) = Pending \<and>
   status (snd (connect now (Some n) s)) = CONNECTING \<and>
   ws (snd (connect now (Some n) s)) = Ws_object \<lparr>tid = n, readyState = RS_CONNECTING\<rparr> \<and>
   isConnected (snd (connect now (Some n) s)) = Inr False \<and>
   trace (snd (connect now (Some n) s)) = trace s \<and>
   subscriptions (snd (connect now (Some n) s)) = subscriptions s \<and>
   heap (snd (connect now (Some n) s)) = heap s \<and>
   messageQueue (snd (connect now (Some n) s)) = messageQueue s \<and>
   messageHandlers (snd (connect now (Some n) s)) = messageHandlers s \<and>
   subscriptionCallbacks (snd (connect now (Some n) s)) = subscriptionCallbacks s \<and>
   reconnectTimer (snd (connect now (Some n) s)) = reconnectTimer s \<and>
   heartbeatTimer (snd (connect now (Some n) s)) = heartbeatTimer s \<and>
   timers (snd (connect now (Some n) s)) = timers s \<and>
   connected (snd (connect now (Some n) s)) = connected s \<and>
   reconnectAttempts (snd (connect now (Some n) s)) = reconnectAttempts s \<and>
   fst (connect now None s) = Rejected ConstructFailed \<and>
   status (snd (connect now None s)) = ERROR_status \<and>
   ws (snd (connect now None s)) = ws s"
  by (simp add: connect_def Let_def updateStatus_fields isConnected_def)

text \<open>The connected example manager, connected again at time 9 with transport 2.\<close>

theorem connect_replaces_transport_witness:
  "status (snd (connect 9 (Some 2) example_connected)) = CONNECTING \<and>
   ws (snd (connect 9 (Some 2) example_connected)) = Ws_object \<lparr>tid = 2, readyState = RS_CONNECTING\<rparr> \<and>
   isConnected (snd (connect 9 (Some 2) example_connected)) = Inr False \<and>
   trace (snd (connect 9 (Some 2) example_connected)) = [Log_connected] \<and>
   heartbeatTimer (snd (connect 9 (Some 2) example_connected)) = Some 1 \<and>
   timers (snd (connect 9 (Some 2) example_connected)) = [(1, Interval 30000)]"
  using connect_replaces_transport [of 9 2 example_connected]
  by (simp add: example_connected_fields)

text \<open>
  Claim C2 as it is stated fails on the connected example manager (status CONNECTED,
  transport 1 open): \<^verbatim>\<open>connect\<close> leaves status CONNECTING and transport 2, still
  connecting, and its promise has not resolved.
\<close>

theorem connect_when_connected_counterexample:
  "status example_connected = CONNECTED \<and> isConnected example_connected = Inr True \<and>
   ws example_connected = Ws_object \<lparr>tid = 1, readyState = RS_OPEN\<rparr> \<and>
   fst (connect 9 (Some 2) example_connected) = Pending \<and>
   status (snd (connect 9 (Some 2) example_connected)) = CONNECTING \<and>
   ws (snd (connect 9 (Some 2) example_connected)) = Ws_object \<lparr>tid = 2, readyState = RS_CONNECTING\<rparr> \<and>
   snd (connect 9 (Some 2) example_connected) \<noteq> example_connected"
proof -
  have a: "status example_connected = CONNECTED" "isConnected example_connected = Inr True"
    "ws example_connected = Ws_object \<lparr>tid = 1, readyState = RS_OPEN\<rparr>"
    by (simp_all add: example_connected_fields isConnected_def)
  have b: "fst (connect 9 (Some 2) example_connected) = Pending"
    "status (snd (connect 9 (Some 2) example_connected)) = CONNECTING"
    "ws (snd (connect 9 (Some 2) example_connected)) = Ws_object \<lparr>tid = 2, readyState = RS_CONNECTING\<rparr>"
    by (simp_all add: connect_def Let_def updateStatus_fields)
  have "status (snd (connect 9 (Some 2) example_connected)) \<noteq> status example_connected"
    using a(1) b(2) by simp
  then have "snd (connect 9 (Some 2) example_connected) \<noteq> example_connected" by auto
  with a b show ?thesis by simp
qed

subsection \<open>Generated identifiers\<close>

lemma digit_char_in: "d < 10 \<Longrightarrow> digit_char d \<in> set ''0123456789''"
  unfolding digit_char_def by (rule nth_mem) simp

lemma digit_char_inj: "a < 10 \<Longrightarrow> b < 10 \<Longrightarrow> digit_char a = digit_char b \<Longrightarrow> a = b"
proof -
  assume a: "a < 10" and b: "b < 10" and e: "digit_char a = digit_char b"
  have d: "distinct ''0123456789''" by simp
  have "a < length ''0123456789''" "b < length ''0123456789''" using a b by simp_all
  with d e show "a = b" unfolding digit_char_def by (simp only: nth_eq_iff_index_eq)
qed

lemma digits_nonempty: "digits n \<noteq> []"
  by (subst digits.simps) simp

lemma digits_chars: "c \<in> set (digits n) \<Longrightarrow> c \<in> set ''0123456789''"
proof (induction n rule: digits.induct)
  case (1 n)
  show ?case
  proof (cases "n < 10")
    case True
    with 1(2) have "c = digit_char n" by (subst (asm) digits.simps) simp
    with True show ?thesis using digit_char_in by blast
  next
    case False
    with 1(2) have "c \<in> set (digits (n div 10)) \<or> c = digit_char (n mod 10)"
      by (subst (asm) digits.simps) auto
    then show ?thesis
    proof
      assume "c \<in> set (digits (n div 10))"
      with 1(1)[OF False] show ?thesis by blast
    next
      assume "c = digit_char (n mod 10)"
      moreover have "n mod 10 < 10" by simp
      ultimately show ?thesis using digit_char_in by blast
    qed
  qed
qed

lemma digits_inj: "digits m = digits n \<Longrightarrow> m = n"
proof (induction m arbitrary: n rule: digits.induct)
  case (1 m)
  show ?case
  proof (cases "m < 10")
    case True
    then have dm: "digits m = [digit_char m]" by (subst digits.simps) simp
    show ?thesis
    proof (cases "n < 10")
      case nlt: True
      then have "digits n = [digit_char n]" by (subst digits.simps) simp
      with dm 1(2) have "digit_char m = digit_char n" by simp
      with True nlt show ?thesis by (rule digit_char_inj)
    next
      case nge: False
      then have "digits n = digits (n div 10) @ [digit_char (n mod 10)]"
        by (subst digits.simps) simp
      with dm 1(2) have "digits (n div 10) = []" by simp
      with digits_nonempty show ?thesis by blast
    qed
  next
    case False
    then have dm: "digits m = digits (m div 10) @ [digit_char (m mod 10)]"
      by (subst digits.simps) simp
    show ?thesis
    proof (cases "n < 10")
      case nlt: True
      then have "digits n = [digit_char n]" by (subst digits.simps) simp
      with dm 1(2) have "digits (m div 10) = []" by simp
      with digits_nonempty show ?thesis by blast
    next
      case nge: False
      then have "digits n = digits (n div 10) @ [digit_char (n mod 10)]"
        by (subst digits.simps) simp
      with dm 1(2) have e: "digits (m div 10) = digits (n div 10)"
        "digit_char (m mod 10) = digit_char (n mod 10)" by simp_all
      from 1(1)[OF False e(1)] have d: "m div 10 = n div 10" .
      have mm: "m mod 10 = n mod 10" by (rule digit_char_inj[OF _ _ e(2)]) simp_all
      have "m = (m div 10) * 10 + m mod 10" by simp
      also have "\<dots> = (n div 10) * 10 + n mod 10" using d mm by simp
      also have "\<dots> = n" by simp
      finally show ?thesis .
    qed
  qed
qed

lemma show_int_chars:
  assumes "c \<in> set (show_int i)"
  shows "c \<in> set ''-0123456789''"
proof (cases "i < 0")
  case True
  with assms have "c = CHR ''-'' \<or> c \<in> set (digits (nat (- i)))" by (simp add: show_int_def)
  then show ?thesis
  proof
    assume "c = CHR ''-''"
    then show ?thesis by simp
  next
    assume "c \<in> set (digits (nat (- i)))"
    from digits_chars[OF this] show ?thesis by simp
  qed
next
  case False
  with assms have "c \<in> set (digits (nat i))" by (simp add: show_int_def)
  from digits_chars[OF this] show ?thesis by simp
qed

lemma show_int_inj: "show_int i = show_int j \<Longrightarrow> i = j"
proof -
  assume e: "show_int i = show_int j"
  have nd: "CHR ''-'' \<notin> set (digits k)" for k using digits_chars[of "CHR ''-''" k] by auto
  have hd_pos: "hd (digits k) \<noteq> CHR ''-''" for k
    using nd[of k] digits_nonempty[of k] by (cases "digits k") auto
  show "i = j"
  proof (cases "i < 0")
    case True
    show ?thesis
    proof (cases "j < 0")
      case jn: True
      with True e have "digits (nat (- i)) = digits (nat (- j))" by (simp add: show_int_def)
      from digits_inj[OF this] True jn show ?thesis by simp
    next
      case jp: False
      with True e have "CHR ''-'' # digits (nat (- i)) = digits (nat j)" by (simp add: show_int_def)
      then have "hd (digits (nat j)) = CHR ''-''" by (metis list.sel(1))
      with hd_pos show ?thesis by blast
    qed
  next
    case False
    show ?thesis
    proof (cases "j < 0")
      case jn: True
      with False e have "digits (nat i) = CHR ''-'' # digits (nat (- j))" by (simp add: show_int_def)
      then have "hd (digits (nat i)) = CHR ''-''" by simp
      with hd_pos show ?thesis by blast
    next
      case jp: False
      with False e have "digits (nat i) = digits (nat j)" by (simp add: show_int_def)
      from digits_inj[OF this] False jp show ?thesis by simp
    qed
  qed
qed

lemma split_at_separator:
  assumes "c \<notin> set a" "c \<notin> set b" "a @ c # r1 = b @ c # r2"
  shows "a = b \<and> r1 = r2"
proof -
  have tw: "takeWhile (\<lambda>x. x \<noteq> c) (xs @ c # r) = xs" if "c \<notin> set xs" for xs r
    using that by (induction xs) auto
  have "a = takeWhile (\<lambda>x. x \<noteq> c) (a @ c # r1)" using tw[OF assms(1)] by simp
  also have "\<dots> = takeWhile (\<lambda>x. x \<noteq> c) (b @ c # r2)" by (simp only: assms(3))
  also have "\<dots> = b" by (rule tw[OF assms(2)])
  finally have "a = b" .
  with assms(3) show ?thesis by simp
qed

lemma generateSubscriptionId_inj:
  assumes "generateSubscriptionId now rnd = generateSubscriptionId now' rnd'"
  shows "now = now' \<and> rnd = rnd'"
proof -
  have u: "CHR ''_'' \<notin> set (show_int k)" for k using show_int_chars[of "CHR ''_''" k] by auto
  from assms have "show_int now @ CHR ''_'' # rnd = show_int now' @ CHR ''_'' # rnd'"
    by (simp add: generateSubscriptionId_def)
  from split_at_separator[OF u u this] show_int_inj show ?thesis by blast
qed


subsection \<open>The example managers\<close>

lemma example_ids:
  "generateSubscriptionId 7 ''a'' = ''sub_7_a''" "generateMessageId 7 ''b'' = ''msg_7_b''"
  "generateMessageId 9 ''c'' = ''msg_9_c''"
  by (simp_all add: generateSubscriptionId_def generateMessageId_def show_int_def digits.simps
      digit_char_def)

lemma example_subscribed_eq:
  "example_subscribed =
     example_connected
       \<lparr>subscriptions := [(''sub_7_a'', 0)],
        heap := [0 \<mapsto> \<lparr>sub_id = ''sub_7_a'', sub_channel = ''wallet'',
            active = True, createdAt = 7, lastMessage = None, messageCount = 0, errorCount = 0\<rparr>],
        next_ref := 1,
        stats := initialStats\<lparr>connectedAt := Some 5, messagesSent := 1, bytesSent := 7\<rparr>,
        trace := [Log_connected, Ws_send 1 ''msg_7_b'']\<rparr>"
  by (simp add: example_subscribed_def subscribe_def Let_def sendMessage_def isConnected_def
      example_connected_eq example_platform_def subscribe_message_def new_subscription_def
      register_subscription_def wallet_request_def
      example_ids emit_def constructor_fields initialStats_def)

lemma example_subscribed_fields:
  "timers example_subscribed = [(1, Interval 30000)]"
  "heartbeatTimer example_subscribed = Some 1"
  "reconnectTimer example_subscribed = None"
  "ws example_subscribed = Ws_object \<lparr>tid = 1, readyState = RS_OPEN\<rparr>"
  "status example_subscribed = CONNECTED"
  "config example_subscribed = example_config"
  "reconnectAttempts example_subscribed = 0"
  "trace example_subscribed = [Log_connected, Ws_send 1 ''msg_7_b'']"
  "next_handle example_subscribed = 2"
  "messageQueue example_subscribed = []"
  "subscriptions example_subscribed = [(''sub_7_a'', 0)]"
  "heap example_subscribed = [0 \<mapsto> \<lparr>sub_id = ''sub_7_a'', sub_channel = ''wallet'',
            active = True, createdAt = 7, lastMessage = None, messageCount = 0, errorCount = 0\<rparr>]"
  "next_ref example_subscribed = 1"
  "stats example_subscribed = initialStats\<lparr>connectedAt := Some 5, messagesSent := 1, bytesSent := 7\<rparr>"
  "messageHandlers example_subscribed = messageHandlers (constructor example_config)"
  "subscriptionCallbacks example_subscribed = Map.empty"
  by (simp_all add: example_subscribed_eq example_connected_eq constructor_fields)
    (simp add: constructor_def setupDefaultHandlers_def onMessage_def)

subsection \<open>Open events\<close>

lemma same_control_refl: "same_control s s"
  by (simp add: same_control_def)

lemma same_control_trans: "same_control a b \<Longrightarrow> same_control b c \<Longrightarrow> same_control a c"
  by (simp add: same_control_def)

lemma flush_step_connected:
  assumes "isConnected s = Inr True" "ws s = Ws_object t"
  shows "same_control s (fire_and_forget (sendMessage pf m (s\<lparr>messageQueue := rest\<rparr>)) (s\<lparr>messageQueue := rest\<rparr>)) \<and>
         messageQueue (fire_and_forget (sendMessage pf m (s\<lparr>messageQueue := rest\<rparr>)) (s\<lparr>messageQueue := rest\<rparr>)) = rest \<and>
         trace (fire_and_forget (sendMessage pf m (s\<lparr>messageQueue := rest\<rparr>)) (s\<lparr>messageQueue := rest\<rparr>))
           = trace s @ flush_effect pf t m"
  using assms
  by (auto simp add: same_control_def fire_and_forget_def sendMessage_def isConnected_def
      flush_effect_def emit_def split: option.splits)

lemma flush_connected:
  assumes "isConnected s = Inr True" "ws s = Ws_object t"
  shows "\<exists>s'. flushMessageQueue pf s = Some s' \<and> same_control s s' \<and> messageQueue s' = [] \<and>
              trace s' = trace s @ concat (map (flush_effect pf t) (messageQueue s))"
  using assms
proof (induction "messageQueue s" arbitrary: s)
  case Nil
  then have "flushMessageQueue pf s = Some s" by (simp add: flush_Nil)
  with Nil show ?case by (simp add: same_control_refl)
next
  case (Cons m rest)
  let ?s2 = "fire_and_forget (sendMessage pf m (s\<lparr>messageQueue := rest\<rparr>)) (s\<lparr>messageQueue := rest\<rparr>)"
  from flush_step_connected[OF Cons.prems, of pf m rest]
  have st: "same_control s ?s2" "messageQueue ?s2 = rest" "trace ?s2 = trace s @ flush_effect pf t m"
    by simp_all
  have c2: "isConnected ?s2 = Inr True" "ws ?s2 = Ws_object t"
    using st(1) Cons.prems by (simp_all add: same_control_def isConnected_def)
  have un: "flushMessageQueue pf s = flushMessageQueue pf ?s2"
    using Cons.hyps(2)[symmetric] by (subst flushMessageQueue.simps) (simp add: Let_def)
  from Cons.hyps(1)[OF st(2)[symmetric] c2] obtain s' where s':
    "flushMessageQueue pf ?s2 = Some s'" "same_control ?s2 s'" "messageQueue s' = []"
    "trace s' = trace ?s2 @ concat (map (flush_effect pf t) (messageQueue ?s2))"
    by blast
  have "trace s' = trace s @ concat (map (flush_effect pf t) (messageQueue s))"
    using s'(4) st(2,3) Cons.hyps(2)[symmetric] by simp
  with un s'(1,3) same_control_trans[OF st(1) s'(2)] show ?case by simp
qed

lemma queueMessage_last: "messageQueue (queueMessage m s) \<noteq> []"
  by (simp add: queueMessage_def Let_def)

text \<open>
  The flush loop does not return when the queue is not empty and the transport the
  manager holds is not open (an open event of a transport that a later \<^verbatim>\<open>connect\<close>
  replaced): each message taken from the queue is queued again.
\<close>

lemma flush_never_returns_raw:
  assumes "flushMessageQueue pf s = Some s'"
  shows "isConnected s \<noteq> Inr False \<or> messageQueue s = []"
  using assms
proof (induction rule: flushMessageQueue.raw_induct[rotated 1, consumes 1, case_names step])
  case (step flush pf s s')
  show ?case
  proof (rule ccontr)
    assume "\<not> (isConnected s \<noteq> Inr False \<or> messageQueue s = [])"
    then have a: "isConnected s = Inr False" "messageQueue s \<noteq> []" by simp_all
    then obtain m rest where q: "messageQueue s = m # rest" by (cases "messageQueue s") auto
    let ?s1 = "s\<lparr>messageQueue := rest\<rparr>"
    have nc: "isConnected ?s1 = Inr False" using a by (simp add: isConnected_def)
    let ?s2 = "fire_and_forget (sendMessage pf m ?s1) ?s1"
    have s2: "?s2 = queueMessage m ?s1"
      using nc by (simp add: sendMessage_def fire_and_forget_def)
    have "flush pf ?s2 = Some s'" using step(2) q by (simp add: Let_def)
    from step(1)[OF this] have "isConnected ?s2 \<noteq> Inr False \<or> messageQueue ?s2 = []" .
    moreover have "isConnected ?s2 = Inr False" using nc by (simp add: s2 isConnected_queueMessage)
    moreover have "messageQueue ?s2 \<noteq> []" using queueMessage_last[of m ?s1] by (simp add: s2)
    ultimately show False by blast
  qed
qed

lemma flush_diverges_when_not_connected:
  "isConnected s = Inr False \<Longrightarrow> messageQueue s \<noteq> [] \<Longrightarrow> flushMessageQueue pf s = None"
  using flush_never_returns_raw[of pf s] by (cases "flushMessageQueue pf s") auto

text \<open>
  Claim C6, on the code. At the open event of the transport the manager holds,
  \<^verbatim>\<open>handleOpen\<close> returns with status CONNECTED, \<open>connected\<close> set, the attempt counter 0,
  the connect time recorded, the heartbeat timer started (a new interval, its handle in
  the heartbeat field) and the queue empty, and the registry and its objects as they
  were. What it did to the outside world, in order: the console line, then the queued
  messages sent in queue order, then one console line per active subscription in registry
  order. For an active subscription nothing is sent on the transport: \<^verbatim>\<open>resubscribeAll\<close>
  only logs.
\<close>

theorem handleOpen_resubscribes_by_log_only:
  assumes "isConnected s = Inr True" and "ws s = Ws_object t"
  shows "\<exists>s'. handleOpen pf now s = Some s' \<and>
           status s' = CONNECTED \<and> connected s' \<and> reconnectAttempts s' = 0 \<and>
           connectedAt (stats s') = Some now \<and>
           heartbeatTimer s' = Some (next_handle s) \<and>
           timers s' = timers s @ [(next_handle s, Interval (heartbeatInterval (config s)))] \<and>
           messageQueue s' = [] \<and> subscriptions s' = subscriptions s \<and> heap s' = heap s \<and>
           trace s' = trace s @ [Log_connected] @
             concat (map (flush_effect pf t) (messageQueue s)) @
             map (\<lambda>(sid, sub). Log_resubscribing (sub_channel sub))
                 (filter (\<lambda>(sid, sub). active sub) (registry s))"
proof -
  define s5 where "s5 = startHeartbeat
     (let s1 = updateStatus now CONNECTED (emit Log_connected s);
          s2 = s1\<lparr>connected := True\<rparr>;
          s3 = s2\<lparr>stats := (stats s2)\<lparr>connectedAt := Some now\<rparr>\<rparr>
      in s3\<lparr>reconnectAttempts := 0\<rparr>)"
  have ho: "handleOpen pf now s =
      (case flushMessageQueue pf s5 of None \<Rightarrow> None | Some s6 \<Rightarrow> Some (resubscribeAll s6))"
    by (simp add: handleOpen_def s5_def Let_def)
  have f5: "status s5 = CONNECTED" "connected s5" "reconnectAttempts s5 = 0"
    "connectedAt (stats s5) = Some now" "heartbeatTimer s5 = Some (next_handle s)"
    "timers s5 = timers s @ [(next_handle s, Interval (heartbeatInterval (config s)))]"
    "messageQueue s5 = messageQueue s" "subscriptions s5 = subscriptions s" "heap s5 = heap s"
    "trace s5 = trace s @ [Log_connected]" "ws s5 = ws s"
    by (simp_all add: s5_def startHeartbeat_def setTimer_def updateStatus_def emit_def Let_def
        split: option.splits)
  have c5: "isConnected s5 = Inr True" "ws s5 = Ws_object t"
    using assms f5(11) by (simp_all add: isConnected_def)
  from flush_connected[OF c5, of pf] obtain s6 where s6:
    "flushMessageQueue pf s5 = Some s6" "same_control s5 s6" "messageQueue s6 = []"
    "trace s6 = trace s5 @ concat (map (flush_effect pf t) (messageQueue s5))"
    by blast
  have r: "handleOpen pf now s = Some (resubscribeAll s6)" by (simp add: ho s6(1))
  have reg: "registry s6 = registry s"
    using s6(2) f5 by (simp add: registry_def same_control_def)
  have "status (resubscribeAll s6) = CONNECTED" "connected (resubscribeAll s6)"
    "reconnectAttempts (resubscribeAll s6) = 0"
    "connectedAt (stats (resubscribeAll s6)) = Some now"
    "heartbeatTimer (resubscribeAll s6) = Some (next_handle s)"
    "timers (resubscribeAll s6) = timers s @ [(next_handle s, Interval (heartbeatInterval (config s)))]"
    "messageQueue (resubscribeAll s6) = []" "subscriptions (resubscribeAll s6) = subscriptions s"
    "heap (resubscribeAll s6) = heap s"
    "trace (resubscribeAll s6) = trace s @ [Log_connected] @
             concat (map (flush_effect pf t) (messageQueue s)) @
             map (\<lambda>(sid, sub). Log_resubscribing (sub_channel sub))
                 (filter (\<lambda>(sid, sub). active sub) (registry s))"
    using s6(2,3,4) f5 by (simp_all add: resubscribeAll_eq same_control_def reg)
  with r show ?thesis by blast
qed

lemma example_before_reopen_fields:
  "ws example_before_reopen = Ws_object \<lparr>tid = 2, readyState = RS_OPEN\<rparr>"
  "messageQueue example_before_reopen = []"
  "subscriptions example_before_reopen = [(''sub_7_a'', 0)]"
  "heap example_before_reopen = [0 \<mapsto> \<lparr>sub_id = ''sub_7_a'', sub_channel = ''wallet'',
        active = True, createdAt = 7, lastMessage = None, messageCount = 0, errorCount = 0\<rparr>]"
  "trace example_before_reopen =
     [Log_connected, Ws_send 1 ''msg_7_b'', Log_closed 1006, Log_reconnecting (Num 600) 1]"
  "status example_before_reopen = CONNECTING"
  "reconnectAttempts example_before_reopen = 1"
  "timers example_before_reopen = []"
  by (simp_all add: example_before_reopen_def life_cycle_defs calculateReconnectDelay_def
      js_pow2_def js_number_small example_subscribed_eq example_connected_eq
      example_config_def)

text \<open>
  One active subscription, and the transport reopened after an abnormal close: the open
  event leaves two console lines and nothing sent on transport 2.
\<close>

theorem handleOpen_resubscribes_by_log_only_witness:
  "isConnected example_before_reopen = Inr True \<and>
   map fst (filter (\<lambda>(sid, sub). active sub) (registry example_before_reopen)) = [''sub_7_a''] \<and>
   (\<exists>s'. handleOpen example_platform 22 example_before_reopen = Some s' \<and>
         status s' = CONNECTED \<and> reconnectAttempts s' = 0 \<and>
         trace s' = trace example_before_reopen @ [Log_connected, Log_resubscribing ''wallet''] \<and>
         (\<forall>d. Ws_send 2 d \<notin> set (trace s')))"
proof -
  have h1: "isConnected example_before_reopen = Inr True"
    by (simp add: isConnected_def example_before_reopen_fields)
  have h2: "ws example_before_reopen = Ws_object \<lparr>tid = 2, readyState = RS_OPEN\<rparr>"
    by (simp add: example_before_reopen_fields)
  have reg: "registry example_before_reopen =
     [(''sub_7_a'', \<lparr>sub_id = ''sub_7_a'', sub_channel = ''wallet'',
        active = True, createdAt = 7, lastMessage = None, messageCount = 0, errorCount = 0\<rparr>)]"
    by (simp add: registry_def example_before_reopen_fields)
  have a: "map fst (filter (\<lambda>(sid, sub). active sub) (registry example_before_reopen)) = [''sub_7_a'']"
    by (simp add: reg)
  from handleOpen_resubscribes_by_log_only[OF h1 h2, of example_platform 22]
  obtain s' where s': "handleOpen example_platform 22 example_before_reopen = Some s'"
    "status s' = CONNECTED" "reconnectAttempts s' = 0"
    "trace s' = trace example_before_reopen @ [Log_connected] @
             concat (map (flush_effect example_platform \<lparr>tid = 2, readyState = RS_OPEN\<rparr>)
                      (messageQueue example_before_reopen)) @
             map (\<lambda>(sid, sub). Log_resubscribing (sub_channel sub))
                 (filter (\<lambda>(sid, sub). active sub) (registry example_before_reopen))"
    by blast
  have t: "trace s' = trace example_before_reopen @ [Log_connected, Log_resubscribing ''wallet'']"
    using s'(4) by (simp add: reg example_before_reopen_fields)
  then have "\<forall>d. Ws_send 2 d \<notin> set (trace s')"
    by (simp add: example_before_reopen_fields)
  with h1 a s'(1,2,3) t show ?thesis by blast
qed

subsection \<open>Subscriptions\<close>

lemma sendMessage_queued:
  "isConnected s = Inr False \<Longrightarrow> sendMessage pf m s = Inr (queueMessage m s)"
  by (simp add: sendMessage_def)

lemma sendMessage_sent:
  assumes "isConnected s = Inr True" "ws s = Ws_object t" "JSON_stringify pf m = Some d"
    "\<not> send_throws pf (tid t) d"
  shows "sendMessage pf m s =
     Inr ((emit (Ws_send (tid t) d) s)
            \<lparr>stats := (stats s)\<lparr>messagesSent := messagesSent (stats s) + 1,
                                 bytesSent := bytesSent (stats s) + int (length d)\<rparr>\<rparr>)"
  using assms by (simp add: sendMessage_def)

lemma sendMessage_failed:
  assumes "isConnected s = Inr True" "ws s = Ws_object t"
    "JSON_stringify pf m = None \<or> (\<exists>d. JSON_stringify pf m = Some d \<and> send_throws pf (tid t) d)"
  shows "sendMessage pf m s = Inl SendFailed"
  using assms by (auto simp add: sendMessage_def)

lemma sendMessage_undefined:
  "ws s = Ws_undefined \<Longrightarrow> sendMessage pf m s = Inl TypeError"
  by (simp add: sendMessage_def isConnected_def)

lemma sendMessage_errors:
  "sendMessage pf m s = Inl e \<Longrightarrow> e = SendFailed \<or> e = TypeError"
  by (auto simp add: sendMessage_def isConnected_def split: if_splits option.splits ws_ref.splits)

lemma sendMessage_registry:
  "sendMessage pf m s = Inr s1 \<Longrightarrow>
     subscriptions s1 = subscriptions s \<and> heap s1 = heap s \<and> next_ref s1 = next_ref s"
  by (auto simp add: sendMessage_def queueMessage_fields emit_def isConnected_def
      split: if_splits option.splits ws_ref.splits)

lemma queueMessage_end:
  "messageQueue (queueMessage m s) \<noteq> [] \<and> last (messageQueue (queueMessage m s)) = m"
  by (simp add: queueMessage_def Let_def)

lemma register_subscription_fields:
  "subscriptions (register_subscription sid obj s) = AList.update sid (next_ref s) (subscriptions s)"
  "heap (register_subscription sid obj s) = (heap s)(next_ref s \<mapsto> obj)"
  "lookup (register_subscription sid obj s) sid = Some obj"
  "trace (register_subscription sid obj s) = trace s"
  "messageQueue (register_subscription sid obj s) = messageQueue s"
  by (simp_all add: register_subscription_def lookup_def update_conv')

text \<open>
  Claim C3, amended. \<^verbatim>\<open>subscribe\<close> builds the identifier \<^verbatim>\<open>sub_<now>_<draw>\<close>, which is
  the identifier of another call exactly when that call has the same clock value and the
  same draw, and a SUBSCRIBE envelope whose payload carries that identifier and the
  request. On a manager that holds a transport or \<^verbatim>\<open>null\<close>: when the connection is not
  open the envelope is queued (it is the last of the queue); when it is open and neither
  serialising nor the transport's send throws, the envelope is sent on the transport. In
  both cases the call returns the identifier and the registry binds it to a new object,
  an active subscription. When the connection is open and serialising or sending throws,
  \<^verbatim>\<open>subscribe\<close> is rejected with the send failure: nothing is returned and nothing is
  recorded.
\<close>

theorem subscribe_records_after_send:
  "msg_type (subscribe_message (generateSubscriptionId now r1) now r2 req) = SUBSCRIBE \<and>
   payload (subscribe_message (generateSubscriptionId now r1) now r2 req) =
     Some \<lparr>subscriptionId = Some (generateSubscriptionId now r1), request = Some req,
           ping_timestamp = None, data = None\<rparr> \<and>
   active (new_subscription (generateSubscriptionId now r1) now req) \<and>
   (generateSubscriptionId now r1 = generateSubscriptionId now' r1' \<longleftrightarrow> now = now' \<and> r1 = r1') \<and>
   (isConnected s = Inr False \<longrightarrow>
      (\<exists>s'. subscribe pf now r1 r2 req s = Inr (generateSubscriptionId now r1, s') \<and>
            last (messageQueue s') = subscribe_message (generateSubscriptionId now r1) now r2 req \<and>
            messageQueue s' \<noteq> [] \<and> trace s' = trace s \<and>
            subscriptions s' =
              AList.update (generateSubscriptionId now r1) (next_ref s) (subscriptions s) \<and>
            heap s' = (heap s)(next_ref s \<mapsto> new_subscription (generateSubscriptionId now r1) now req) \<and>
            lookup s' (generateSubscriptionId now r1) =
              Some (new_subscription (generateSubscriptionId now r1) now req))) \<and>
   (isConnected s = Inr True \<and> ws s = Ws_object t \<and>
    JSON_stringify pf (subscribe_message (generateSubscriptionId now r1) now r2 req) = Some d \<and>
    \<not> send_throws pf (tid t) d \<longrightarrow>
      (\<exists>s'. subscribe pf now r1 r2 req s = Inr (generateSubscriptionId now r1, s') \<and>
            trace s' = trace s @ [Ws_send (tid t) d] \<and> messageQueue s' = messageQueue s \<and>
            subscriptions s' =
              AList.update (generateSubscriptionId now r1) (next_ref s) (subscriptions s) \<and>
            heap s' = (heap s)(next_ref s \<mapsto> new_subscription (generateSubscriptionId now r1) now req) \<and>
            lookup s' (generateSubscriptionId now r1) =
              Some (new_subscription (generateSubscriptionId now r1) now req))) \<and>
   (isConnected s = Inr True \<and> ws s = Ws_object t \<and>
    (JSON_stringify pf (subscribe_message (generateSubscriptionId now r1) now r2 req) = None \<or>
     (\<exists>d. JSON_stringify pf (subscribe_message (generateSubscriptionId now r1) now r2 req) = Some d \<and>
          send_throws pf (tid t) d)) \<longrightarrow>
      subscribe pf now r1 r2 req s = Inl SendFailed \<and>
      step pf (Ev_subscribe now r1 r2 req) s = Some s)"
proof -
  define sid where "sid = generateSubscriptionId now r1"
  define msg where "msg = subscribe_message sid now r2 req"
  have sub: "subscribe pf now r1 r2 req s =
      (case sendMessage pf msg s of
         Inl e \<Rightarrow> Inl e
       | Inr s1 \<Rightarrow> Inr (sid, register_subscription sid (new_subscription sid now req) s1))"
    unfolding sid_def msg_def by (simp add: subscribe_def Let_def)
  have a: "msg_type msg = SUBSCRIBE"
    "payload msg = Some \<lparr>subscriptionId = Some sid, request = Some req,
           ping_timestamp = None, data = None\<rparr>"
    "active (new_subscription sid now req)"
    by (simp_all add: msg_def subscribe_message_def new_subscription_def)
  have b: "\<exists>s'. subscribe pf now r1 r2 req s = Inr (sid, s') \<and>
            last (messageQueue s') = msg \<and> messageQueue s' \<noteq> [] \<and> trace s' = trace s \<and>
            subscriptions s' = AList.update sid (next_ref s) (subscriptions s) \<and>
            heap s' = (heap s)(next_ref s \<mapsto> new_subscription sid now req) \<and>
            lookup s' sid = Some (new_subscription sid now req)"
    if "isConnected s = Inr False"
    using that queueMessage_end[of msg s]
    by (simp add: sub sendMessage_queued register_subscription_fields queueMessage_fields)
  have c: "\<exists>s'. subscribe pf now r1 r2 req s = Inr (sid, s') \<and>
            trace s' = trace s @ [Ws_send (tid t) d] \<and> messageQueue s' = messageQueue s \<and>
            subscriptions s' = AList.update sid (next_ref s) (subscriptions s) \<and>
            heap s' = (heap s)(next_ref s \<mapsto> new_subscription sid now req) \<and>
            lookup s' sid = Some (new_subscription sid now req)"
    if "isConnected s = Inr True" "ws s = Ws_object t" "JSON_stringify pf msg = Some d"
      "\<not> send_throws pf (tid t) d"
    by (simp add: sub sendMessage_sent[OF that] register_subscription_fields emit_def)
  have d: "subscribe pf now r1 r2 req s = Inl SendFailed \<and>
      step pf (Ev_subscribe now r1 r2 req) s = Some s"
    if "isConnected s = Inr True" "ws s = Ws_object t"
      "JSON_stringify pf msg = None \<or> (\<exists>d. JSON_stringify pf msg = Some d \<and> send_throws pf (tid t) d)"
    by (simp add: sub sendMessage_failed[OF that])
  have e: "sid = generateSubscriptionId now' r1' \<longleftrightarrow> now = now' \<and> r1 = r1'"
    unfolding sid_def using generateSubscriptionId_inj by blast
  from a b c d e show ?thesis unfolding sid_def[symmetric] msg_def[symmetric] by blast
qed


lemma example_connecting_fields:
  "ws example_connecting = Ws_object \<lparr>tid = 1, readyState = RS_CONNECTING\<rparr>"
  "messageQueue example_connecting = []" "trace example_connecting = []"
  "config example_connecting = example_config" "subscriptions example_connecting = []"
  "heap example_connecting = Map.empty" "next_ref example_connecting = 0"
  by (simp_all add: example_connecting_eq constructor_fields)

text \<open>
  The three cases at time 7 with draws a and b: the manager whose transport is not open
  yet (queued), the connected example manager (sent), and the connected manager with a
  request that cannot be serialised (rejected).
\<close>

theorem subscribe_records_after_send_witness:
  "isConnected example_connecting = Inr False \<and>
   (\<exists>s'. subscribe example_platform 7 ''a'' ''b'' wallet_request example_connecting
            = Inr (''sub_7_a'', s') \<and>
         last (messageQueue s') = subscribe_message ''sub_7_a'' 7 ''b'' wallet_request \<and>
         subscriptions s' = [(''sub_7_a'', 0)] \<and>
         lookup s' ''sub_7_a'' =
           Some \<lparr>sub_id = ''sub_7_a'', sub_channel = ''wallet'', active = True, createdAt = 7,
                 lastMessage = None, messageCount = 0, errorCount = 0\<rparr>) \<and>
   isConnected example_connected = Inr True \<and>
   (\<exists>s'. subscribe example_platform 7 ''a'' ''b'' wallet_request example_connected
            = Inr (''sub_7_a'', s') \<and>
         trace s' = [Log_connected, Ws_send 1 ''msg_7_b''] \<and>
         subscriptions s' = [(''sub_7_a'', 0)] \<and>
         lookup s' ''sub_7_a'' =
           Some \<lparr>sub_id = ''sub_7_a'', sub_channel = ''wallet'', active = True, createdAt = 7,
                 lastMessage = None, messageCount = 0, errorCount = 0\<rparr>) \<and>
   subscribe bigint_platform 7 ''a'' ''b'' bigint_request example_connected = Inl SendFailed"
proof -
  have h1: "isConnected example_connecting = Inr False"
    by (simp add: isConnected_def example_connecting_fields)
  have h2: "isConnected example_connected = Inr True"
    "ws example_connected = Ws_object \<lparr>tid = 1, readyState = RS_OPEN\<rparr>"
    by (simp_all add: example_connected_fields isConnected_def)
  have h3: "JSON_stringify example_platform
      (subscribe_message (generateSubscriptionId 7 ''a'') 7 ''b'' wallet_request) = Some ''msg_7_b''"
    by (simp add: example_platform_def subscribe_message_def example_ids)
  have h4: "\<not> send_throws example_platform (tid \<lparr>tid = 1, readyState = RS_OPEN\<rparr>) ''msg_7_b''"
    by (simp add: example_platform_def)
  have h5: "JSON_stringify bigint_platform
      (subscribe_message (generateSubscriptionId 7 ''a'') 7 ''b'' bigint_request) = None"
    by (simp add: bigint_platform_def subscribe_message_def)
  note t1 = subscribe_records_after_send
      [where now = 7 and ?r1.0 = "''a''" and ?r2.0 = "''b''" and now' = 7 and r1' = "''a''"
         and req = wallet_request and s = example_connecting and pf = example_platform]
  note t2 = subscribe_records_after_send
      [where now = 7 and ?r1.0 = "''a''" and ?r2.0 = "''b''" and now' = 7 and r1' = "''a''"
         and req = wallet_request and s = example_connected
         and t = "\<lparr>tid = 1, readyState = RS_OPEN\<rparr>"
         and pf = example_platform and d = "''msg_7_b''"]
  note t3 = subscribe_records_after_send
      [where now = 7 and ?r1.0 = "''a''" and ?r2.0 = "''b''" and now' = 7 and r1' = "''a''"
         and req = bigint_request and s = example_connected
         and t = "\<lparr>tid = 1, readyState = RS_OPEN\<rparr>" and pf = bigint_platform]
  have a: "\<exists>s'. subscribe example_platform 7 ''a'' ''b'' wallet_request example_connecting
            = Inr (''sub_7_a'', s') \<and>
         last (messageQueue s') = subscribe_message ''sub_7_a'' 7 ''b'' wallet_request \<and>
         subscriptions s' = [(''sub_7_a'', 0)] \<and>
         lookup s' ''sub_7_a'' =
           Some \<lparr>sub_id = ''sub_7_a'', sub_channel = ''wallet'', active = True, createdAt = 7,
                 lastMessage = None, messageCount = 0, errorCount = 0\<rparr>"
  proof -
    from t1 h1 obtain s' where
      "subscribe example_platform 7 ''a'' ''b'' wallet_request example_connecting
         = Inr (generateSubscriptionId 7 ''a'', s')"
      "last (messageQueue s') = subscribe_message (generateSubscriptionId 7 ''a'') 7 ''b'' wallet_request"
      "subscriptions s' = AList.update (generateSubscriptionId 7 ''a'') (next_ref example_connecting)
          (subscriptions example_connecting)"
      "lookup s' (generateSubscriptionId 7 ''a'') =
          Some (new_subscription (generateSubscriptionId 7 ''a'') 7 wallet_request)"
      by blast
    then show ?thesis
      by (simp add: example_ids new_subscription_def wallet_request_def example_connecting_fields)
  qed
  have b: "\<exists>s'. subscribe example_platform 7 ''a'' ''b'' wallet_request example_connected
            = Inr (''sub_7_a'', s') \<and>
         trace s' = [Log_connected, Ws_send 1 ''msg_7_b''] \<and>
         subscriptions s' = [(''sub_7_a'', 0)] \<and>
         lookup s' ''sub_7_a'' =
           Some \<lparr>sub_id = ''sub_7_a'', sub_channel = ''wallet'', active = True, createdAt = 7,
                 lastMessage = None, messageCount = 0, errorCount = 0\<rparr>"
  proof -
    from t2 h2 h3 h4 obtain s' where
      "subscribe example_platform 7 ''a'' ''b'' wallet_request example_connected
         = Inr (generateSubscriptionId 7 ''a'', s')"
      "trace s' = trace example_connected @ [Ws_send (tid \<lparr>tid = 1, readyState = RS_OPEN\<rparr>) ''msg_7_b'']"
      "subscriptions s' = AList.update (generateSubscriptionId 7 ''a'') (next_ref example_connected)
          (subscriptions example_connected)"
      "lookup s' (generateSubscriptionId 7 ''a'') =
          Some (new_subscription (generateSubscriptionId 7 ''a'') 7 wallet_request)"
      by blast
    then show ?thesis
      by (simp add: example_ids new_subscription_def wallet_request_def example_connected_fields)
  qed
  have c: "subscribe bigint_platform 7 ''a'' ''b'' bigint_request example_connected = Inl SendFailed"
    using t3 h2 h5 by blast
  from h1 a h2(1) b c show ?thesis by blast
qed

text \<open>
  Claim C3 as it is stated fails in three ways. Regardless of whether the send fails: on
  the connected example manager a request that \<^verbatim>\<open>JSON.stringify\<close> rejects makes
  \<^verbatim>\<open>subscribe\<close> fail; the state is unchanged and its registry is still empty. Regardless
  of whether the connection is open: on a new manager, whose \<^verbatim>\<open>ws\<close> is still
  \<^verbatim>\<open>undefined\<close>, \<^verbatim>\<open>subscribe\<close> fails with a TypeError and records nothing. A fresh
  identifier: a second call with the clock value 7 and the draw a on the subscribed
  example manager returns \<^verbatim>\<open>sub_7_a\<close> again, and the registry then holds one entry, bound
  to the new object.
\<close>

theorem subscribe_send_failure_counterexample:
  "isConnected example_connected = Inr True \<and>
   subscribe bigint_platform 7 ''a'' ''b'' bigint_request example_connected = Inl SendFailed \<and>
   step bigint_platform (Ev_subscribe 7 ''a'' ''b'' bigint_request) example_connected
     = Some example_connected \<and>
   subscriptions example_connected = [] \<and>
   subscribe example_platform 7 ''a'' ''b'' wallet_request (constructor example_config)
     = Inl TypeError \<and>
   subscriptions (constructor example_config) = [] \<and>
   subscriptions example_subscribed = [(''sub_7_a'', 0)] \<and>
   map_sum id fst (subscribe example_platform 7 ''a'' ''c'' wallet_request example_subscribed)
     = Inr ''sub_7_a'' \<and>
   map_option subscriptions
     (step example_platform (Ev_subscribe 7 ''a'' ''c'' wallet_request) example_subscribed)
     = Some [(''sub_7_a'', 1)]"
proof -
  have h2: "isConnected example_connected = Inr True"
    by (simp add: example_connected_fields isConnected_def)
  have c: "subscribe bigint_platform 7 ''a'' ''b'' bigint_request example_connected = Inl SendFailed"
    using h2
    by (simp add: subscribe_def Let_def sendMessage_def bigint_platform_def subscribe_message_def
        example_connected_fields)
  have d: "subscriptions example_connected = []"
    by (simp add: example_connected_fields)
  have e: "subscribe example_platform 7 ''a'' ''b'' wallet_request (constructor example_config)
     = Inl TypeError"
    by (simp add: subscribe_def Let_def sendMessage_undefined constructor_fields)
  have f: "subscribe example_platform 7 ''a'' ''c'' wallet_request example_subscribed
     = Inr (''sub_7_a'', register_subscription ''sub_7_a'' (new_subscription ''sub_7_a'' 7 wallet_request)
         ((emit (Ws_send 1 ''msg_7_c'') example_subscribed)
            \<lparr>stats := (stats example_subscribed)\<lparr>messagesSent := 2, bytesSent := 14\<rparr>\<rparr>))"
    by (simp add: subscribe_def Let_def sendMessage_def isConnected_def example_subscribed_fields
        example_ids subscribe_message_def example_platform_def generateMessageId_def
        show_int_def digits.simps digit_char_def initialStats_def)
  from h2 c d e f show ?thesis
    by (simp add: constructor_fields example_subscribed_fields register_subscription_def emit_def)
qed


lemma markInactive_fields:
  "heap (markInactive r s) = (heap s)(r := map_option (\<lambda>sub. sub\<lparr>active := False\<rparr>) (heap s r))"
  "subscriptions (markInactive r s) = subscriptions s"
  "trace (markInactive r s) = trace s" "messageQueue (markInactive r s) = messageQueue s"
  by (simp_all add: markInactive_def update_object_def)

lemma deleteSubscription_fields:
  "subscriptions (deleteSubscription sid s) = AList.delete sid (subscriptions s)"
  "heap (deleteSubscription sid s) = heap s"
  "trace (deleteSubscription sid s) = trace s"
  "messageQueue (deleteSubscription sid s) = messageQueue s"
  by (simp_all add: deleteSubscription_def)

text \<open>
  Claim C9, amended. \<^verbatim>\<open>unsubscribe\<close> fails with NotFound exactly when the identifier is
  not a key of the registry, and then the state is unchanged. When the identifier is
  present, the UNSUBSCRIBE envelope carrying it goes through \<^verbatim>\<open>sendMessage\<close>. When that
  is rejected, \<^verbatim>\<open>unsubscribe\<close> is rejected with the same error and the state is unchanged:
  the subscription stays registered and its object untouched. When it has resolved (the
  envelope queued when the connection is not open, sent on the transport when it is),
  the object that was registered is marked inactive, while it is still registered, and
  then its key is deleted from the registry; the object itself stays inactive for
  whoever holds it.
\<close>

theorem unsubscribe_not_found_iff_absent:
  "((\<exists>e. unsubscribe pf now rnd sid s = Inl (NotFound e)) \<longleftrightarrow> map_of (subscriptions s) sid = None) \<and>
   (map_of (subscriptions s) sid = None \<longrightarrow>
      unsubscribe pf now rnd sid s = Inl (NotFound sid) \<and>
      step pf (Ev_unsubscribe now rnd sid) s = Some s) \<and>
   msg_type (unsubscribe_message sid now rnd) = UNSUBSCRIBE \<and>
   truthy_subscriptionId (unsubscribe_message sid now rnd) = (if sid = [] then None else Some sid) \<and>
   (map_of (subscriptions s) sid = Some r \<and>
    sendMessage pf (unsubscribe_message sid now rnd) s = Inl err \<longrightarrow>
      unsubscribe pf now rnd sid s = Inl err \<and>
      step pf (Ev_unsubscribe now rnd sid) s = Some s) \<and>
   (map_of (subscriptions s) sid = Some r \<and>
    sendMessage pf (unsubscribe_message sid now rnd) s = Inr s1 \<longrightarrow>
      unsubscribe pf now rnd sid s = Inr (deleteSubscription sid (markInactive r s1)) \<and>
      heap (markInactive r s1) r = map_option (\<lambda>sub. sub\<lparr>active := False\<rparr>) (heap s r) \<and>
      map_of (subscriptions (markInactive r s1)) sid = Some r \<and>
      heap (deleteSubscription sid (markInactive r s1)) =
        (heap s)(r := map_option (\<lambda>sub. sub\<lparr>active := False\<rparr>) (heap s r)) \<and>
      subscriptions (deleteSubscription sid (markInactive r s1)) =
        AList.delete sid (subscriptions s) \<and>
      map_of (subscriptions (deleteSubscription sid (markInactive r s1))) sid = None) \<and>
   (map_of (subscriptions s) sid = Some r \<and> isConnected s = Inr False \<longrightarrow>
      (\<exists>s'. unsubscribe pf now rnd sid s = Inr s' \<and>
            messageQueue s' \<noteq> [] \<and> last (messageQueue s') = unsubscribe_message sid now rnd \<and>
            trace s' = trace s \<and>
            subscriptions s' = AList.delete sid (subscriptions s) \<and>
            heap s' = (heap s)(r := map_option (\<lambda>sub. sub\<lparr>active := False\<rparr>) (heap s r)))) \<and>
   (map_of (subscriptions s) sid = Some r \<and> isConnected s = Inr True \<and> ws s = Ws_object t \<and>
    JSON_stringify pf (unsubscribe_message sid now rnd) = Some d \<and> \<not> send_throws pf (tid t) d \<longrightarrow>
      (\<exists>s'. unsubscribe pf now rnd sid s = Inr s' \<and>
            trace s' = trace s @ [Ws_send (tid t) d] \<and>
            subscriptions s' = AList.delete sid (subscriptions s) \<and>
            heap s' = (heap s)(r := map_option (\<lambda>sub. sub\<lparr>active := False\<rparr>) (heap s r))))"
proof -
  define msg where "msg = unsubscribe_message sid now rnd"
  have un: "unsubscribe pf now rnd sid s =
      (case map_of (subscriptions s) sid of
         None \<Rightarrow> Inl (NotFound sid)
       | Some subscription \<Rightarrow>
           (case sendMessage pf msg s of
              Inl e \<Rightarrow> Inl e
            | Inr s1 \<Rightarrow> Inr (deleteSubscription sid (markInactive subscription s1))))"
    unfolding msg_def by (simp add: unsubscribe_def Let_def split: option.splits)
  have a: "(\<exists>e. unsubscribe pf now rnd sid s = Inl (NotFound e)) \<longleftrightarrow> map_of (subscriptions s) sid = None"
    using sendMessage_errors[of pf msg s] by (auto simp add: un split: option.splits sum.splits)
  have b: "unsubscribe pf now rnd sid s = Inl (NotFound sid) \<and>
      step pf (Ev_unsubscribe now rnd sid) s = Some s" if "map_of (subscriptions s) sid = None"
    using that by (simp add: un)
  have c: "msg_type msg = UNSUBSCRIBE" "truthy_subscriptionId msg = (if sid = [] then None else Some sid)"
    by (simp_all add: msg_def unsubscribe_message_def truthy_subscriptionId_def)
  have rej: "unsubscribe pf now rnd sid s = Inl err \<and>
      step pf (Ev_unsubscribe now rnd sid) s = Some s"
    if "map_of (subscriptions s) sid = Some r" "sendMessage pf msg s = Inl err"
    using that by (simp add: un)
  have d: "unsubscribe pf now rnd sid s = Inr (deleteSubscription sid (markInactive r s1)) \<and>
      heap (markInactive r s1) r = map_option (\<lambda>sub. sub\<lparr>active := False\<rparr>) (heap s r) \<and>
      map_of (subscriptions (markInactive r s1)) sid = Some r \<and>
      heap (deleteSubscription sid (markInactive r s1)) =
        (heap s)(r := map_option (\<lambda>sub. sub\<lparr>active := False\<rparr>) (heap s r)) \<and>
      subscriptions (deleteSubscription sid (markInactive r s1)) =
        AList.delete sid (subscriptions s) \<and>
      map_of (subscriptions (deleteSubscription sid (markInactive r s1))) sid = None"
    if "map_of (subscriptions s) sid = Some r" "sendMessage pf msg s = Inr s1" for s1
    using that sendMessage_registry[OF that(2)]
    by (simp add: un markInactive_fields deleteSubscription_fields delete_conv')
  have e: "\<exists>s'. unsubscribe pf now rnd sid s = Inr s' \<and>
            messageQueue s' \<noteq> [] \<and> last (messageQueue s') = msg \<and> trace s' = trace s \<and>
            subscriptions s' = AList.delete sid (subscriptions s) \<and>
            heap s' = (heap s)(r := map_option (\<lambda>sub. sub\<lparr>active := False\<rparr>) (heap s r))"
    if "map_of (subscriptions s) sid = Some r" "isConnected s = Inr False"
    using d[OF that(1) sendMessage_queued[OF that(2)]] queueMessage_end[of msg s]
    by (simp add: markInactive_fields deleteSubscription_fields queueMessage_fields)
  have f: "\<exists>s'. unsubscribe pf now rnd sid s = Inr s' \<and>
            trace s' = trace s @ [Ws_send (tid t) d] \<and>
            subscriptions s' = AList.delete sid (subscriptions s) \<and>
            heap s' = (heap s)(r := map_option (\<lambda>sub. sub\<lparr>active := False\<rparr>) (heap s r))"
    if "map_of (subscriptions s) sid = Some r" "isConnected s = Inr True" "ws s = Ws_object t"
      "JSON_stringify pf msg = Some d" "\<not> send_throws pf (tid t) d"
    using d[OF that(1) sendMessage_sent[OF that(2-5)]]
    by (simp add: markInactive_fields deleteSubscription_fields emit_def)
  from a b c rej d e f show ?thesis unfolding msg_def[symmetric] by blast
qed

lemma example_closing_fields:
  "ws example_closing = Ws_object \<lparr>tid = 1, readyState = RS_CLOSING\<rparr>"
  "subscriptions example_closing = [(''sub_7_a'', 0)]"
  "heap example_closing = heap example_subscribed"
  "trace example_closing = [Log_connected, Ws_send 1 ''msg_7_b'']"
  "messageQueue example_closing = []"
  "config example_closing = example_config"
  by (simp_all add: example_closing_def set_readyState_def example_subscribed_fields)

text \<open>
  On the subscribed example manager: an unknown identifier is rejected with NotFound; the
  known one is unsubscribed, with the envelope sent on transport 1, the registry left
  empty and the object left inactive. On the same manager once its transport is closing,
  the envelope is queued. When the transport's send throws, the call is rejected.
\<close>

theorem unsubscribe_not_found_iff_absent_witness:
  "map_of (subscriptions example_subscribed) ''sub_0_x'' = None \<and>
   unsubscribe example_platform 9 ''c'' ''sub_0_x'' example_subscribed = Inl (NotFound ''sub_0_x'') \<and>
   map_of (subscriptions example_subscribed) ''sub_7_a'' = Some 0 \<and>
   isConnected example_subscribed = Inr True \<and>
   (\<exists>s'. unsubscribe example_platform 9 ''c'' ''sub_7_a'' example_subscribed = Inr s' \<and>
         trace s' = [Log_connected, Ws_send 1 ''msg_7_b'', Ws_send 1 ''msg_9_c''] \<and>
         subscriptions s' = [] \<and>
         heap s' 0 = Some \<lparr>sub_id = ''sub_7_a'', sub_channel = ''wallet'', active = False,
            createdAt = 7, lastMessage = None, messageCount = 0, errorCount = 0\<rparr>) \<and>
   isConnected example_closing = Inr False \<and>
   (\<exists>s'. unsubscribe example_platform 9 ''c'' ''sub_7_a'' example_closing = Inr s' \<and>
         last (messageQueue s') = unsubscribe_message ''sub_7_a'' 9 ''c'' \<and>
         trace s' = [Log_connected, Ws_send 1 ''msg_7_b''] \<and>
         subscriptions s' = []) \<and>
   sendMessage failing_platform (unsubscribe_message ''sub_7_a'' 9 ''c'') example_subscribed
     = Inl SendFailed \<and>
   unsubscribe failing_platform 9 ''c'' ''sub_7_a'' example_subscribed = Inl SendFailed"
proof -
  have h0: "map_of (subscriptions example_subscribed) ''sub_0_x'' = None"
    by (simp add: example_subscribed_fields)
  have h1: "map_of (subscriptions example_subscribed) ''sub_7_a'' = Some 0"
    by (simp add: example_subscribed_fields)
  have h1c: "map_of (subscriptions example_closing) ''sub_7_a'' = Some 0"
    by (simp add: example_closing_fields)
  have h2: "isConnected example_subscribed = Inr True"
    "ws example_subscribed = Ws_object \<lparr>tid = 1, readyState = RS_OPEN\<rparr>"
    by (simp_all add: example_subscribed_fields isConnected_def)
  have h2c: "isConnected example_closing = Inr False"
    by (simp add: example_closing_fields isConnected_def)
  have h3: "JSON_stringify example_platform (unsubscribe_message ''sub_7_a'' 9 ''c'') = Some ''msg_9_c''"
    by (simp add: example_platform_def unsubscribe_message_def example_ids)
  have h4: "\<not> send_throws example_platform (tid \<lparr>tid = 1, readyState = RS_OPEN\<rparr>) ''msg_9_c''"
    by (simp add: example_platform_def)
  have h5: "sendMessage failing_platform (unsubscribe_message ''sub_7_a'' 9 ''c'') example_subscribed
     = Inl SendFailed"
    by (simp add: sendMessage_def isConnected_def example_subscribed_fields failing_platform_def
        example_platform_def)
  note t1 = unsubscribe_not_found_iff_absent
      [where pf = example_platform and now = 9 and rnd = "''c''" and sid = "''sub_0_x''"
         and s = example_subscribed]
  note t2 = unsubscribe_not_found_iff_absent
      [where pf = example_platform and now = 9 and rnd = "''c''" and sid = "''sub_7_a''"
         and s = example_subscribed and r = 0 and t = "\<lparr>tid = 1, readyState = RS_OPEN\<rparr>"
         and d = "''msg_9_c''"]
  note t3 = unsubscribe_not_found_iff_absent
      [where pf = example_platform and now = 9 and rnd = "''c''" and sid = "''sub_7_a''"
         and s = example_closing and r = 0]
  note t4 = unsubscribe_not_found_iff_absent
      [where pf = failing_platform and now = 9 and rnd = "''c''" and sid = "''sub_7_a''"
         and s = example_subscribed and r = 0 and err = SendFailed]
  have a: "unsubscribe example_platform 9 ''c'' ''sub_0_x'' example_subscribed = Inl (NotFound ''sub_0_x'')"
    using t1 h0 by blast
  from t2 h1 h2 h3 h4 obtain s' where
    "unsubscribe example_platform 9 ''c'' ''sub_7_a'' example_subscribed = Inr s'"
    "trace s' = trace example_subscribed @ [Ws_send (tid \<lparr>tid = 1, readyState = RS_OPEN\<rparr>) ''msg_9_c'']"
    "subscriptions s' = AList.delete ''sub_7_a'' (subscriptions example_subscribed)"
    "heap s' = (heap example_subscribed)(0 := map_option (\<lambda>sub. sub\<lparr>active := False\<rparr>)
        (heap example_subscribed 0))"
    by blast
  then have b: "\<exists>s'. unsubscribe example_platform 9 ''c'' ''sub_7_a'' example_subscribed = Inr s' \<and>
         trace s' = [Log_connected, Ws_send 1 ''msg_7_b'', Ws_send 1 ''msg_9_c''] \<and>
         subscriptions s' = [] \<and>
         heap s' 0 = Some \<lparr>sub_id = ''sub_7_a'', sub_channel = ''wallet'', active = False,
            createdAt = 7, lastMessage = None, messageCount = 0, errorCount = 0\<rparr>"
    by (simp add: example_subscribed_fields)
  from t3 h1c h2c obtain s'' where
    "unsubscribe example_platform 9 ''c'' ''sub_7_a'' example_closing = Inr s''"
    "last (messageQueue s'') = unsubscribe_message ''sub_7_a'' 9 ''c''"
    "trace s'' = trace example_closing"
    "subscriptions s'' = AList.delete ''sub_7_a'' (subscriptions example_closing)"
    by blast
  then have c: "\<exists>s'. unsubscribe example_platform 9 ''c'' ''sub_7_a'' example_closing = Inr s' \<and>
         last (messageQueue s') = unsubscribe_message ''sub_7_a'' 9 ''c'' \<and>
         trace s' = [Log_connected, Ws_send 1 ''msg_7_b''] \<and>
         subscriptions s' = []"
    by (simp add: example_closing_fields)
  have d: "unsubscribe failing_platform 9 ''c'' ''sub_7_a'' example_subscribed = Inl SendFailed"
    using t4 h1 h5 by blast
  from h0 a h1 h2(1) b h2c c h5 d show ?thesis by blast
qed

text \<open>
  Claim C9 as it is stated fails when the identifier is present and the send is
  rejected: on the subscribed example manager with a transport whose \<^verbatim>\<open>send\<close> throws,
  \<^verbatim>\<open>unsubscribe\<close> is rejected, the state is unchanged, and the subscription is still
  registered and active. And on the manager whose transport is closing the envelope is
  not sent but queued.
\<close>

theorem unsubscribe_send_failure_counterexample:
  "map_of (subscriptions example_subscribed) ''sub_7_a'' = Some 0 \<and>
   unsubscribe failing_platform 9 ''c'' ''sub_7_a'' example_subscribed = Inl SendFailed \<and>
   step failing_platform (Ev_unsubscribe 9 ''c'' ''sub_7_a'') example_subscribed
     = Some example_subscribed \<and>
   map_option active (lookup example_subscribed ''sub_7_a'') = Some True \<and>
   map_option trace (step example_platform (Ev_unsubscribe 9 ''c'' ''sub_7_a'') example_closing)
     = Some (trace example_closing) \<and>
   map_option messageQueue (step example_platform (Ev_unsubscribe 9 ''c'' ''sub_7_a'') example_closing)
     = Some [unsubscribe_message ''sub_7_a'' 9 ''c'']"
proof -
  have a: "unsubscribe failing_platform 9 ''c'' ''sub_7_a'' example_subscribed = Inl SendFailed"
    by (simp add: unsubscribe_def Let_def sendMessage_def isConnected_def
        example_subscribed_fields failing_platform_def example_platform_def)
  have b: "unsubscribe example_platform 9 ''c'' ''sub_7_a'' example_closing
      = Inr (deleteSubscription ''sub_7_a'' (markInactive 0
          (queueMessage (unsubscribe_message ''sub_7_a'' 9 ''c'') example_closing)))"
    by (simp add: unsubscribe_def Let_def sendMessage_def isConnected_def example_closing_fields)
  from a b show ?thesis
    by (simp add: example_subscribed_fields lookup_def example_closing_fields
        deleteSubscription_fields markInactive_fields queueMessage_def Let_def example_config_def)
qed

subsection \<open>Dispatch\<close>

lemma handlers_for_onMessage:
  "handlers_for (onMessage ty h s) ty' =
     (if ty' = ty then handlers_for s ty @ [h] else handlers_for s ty')"
  by (simp add: handlers_for_def onMessage_def Let_def)

lemma same_counters_refl: "same_counters s s"
  by (simp add: same_counters_def)

lemma same_counters_trans: "same_counters a b \<Longrightarrow> same_counters b c \<Longrightarrow> same_counters a c"
  by (simp add: same_counters_def)

lemma same_counters_emit: "same_counters s (emit e s)"
  by (simp add: same_counters_def emit_def)

lemma same_counters_sendMessage:
  "sendMessage pf m s = Inr s1 \<Longrightarrow> same_counters s s1"
  by (auto simp add: sendMessage_def queueMessage_fields emit_def same_counters_def
      split: sum.splits if_splits option.splits ws_ref.splits)

lemma same_counters_fire_and_forget:
  "same_counters s (fire_and_forget (sendMessage pf m s) s)"
  using same_counters_sendMessage[of pf m s]
  by (cases "sendMessage pf m s") (simp_all add: fire_and_forget_def same_counters_emit)

lemma same_counters_handleErrorMessage: "same_counters s (handleErrorMessage m s)"
  by (auto simp add: handleErrorMessage_def Let_def emit_def update_object_def same_counters_def
      fun_eq_iff option.map_comp comp_def split: option.splits)

lemma same_counters_invoke:
  "same_counters s (snd (invoke pf now rnd h m s))"
proof -
  let ?e = "emit (Handler_invoked (name_of h) m) s"
  have e: "same_counters s ?e" by (rule same_counters_emit)
  have "same_counters ?e (snd (handler_body pf now rnd h m ?e))"
  proof (cases h)
    case SendPongHandler
    then show ?thesis by (simp add: sendPong_def Let_def same_counters_fire_and_forget)
  next
    case ErrorMessageHandler
    then show ?thesis by (simp add: same_counters_handleErrorMessage)
  next
    case AcknowledgmentHandler
    then show ?thesis by (simp add: handleAcknowledgment_def same_counters_emit)
  next
    case (LatencyHandler t)
    then show ?thesis by (simp add: same_counters_def)
  next
    case (External n thr)
    then show ?thesis by (simp add: same_counters_refl)
  qed
  with e show ?thesis unfolding invoke_def by (rule same_counters_trans)
qed

lemma same_counters_forEach:
  "same_counters s (snd (forEach_handlers pf now rnd hs m s))"
proof (induction hs arbitrary: s)
  case Nil
  then show ?case by (simp add: same_counters_refl)
next
  case (Cons h hs)
  obtain r0 s0 where i: "invoke pf now rnd h m s = (r0, s0)" by (cases "invoke pf now rnd h m s")
  from same_counters_invoke[of s pf now rnd h m] i have a: "same_counters s s0" by simp
  show ?case
  proof (cases r0)
    case None
    with i same_counters_trans[OF a Cons.IH[of s0]] show ?thesis by simp
  next
    case (Some e)
    with i a show ?thesis by simp
  qed
qed

lemma forEach_append:
  "forEach_handlers pf now rnd (hs @ hs') m s =
     (case forEach_handlers pf now rnd hs m s of
        (Some e, s1) \<Rightarrow> (Some e, s1)
      | (None, s1) \<Rightarrow> forEach_handlers pf now rnd hs' m s1)"
  by (induction hs arbitrary: s) (auto split: prod.splits option.splits)

lemma invoke_returns:
  "fst (invoke pf now rnd h m s) = (if throws h m then Some (HandlerThrew (case h of External n thr \<Rightarrow> n | _ \<Rightarrow> 0)) else None)"
  by (cases h) (simp_all add: invoke_def)

lemma forEach_quiet:
  "\<forall>h \<in> set hs. \<not> throws h m \<Longrightarrow> fst (forEach_handlers pf now rnd hs m s) = None"
proof (induction hs arbitrary: s)
  case Nil
  then show ?case by simp
next
  case (Cons h hs)
  obtain r0 s0 where i: "invoke pf now rnd h m s = (r0, s0)" by (cases "invoke pf now rnd h m s")
  from invoke_returns[of pf now rnd h m s] i Cons.prems have "r0 = None" by simp
  with i Cons.IH[of s0] Cons.prems show ?case by simp
qed

lemma count_message_fields:
  "trace (count_message now len m s) = trace s"
  "messageHandlers (count_message now len m s) = messageHandlers s"
  "subscriptionCallbacks (count_message now len m s) = subscriptionCallbacks s"
  "subscriptions (count_message now len m s) = subscriptions s"
  "messagesReceived (stats (count_message now len m s)) = messagesReceived (stats s) + 1"
  "bytesReceived (stats (count_message now len m s)) = bytesReceived (stats s) + int len"
  "latency (stats (count_message now len m s)) = latency (stats s)"
  by (simp_all add: count_message_def Let_def update_object_fields split: option.splits)


text \<open>
  The core of \<^verbatim>\<open>handleMessage\<close> when a handler throws: the handlers before it run, the
  throwing one is called, and the \<^verbatim>\<open>catch\<close> logs; nothing else happens.
\<close>

lemma handleMessage_throwing:
  assumes "JSON_parse pf d = ParsedMessage m"
    and "messageHandlers s (msg_type m) = Some (hs0 @ External n thr # hs)"
    and "thr m" and "\<forall>h \<in> set hs0. \<not> throws h m"
  shows "handleMessage pf now rnd d s =
     emit Error_handling_message
       (emit (Handler_invoked (H_external n) m)
          (snd (forEach_handlers pf now rnd hs0 m (count_message now (length d) m s))))"
proof -
  let ?c = "count_message now (length d) m s"
  obtain s1 where f0: "forEach_handlers pf now rnd hs0 m ?c = (None, s1)"
    using forEach_quiet[OF assms(4), of pf now rnd ?c]
    by (cases "forEach_handlers pf now rnd hs0 m ?c") auto
  have fe: "forEach_handlers pf now rnd (hs0 @ External n thr # hs) m ?c =
      (Some (HandlerThrew n), emit (Handler_invoked (H_external n) m) s1)"
    using assms(3) by (simp add: forEach_append f0 invoke_def)
  have di: "dispatch pf now rnd (length d) m s =
      (Some (HandlerThrew n), emit (Handler_invoked (H_external n) m) s1)"
    using fe by (simp add: dispatch_def Let_def count_message_fields assms(2))
  show ?thesis by (simp add: handleMessage_def assms(1) di f0)
qed








subsection \<open>Handlers of PONG\<close>

lemma latency_times_append:
  "latency_times (hs @ hs') = latency_times hs @ latency_times hs'"
  by (induction hs rule: latency_times.induct) simp_all

lemma latency_times_map: "latency_times (map LatencyHandler ts) = ts"
  by (induction ts) simp_all

lemma sendMessage_handlers:
  "sendMessage pf m s = Inr s1 \<Longrightarrow> messageHandlers s1 = messageHandlers s"
  using same_counters_sendMessage[of pf m s s1] by (simp add: same_counters_def)

lemma forEach_handlers_handlers:
  "messageHandlers (snd (forEach_handlers pf now rnd hs m s)) = messageHandlers s"
  using same_counters_forEach[of s pf now rnd hs m] by (simp add: same_counters_def)

lemma dispatch_handlers:
  "messageHandlers (snd (dispatch pf now rnd len m s)) = messageHandlers s"
proof -
  let ?c = "count_message now len m s"
  let ?hs = "case messageHandlers ?c (msg_type m) of None \<Rightarrow> [] | Some hs \<Rightarrow> hs"
  obtain r s3 where f: "forEach_handlers pf now rnd ?hs m ?c = (r, s3)"
    by (cases "forEach_handlers pf now rnd ?hs m ?c")
  from forEach_handlers_handlers[of pf now rnd ?hs m ?c] f
  have a: "messageHandlers s3 = messageHandlers s" by (simp add: count_message_fields)
  have cb: "messageHandlers (snd (invoke_callback cb d s3)) = messageHandlers s3" for cb d
    by (cases cb) (simp add: invoke_callback_def emit_def Let_def)
  show ?thesis
    using f a cb
    by (cases r) (auto simp add: dispatch_def Let_def split: option.splits)
qed

lemma handleMessage_handlers:
  "messageHandlers (handleMessage pf now rnd d s) = messageHandlers s"
proof (cases "JSON_parse pf d")
  case ParseThrows
  then show ?thesis by (simp add: handleMessage_def emit_def)
next
  case ParsedNull
  then show ?thesis by (simp add: handleMessage_def emit_def)
next
  case (ParsedMessage m)
  obtain r s1 where di: "dispatch pf now rnd (length d) m s = (r, s1)"
    by (cases "dispatch pf now rnd (length d) m s")
  from dispatch_handlers[of pf now rnd "length d" m s] di
  have "messageHandlers s1 = messageHandlers s" by simp
  with ParsedMessage di show ?thesis
    by (cases r) (simp_all add: handleMessage_def emit_def)
qed

lemma fire_and_forget_handlers:
  "messageHandlers (fire_and_forget (sendMessage pf m s) s) = messageHandlers s"
  using same_counters_fire_and_forget[of s pf m] by (simp add: same_counters_def)

lemma flush_handlers:
  assumes "flushMessageQueue pf s = Some s'"
  shows "messageHandlers s' = messageHandlers s"
  using assms
proof (induction rule: flushMessageQueue.raw_induct[rotated 1, consumes 1, case_names step])
  case (step flush pf s s')
  show ?case
  proof (cases "messageQueue s")
    case Nil
    with step(2) show ?thesis by simp
  next
    case (Cons m rest)
    let ?s1 = "s\<lparr>messageQueue := rest\<rparr>"
    have "flush pf (fire_and_forget (sendMessage pf m ?s1) ?s1) = Some s'"
      using step(2) Cons by (simp add: Let_def)
    from step(1)[OF this] show ?thesis by (simp add: fire_and_forget_handlers)
  qed
qed

lemma handleOpen_handlers:
  assumes "handleOpen pf now s = Some s'"
  shows "messageHandlers s' = messageHandlers s"
proof -
  from assms obtain s6 where f: "flushMessageQueue pf
      (startHeartbeat
        (let s1 = updateStatus now CONNECTED (emit Log_connected s);
             s2 = s1\<lparr>connected := True\<rparr>;
             s3 = s2\<lparr>stats := (stats s2)\<lparr>connectedAt := Some now\<rparr>\<rparr>
         in s3\<lparr>reconnectAttempts := 0\<rparr>)) = Some s6" and s': "s' = resubscribeAll s6"
    by (auto simp add: handleOpen_def Let_def split: option.splits)
  from flush_handlers[OF f] show ?thesis
    by (simp add: s' resubscribeAll_eq startHeartbeat_def setTimer_def updateStatus_fields
        emit_def Let_def)
qed

lemma sendPing_handlers:
  "handlers_for (sendPing pf now rnd s) PONG =
     handlers_for s PONG @
       (case sendMessage pf (ping_message now rnd) s of Inl e \<Rightarrow> [] | Inr s1 \<Rightarrow> [LatencyHandler now])"
proof (cases "sendMessage pf (ping_message now rnd) s")
  case (Inl e)
  then show ?thesis by (simp add: sendPing_def Let_def handlers_for_def emit_def)
next
  case (Inr s1)
  from sendMessage_handlers[OF this] have "handlers_for s1 PONG = handlers_for s PONG"
    by (simp add: handlers_for_def)
  with Inr show ?thesis by (simp add: sendPing_def Let_def handlers_for_onMessage)
qed

text \<open>
  What an event adds to the list of PONG: the handler a consumer registers for PONG, or
  the latency handler of a heartbeat ping that was sent. No event removes a handler.
\<close>

lemma step_pong_handlers:
  assumes "step pf e s = Some s'"
  shows "handlers_for s' PONG =
     handlers_for s PONG @
       (case e of
          Ev_onMessage ty n thr \<Rightarrow> if ty = PONG then [External n thr] else []
        | _ \<Rightarrow> map LatencyHandler (ping_sent pf e s))"
proof (cases e)
  case (Ev_connect now new_ws)
  with assms have "messageHandlers s' = messageHandlers s"
    by (auto simp add: connect_def Let_def updateStatus_fields split: option.splits)
  then show ?thesis using Ev_connect by (simp add: handlers_for_def ping_sent_def)
next
  case (Ev_disconnect now)
  with assms have "messageHandlers s' = messageHandlers s"
    by (auto simp add: disconnect_def clearTimers_fields updateStatus_fields emit_def Let_def
        split: ws_ref.splits)
  then show ?thesis using Ev_disconnect by (simp add: handlers_for_def ping_sent_def)
next
  case (Ev_subscribe now r1 r2 req)
  with assms have "messageHandlers s' = messageHandlers s"
    using sendMessage_handlers
    by (auto simp add: subscribe_def Let_def register_subscription_def split: sum.splits)
  then show ?thesis using Ev_subscribe by (simp add: handlers_for_def ping_sent_def)
next
  case (Ev_unsubscribe now rnd sid)
  with assms have "messageHandlers s' = messageHandlers s"
    using sendMessage_handlers
    by (auto simp add: unsubscribe_def Let_def deleteSubscription_def markInactive_def
        update_object_def split: sum.splits option.splits)
  then show ?thesis using Ev_unsubscribe by (simp add: handlers_for_def ping_sent_def)
next
  case (Ev_sendMessage m)
  with assms have "messageHandlers s' = messageHandlers s"
    using sendMessage_handlers by (auto split: sum.splits)
  then show ?thesis using Ev_sendMessage by (simp add: handlers_for_def ping_sent_def)
next
  case (Ev_onMessage ty' n thr)
  with assms show ?thesis by (auto simp add: handlers_for_onMessage)
next
  case (Ev_onSubscription sid cb)
  with assms have "messageHandlers s' = messageHandlers s" by (auto simp add: onSubscription_def)
  then show ?thesis using Ev_onSubscription by (simp add: handlers_for_def ping_sent_def)
next
  case (Ev_open now)
  with assms have "messageHandlers s' = messageHandlers s" by (simp add: handleOpen_handlers)
  then show ?thesis using Ev_open by (simp add: handlers_for_def ping_sent_def)
next
  case (Ev_message now rnd d)
  with assms have "messageHandlers s' = messageHandlers s" by (auto simp add: handleMessage_handlers)
  then show ?thesis using Ev_message by (simp add: handlers_for_def ping_sent_def)
next
  case (Ev_error now)
  with assms have "messageHandlers s' = messageHandlers s"
    by (auto simp add: handleError_def updateStatus_fields emit_def)
  then show ?thesis using Ev_error by (simp add: handlers_for_def ping_sent_def)
next
  case (Ev_close now random code)
  with assms have "messageHandlers s' = messageHandlers s"
    by (auto simp add: handleClose_def scheduleReconnect_def setTimer_def clearTimers_fields
        updateStatus_fields emit_def Let_def)
  then show ?thesis using Ev_close by (simp add: handlers_for_def ping_sent_def)
next
  case (Ev_heartbeat h now rnd)
  show ?thesis
  proof (cases "map_of (timers s) h")
    case None
    with assms Ev_heartbeat show ?thesis by (simp add: ping_sent_def)
  next
    case (Some tm)
    show ?thesis
    proof (cases tm)
      case (Timeout d)
      with assms Ev_heartbeat Some show ?thesis by (simp add: ping_sent_def)
    next
      case (Interval i)
      with assms Ev_heartbeat Some have s': "s' = heartbeat_tick pf now rnd s" by simp
      show ?thesis
      proof (cases "isConnected s")
        case (Inl err)
        then show ?thesis using Ev_heartbeat Some Interval
          by (simp add: s' heartbeat_tick_def ping_sent_def handlers_for_def emit_def)
      next
        case (Inr c)
        then show ?thesis using Ev_heartbeat Some Interval
          by (cases c) (simp_all add: s' heartbeat_tick_def ping_sent_def sendPing_handlers
              split: sum.splits)
      qed
    qed
  qed
next
  case (Ev_reconnect h now new_ws)
  with assms have "messageHandlers s' = messageHandlers s"
    by (auto simp add: reconnect_fires_def connect_def Let_def updateStatus_fields emit_def
        clearTimer_fields split: option.splits timer.splits)
  then show ?thesis using Ev_reconnect by (simp add: handlers_for_def ping_sent_def)
next
  case (Ev_readyState r)
  with assms have "messageHandlers s' = messageHandlers s"
    by (auto simp add: set_readyState_def split: ws_ref.splits)
  then show ?thesis using Ev_readyState by (simp add: handlers_for_def ping_sent_def)
qed

lemma step_pong_prefix:
  "step pf e s = Some s' \<Longrightarrow> prefix (handlers_for s PONG) (handlers_for s' PONG)"
  using step_pong_handlers[of pf e s s'] by simp

lemma step_pong_times:
  assumes "step pf e s = Some s'"
  shows "latency_times (handlers_for s' PONG) = latency_times (handlers_for s PONG) @ ping_sent pf e s"
proof (cases e)
  case (Ev_onMessage ty n thr)
  then show ?thesis using step_pong_handlers[OF assms]
    by (simp add: latency_times_append ping_sent_def)
qed (use step_pong_handlers[OF assms] in \<open>simp_all add: latency_times_append latency_times_map\<close>)

lemma step_pong_kind:
  assumes "step pf e s = Some s'" "\<forall>h \<in> set (handlers_for s PONG). latency_or_consumer h"
  shows "\<forall>h \<in> set (handlers_for s' PONG). latency_or_consumer h"
proof (cases e)
  case (Ev_onMessage ty n thr)
  then show ?thesis using step_pong_handlers[OF assms(1)] assms(2) by auto
qed (use step_pong_handlers[OF assms(1)] assms(2) in auto)

lemma run_pong:
  "run pf es s = Some s' \<Longrightarrow>
     prefix (handlers_for s PONG) (handlers_for s' PONG) \<and>
     latency_times (handlers_for s' PONG) = latency_times (handlers_for s PONG) @ pings_sent pf es s \<and>
     ((\<forall>h \<in> set (handlers_for s PONG). latency_or_consumer h) \<longrightarrow>
      (\<forall>h \<in> set (handlers_for s' PONG). latency_or_consumer h))"
proof (induction es arbitrary: s)
  case Nil
  then show ?case by simp
next
  case (Cons e es)
  from Cons.prems obtain s1 where s1: "step pf e s = Some s1" and r: "run pf es s1 = Some s'"
    by (auto split: option.splits)
  note ih = Cons.IH[OF r]
  have p: "prefix (handlers_for s PONG) (handlers_for s' PONG)"
    using step_pong_prefix[OF s1] ih prefix_order.order_trans by blast
  have t: "latency_times (handlers_for s' PONG) =
      latency_times (handlers_for s PONG) @ pings_sent pf (e # es) s"
    using step_pong_times[OF s1] ih s1 by simp
  have k: "(\<forall>h \<in> set (handlers_for s PONG). latency_or_consumer h) \<longrightarrow>
      (\<forall>h \<in> set (handlers_for s' PONG). latency_or_consumer h)"
    using step_pong_kind[OF s1] ih by blast
  from p t k show ?case by blast
qed

lemma constructor_pong: "handlers_for (constructor cfg) PONG = []"
  by (simp add: handlers_for_def constructor_def setupDefaultHandlers_def onMessage_def)


lemma invoke_pong:
  assumes "latency_or_consumer h" "\<not> throws h m"
  shows "fst (invoke pf now rnd h m s) = None \<and>
         trace (snd (invoke pf now rnd h m s)) = trace s @ [Handler_invoked (name_of h) m] \<and>
         latency (stats (snd (invoke pf now rnd h m s))) =
           (if latency_times [h] = [] then latency (stats s) else now - last (latency_times [h]))"
  using assms by (cases h) (simp_all add: invoke_def emit_def)

lemma forEach_pong:
  assumes "\<forall>h \<in> set hs. latency_or_consumer h" "\<forall>h \<in> set hs. \<not> throws h m"
  shows "fst (forEach_handlers pf now rnd hs m s) = None \<and>
         trace (snd (forEach_handlers pf now rnd hs m s)) =
           trace s @ map (\<lambda>h. Handler_invoked (name_of h) m) hs \<and>
         latency (stats (snd (forEach_handlers pf now rnd hs m s))) =
           (if latency_times hs = [] then latency (stats s) else now - last (latency_times hs))"
  using assms
proof (induction hs arbitrary: s)
  case Nil
  then show ?case by simp
next
  case (Cons h hs)
  obtain r0 s0 where i: "invoke pf now rnd h m s = (r0, s0)" by (cases "invoke pf now rnd h m s")
  from Cons.prems have hk: "latency_or_consumer h" "\<not> throws h m" by simp_all
  from invoke_pong[OF hk, of pf now rnd s] i
  have a: "r0 = None" "trace s0 = trace s @ [Handler_invoked (name_of h) m]"
    "latency (stats s0) = (if latency_times [h] = [] then latency (stats s) else now - last (latency_times [h]))"
    by simp_all
  from Cons.prems have rest: "\<forall>h \<in> set hs. latency_or_consumer h" "\<forall>h \<in> set hs. \<not> throws h m"
    by simp_all
  note ih = Cons.IH[OF rest, of s0]
  have fe: "forEach_handlers pf now rnd (h # hs) m s = forEach_handlers pf now rnd hs m s0"
    using i a(1) by simp
  have lt: "latency_times (h # hs) = latency_times [h] @ latency_times hs"
    using latency_times_append[of "[h]" hs] by simp
  show ?case
    unfolding fe lt using ih a(2,3) by (cases "latency_times hs = []") simp_all
qed

text \<open>A PONG on a list of latency and consumer handlers of which none throws.\<close>

lemma handleMessage_pong_quiet:
  assumes "JSON_parse pf d = ParsedMessage m" "msg_type m = PONG"
    and "\<forall>h \<in> set (handlers_for s PONG). latency_or_consumer h"
    and "\<forall>h \<in> set (handlers_for s PONG). \<not> throws h m"
  shows "trace (handleMessage pf now rnd d s) =
           trace s @ map (\<lambda>h. Handler_invoked (name_of h) m) (handlers_for s PONG) \<and>
         latency (stats (handleMessage pf now rnd d s)) =
           (if latency_times (handlers_for s PONG) = [] then latency (stats s)
            else now - last (latency_times (handlers_for s PONG)))"
proof -
  let ?c = "count_message now (length d) m s"
  let ?hs = "handlers_for s PONG"
  obtain r s3 where f: "forEach_handlers pf now rnd ?hs m ?c = (r, s3)"
    by (cases "forEach_handlers pf now rnd ?hs m ?c")
  from forEach_pong[OF assms(3,4), of pf now rnd ?c] f
  have a: "r = None" "trace s3 = trace s @ map (\<lambda>h. Handler_invoked (name_of h) m) ?hs"
    "latency (stats s3) = (if latency_times ?hs = [] then latency (stats s)
            else now - last (latency_times ?hs))"
    by (simp_all add: count_message_fields)
  have di: "dispatch pf now rnd (length d) m s = (None, s3)"
    using f a(1) assms(2)
    by (simp add: dispatch_def Let_def count_message_fields handlers_for_def)
  have "handleMessage pf now rnd d s = s3" by (simp add: handleMessage_def assms(1) di)
  with a show ?thesis by simp
qed

text \<open>A PONG on a list of latency and consumer handlers of which one throws.\<close>

lemma handleMessage_pong_throwing:
  assumes "JSON_parse pf d = ParsedMessage m" "msg_type m = PONG"
    and "\<forall>h \<in> set (handlers_for s PONG). latency_or_consumer h"
    and "handlers_for s PONG = hs0 @ External n thr # hs" "thr m"
    and "\<forall>h \<in> set hs0. \<not> throws h m"
  shows "trace (handleMessage pf now rnd d s) =
           trace s @ map (\<lambda>h. Handler_invoked (name_of h) m) hs0
             @ [Handler_invoked (H_external n) m, Error_handling_message] \<and>
         latency (stats (handleMessage pf now rnd d s)) =
           (if latency_times hs0 = [] then latency (stats s) else now - last (latency_times hs0))"
proof -
  let ?c = "count_message now (length d) m s"
  have mh: "messageHandlers s (msg_type m) = Some (hs0 @ External n thr # hs)"
    using assms(2,4) by (cases "messageHandlers s PONG") (simp_all add: handlers_for_def)
  have k0: "\<forall>h \<in> set hs0. latency_or_consumer h" using assms(3,4) by simp
  note hm = handleMessage_throwing[OF assms(1) mh assms(5,6), of now rnd]
  from forEach_pong[OF k0 assms(6), of pf now rnd ?c]
  have a: "trace (snd (forEach_handlers pf now rnd hs0 m ?c)) =
      trace s @ map (\<lambda>h. Handler_invoked (name_of h) m) hs0"
    "latency (stats (snd (forEach_handlers pf now rnd hs0 m ?c))) =
      (if latency_times hs0 = [] then latency (stats s) else now - last (latency_times hs0))"
    by (simp_all add: count_message_fields)
  show ?thesis by (simp add: hm emit_def a)
qed

text \<open>
  Claim C10, amended. In every state reached from a new manager by any events: the ping
  times captured by the latency handlers on the list of PONG are, in list order, the send
  times of the heartbeat pings sent successfully so far; every other handler on the list
  is a consumer's; and no later event removes a handler from the list. An inbound PONG
  calls the handlers of the list in order. If none of them throws, all are called and
  the latency is the time of the PONG minus the send time of the most recent ping (left
  as it was when no ping was sent). If a consumer's handler throws, the call ends there
  with an error line: the latency handlers after it are not called, and the latency is
  the time of the PONG minus the send time of the last ping before the throwing handler.
\<close>

theorem pong_latency_handlers_accumulate:
  assumes "run pf es (constructor cfg) = Some s"
  shows "latency_times (handlers_for s PONG) = pings_sent pf es (constructor cfg) \<and>
     (\<forall>h \<in> set (handlers_for s PONG). latency_or_consumer h) \<and>
     (run pf es' s = Some s' \<longrightarrow> prefix (handlers_for s PONG) (handlers_for s' PONG)) \<and>
     (JSON_parse pf d = ParsedMessage m \<and> msg_type m = PONG \<and>
      (\<forall>h \<in> set (handlers_for s PONG). \<not> throws h m) \<longrightarrow>
        trace (handleMessage pf now rnd d s) =
          trace s @ map (\<lambda>h. Handler_invoked (name_of h) m) (handlers_for s PONG) \<and>
        latency (stats (handleMessage pf now rnd d s)) =
          (if pings_sent pf es (constructor cfg) = [] then latency (stats s)
           else now - last (pings_sent pf es (constructor cfg)))) \<and>
     (JSON_parse pf d = ParsedMessage m \<and> msg_type m = PONG \<and>
      handlers_for s PONG = hs0 @ External n thr # hs \<and> thr m \<and>
      (\<forall>h \<in> set hs0. \<not> throws h m) \<longrightarrow>
        trace (handleMessage pf now rnd d s) =
          trace s @ map (\<lambda>h. Handler_invoked (name_of h) m) hs0
            @ [Handler_invoked (H_external n) m, Error_handling_message] \<and>
        latency (stats (handleMessage pf now rnd d s)) =
          (if latency_times hs0 = [] then latency (stats s) else now - last (latency_times hs0)))"
proof -
  from run_pong[OF assms]
  have t: "latency_times (handlers_for s PONG) = pings_sent pf es (constructor cfg)"
    and k: "\<forall>h \<in> set (handlers_for s PONG). latency_or_consumer h"
    by (simp_all add: constructor_pong)
  have p: "run pf es' s = Some s' \<longrightarrow> prefix (handlers_for s PONG) (handlers_for s' PONG)"
    using run_pong[of pf es' s s'] by blast
  have q: "JSON_parse pf d = ParsedMessage m \<and> msg_type m = PONG \<and>
      (\<forall>h \<in> set (handlers_for s PONG). \<not> throws h m) \<longrightarrow>
        trace (handleMessage pf now rnd d s) =
          trace s @ map (\<lambda>h. Handler_invoked (name_of h) m) (handlers_for s PONG) \<and>
        latency (stats (handleMessage pf now rnd d s)) =
          (if pings_sent pf es (constructor cfg) = [] then latency (stats s)
           else now - last (pings_sent pf es (constructor cfg)))"
    using handleMessage_pong_quiet[of pf d m s now rnd] k unfolding t by blast
  have r: "JSON_parse pf d = ParsedMessage m \<and> msg_type m = PONG \<and>
      handlers_for s PONG = hs0 @ External n thr # hs \<and> thr m \<and>
      (\<forall>h \<in> set hs0. \<not> throws h m) \<longrightarrow>
        trace (handleMessage pf now rnd d s) =
          trace s @ map (\<lambda>h. Handler_invoked (name_of h) m) hs0
            @ [Handler_invoked (H_external n) m, Error_handling_message] \<and>
        latency (stats (handleMessage pf now rnd d s)) =
          (if latency_times hs0 = [] then latency (stats s) else now - last (latency_times hs0))"
    using handleMessage_pong_throwing[of pf d m s hs0 n thr hs now rnd] k by blast
  from t k p q r show ?thesis by blast
qed


lemmas ping_defs =
  heartbeat_tick_def sendPing_def sendMessage_def isConnected_def ping_message_def
  generateMessageId_def show_int_def digits.simps digit_char_def example_platform_def
  ping_sent_def

lemma example_two_pings_run:
  "run example_platform two_pings (constructor example_config) = Some example_two_pings"
  by (simp add: example_two_pings_def two_pings_def life_cycle_defs flush_Nil ping_defs
      example_config_def)

lemma example_two_pings_fields:
  "handlers_for example_two_pings PONG = [LatencyHandler 10, LatencyHandler 40]"
  "latency (stats example_two_pings) = 0"
  "pings_sent example_platform two_pings (constructor example_config) = [10, 40]"
  by (simp_all add: example_two_pings_def two_pings_def life_cycle_defs flush_Nil ping_defs
      example_config_def handlers_for_def)

lemma example_pings_and_consumer_run:
  "run example_platform pings_and_consumer (constructor example_config)
     = Some example_pings_and_consumer"
  by (simp add: example_pings_and_consumer_def pings_and_consumer_def life_cycle_defs flush_Nil
      ping_defs example_config_def)

lemma example_pings_and_consumer_fields:
  "handlers_for example_pings_and_consumer PONG =
     [LatencyHandler 10] @ External 101 (\<lambda>m. True) # [LatencyHandler 40]"
  "latency (stats example_pings_and_consumer) = 0"
  "pings_sent example_platform pings_and_consumer (constructor example_config) = [10, 40]"
  by (simp_all add: example_pings_and_consumer_def pings_and_consumer_def life_cycle_defs
      flush_Nil ping_defs example_config_def handlers_for_def)

lemma example_pong_parsed:
  "JSON_parse example_platform ''pong'' = ParsedMessage (example_message ''p1'' PONG)"
  "msg_type (example_message ''p1'' PONG) = PONG"
  by (simp_all add: example_platform_def example_message_def)

text \<open>
  Two heartbeat pings, sent at times 10 and 40, and a PONG at time 47: both latency
  handlers are called and the latency is 7; a handler registered afterwards is appended.
  With a consumer's throwing PONG handler registered between the two pings, the second
  latency handler is not called and the latency is 37.
\<close>

theorem pong_latency_handlers_accumulate_witness:
  "run example_platform two_pings (constructor example_config) = Some example_two_pings \<and>
   pings_sent example_platform two_pings (constructor example_config) = [10, 40] \<and>
   latency_times (handlers_for example_two_pings PONG) = [10, 40] \<and>
   handlers_for example_two_pings PONG = [LatencyHandler 10, LatencyHandler 40] \<and>
   prefix (handlers_for example_two_pings PONG)
     (handlers_for (onMessage PONG (External 101 (\<lambda>m. True)) example_two_pings) PONG) \<and>
   JSON_parse example_platform ''pong'' = ParsedMessage (example_message ''p1'' PONG) \<and>
   trace (handleMessage example_platform 47 ''r'' ''pong'' example_two_pings) =
     trace example_two_pings @
       [Handler_invoked (H_latency 10) (example_message ''p1'' PONG),
        Handler_invoked (H_latency 40) (example_message ''p1'' PONG)] \<and>
   latency (stats (handleMessage example_platform 47 ''r'' ''pong'' example_two_pings)) = 7 \<and>
   run example_platform pings_and_consumer (constructor example_config)
     = Some example_pings_and_consumer \<and>
   handlers_for example_pings_and_consumer PONG =
     [LatencyHandler 10, External 101 (\<lambda>m. True), LatencyHandler 40] \<and>
   trace (handleMessage example_platform 47 ''r'' ''pong'' example_pings_and_consumer) =
     trace example_pings_and_consumer @
       [Handler_invoked (H_latency 10) (example_message ''p1'' PONG),
        Handler_invoked (H_external 101) (example_message ''p1'' PONG),
        Error_handling_message] \<and>
   latency (stats (handleMessage example_platform 47 ''r'' ''pong'' example_pings_and_consumer)) = 37"
proof -
  define m where "m = example_message ''p1'' PONG"
  note p = example_pong_parsed[folded m_def]
  note t1 = pong_latency_handlers_accumulate[OF example_two_pings_run,
      where es' = "[Ev_onMessage PONG 101 (\<lambda>m. True)]"
        and s' = "onMessage PONG (External 101 (\<lambda>m. True)) example_two_pings"
        and d = "''pong''" and m = m and now = 47 and rnd = "''r''"]
  note t2 = pong_latency_handlers_accumulate[OF example_pings_and_consumer_run,
      where d = "''pong''" and m = m and now = 47 and rnd = "''r''"
        and ?hs0.0 = "[LatencyHandler 10]" and n = 101 and thr = "\<lambda>m. True"
        and hs = "[LatencyHandler 40]"]
  have a: "latency_times (handlers_for example_two_pings PONG) = [10, 40]"
    using t1[THEN conjunct1] by (simp add: example_two_pings_fields)
  have b: "prefix (handlers_for example_two_pings PONG)
     (handlers_for (onMessage PONG (External 101 (\<lambda>m. True)) example_two_pings) PONG)"
    using t1[THEN conjunct2, THEN conjunct2, THEN conjunct1] by simp
  have q: "\<forall>h \<in> set (handlers_for example_two_pings PONG). \<not> throws h m"
    by (simp add: example_two_pings_fields)
  have c: "trace (handleMessage example_platform 47 ''r'' ''pong'' example_two_pings) =
     trace example_two_pings @ [Handler_invoked (H_latency 10) m, Handler_invoked (H_latency 40) m]"
    "latency (stats (handleMessage example_platform 47 ''r'' ''pong'' example_two_pings)) = 7"
    using t1[THEN conjunct2, THEN conjunct2, THEN conjunct2, THEN conjunct1] p q
    by (simp_all add: example_two_pings_fields)
  have d: "trace (handleMessage example_platform 47 ''r'' ''pong'' example_pings_and_consumer) =
     trace example_pings_and_consumer @
       [Handler_invoked (H_latency 10) m, Handler_invoked (H_external 101) m, Error_handling_message]"
    "latency (stats (handleMessage example_platform 47 ''r'' ''pong'' example_pings_and_consumer)) = 37"
    using t2[THEN conjunct2, THEN conjunct2, THEN conjunct2, THEN conjunct2] p
    by (simp_all add: example_pings_and_consumer_fields)
  have e: "handlers_for example_pings_and_consumer PONG =
     [LatencyHandler 10, External 101 (\<lambda>m. True), LatencyHandler 40]"
    by (simp add: example_pings_and_consumer_fields)
  from example_two_pings_run example_two_pings_fields(1,3) a b p(1) c
    example_pings_and_consumer_run e d
  show ?thesis unfolding m_def by blast
qed

text \<open>
  Claim C10 as it is stated fails when a consumer registers a PONG handler that throws
  between two pings: the pings sent at 10 and 40 leave the list latency handler 10, the
  consumer's handler 101, latency handler 40. The list holds a handler that \<^verbatim>\<open>sendPing\<close>
  did not add; a PONG at time 47 calls the first two and stops, so the latency handler
  of the most recent ping is not called and the latency is 37, not 47 - 40.
\<close>

theorem pong_handler_throws_counterexample:
  "pings_sent example_platform pings_and_consumer (constructor example_config) = [10, 40] \<and>
   handlers_for example_pings_and_consumer PONG =
     [LatencyHandler 10, External 101 (\<lambda>m. True), LatencyHandler 40] \<and>
   JSON_parse example_platform ''pong'' = ParsedMessage (example_message ''p1'' PONG) \<and>
   Handler_invoked (H_latency 10) (example_message ''p1'' PONG)
     \<in> set (trace (handleMessage example_platform 47 ''r'' ''pong'' example_pings_and_consumer)) \<and>
   Handler_invoked (H_latency 40) (example_message ''p1'' PONG)
     \<notin> set (trace (handleMessage example_platform 47 ''r'' ''pong'' example_pings_and_consumer)) \<and>
   latency (stats (handleMessage example_platform 47 ''r'' ''pong'' example_pings_and_consumer)) = 37"
proof -
  define m where "m = example_message ''p1'' PONG"
  note p = example_pong_parsed[folded m_def]
  have k: "\<forall>h \<in> set (handlers_for example_pings_and_consumer PONG). latency_or_consumer h"
    by (simp add: example_pings_and_consumer_fields)
  have q: "\<forall>h \<in> set [LatencyHandler 10]. \<not> throws h m" by simp
  have nt: "Handler_invoked (H_latency 40) m \<notin> set (trace example_pings_and_consumer)"
    by (simp add: example_pings_and_consumer_def pings_and_consumer_def life_cycle_defs
        flush_Nil ping_defs example_config_def)
  from handleMessage_pong_throwing[OF p k example_pings_and_consumer_fields(1) _ q, of 47 "''r''"]
  have "trace (handleMessage example_platform 47 ''r'' ''pong'' example_pings_and_consumer) =
     trace example_pings_and_consumer @
       [Handler_invoked (H_latency 10) m, Handler_invoked (H_external 101) m, Error_handling_message]"
    "latency (stats (handleMessage example_platform 47 ''r'' ''pong'' example_pings_and_consumer)) = 37"
    by simp_all
  with nt p(1) example_pings_and_consumer_fields(1,3) show ?thesis unfolding m_def by simp
qed

end
